(* ===== verification/Prelude.thy ===== *)
theory Prelude
  imports Main "HOL-Library.Word"
begin

text \<open>
  Shared vocabulary of the development: bytes, the Python exceptions the sources can raise, the
  result type of fallible code, Python slices and indexing, and the conversion between integers
  and byte strings in little-endian order.  The lemmas are generic; the component theories use
  them through the simpset and through the collections declared here.
\<close>

unbundle bit_operations_syntax

named_theorems res_simps \<open>evaluation of results\<close>
named_theorems slice_simps \<open>Python slices as take and drop\<close>

subsection \<open>Bytes and results\<close>

type_synonym byte = "8 word"
type_synonym bytes = "byte list"

text \<open>
  The exceptions raised by the modelled code.  \<open>StructError\<close> is \<^verbatim>\<open>struct.error\<close>; the subclass
  relations the sources rely on (\<^verbatim>\<open>UnicodeDecodeError\<close> and \<^verbatim>\<open>binascii.Error\<close> are
  \<^verbatim>\<open>ValueError\<close>s, \<^verbatim>\<open>OSError\<close> and \<^verbatim>\<open>IOError\<close> are one class) are given by \<open>is_ValueError\<close>.
\<close>

datatype pyexn =
    StructError
  | IndexError
  | KeyError
  | ValueError
  | TypeError
  | AttributeError
  | OverflowError
  | OSError
  | UnicodeDecodeError
  | BinasciiError

definition is_ValueError :: "pyexn \<Rightarrow> bool" where
  "is_ValueError e \<longleftrightarrow> e = ValueError \<or> e = UnicodeDecodeError \<or> e = BinasciiError"

type_synonym 'a res = "pyexn + 'a"

definition rbind :: "'a res \<Rightarrow> ('a \<Rightarrow> 'b res) \<Rightarrow> 'b res" where
  "rbind m k = (case m of Inl e \<Rightarrow> Inl e | Inr x \<Rightarrow> k x)"

lemma rbind_Inl [simp]: "rbind (Inl e) k = Inl e"
  and rbind_Inr [simp]: "rbind (Inr x) k = k x"
  by (simp_all add: rbind_def)

lemma rbind_eq_Inr_iff [res_simps]: "rbind m k = Inr y \<longleftrightarrow> (\<exists>x. m = Inr x \<and> k x = Inr y)"
  by (cases m) auto

lemma rbind_eq_Inl_iff [res_simps]:
  "rbind m k = Inl e \<longleftrightarrow> m = Inl e \<or> (\<exists>x. m = Inr x \<and> k x = Inl e)"
  by (cases m) auto

lemma rbind_cong [fundef_cong]:
  "m = m' \<Longrightarrow> (\<And>x. m' = Inr x \<Longrightarrow> k x = k' x) \<Longrightarrow> rbind m k = rbind m' k'"
  by (cases m') auto

lemma rbind_assoc: "rbind (rbind m f) g = rbind m (\<lambda>x. rbind (f x) g)"
  by (cases m) auto

text \<open>A list comprehension whose element expression may raise.\<close>

fun rmap :: "('a \<Rightarrow> 'b res) \<Rightarrow> 'a list \<Rightarrow> 'b list res" where
  "rmap f [] = Inr []"
| "rmap f (x # xs) = rbind (f x) (\<lambda>y. rbind (rmap f xs) (\<lambda>ys. Inr (y # ys)))"

lemma rmap_Inr: "(\<And>x. x \<in> set xs \<Longrightarrow> f x = Inr (g x)) \<Longrightarrow> rmap f xs = Inr (map g xs)"
  by (induction xs) auto

lemma rmap_length: "rmap f xs = Inr ys \<Longrightarrow> length ys = length xs"
  by (induction xs arbitrary: ys) (auto simp: res_simps)

subsection \<open>Slices and indexing\<close>

text \<open>\<open>slice a b xs\<close> is \<^verbatim>\<open>xs[a:b]\<close> and \<open>py_index xs i\<close> is \<^verbatim>\<open>xs[i]\<close>, for non-negative bounds.\<close>

definition slice :: "nat \<Rightarrow> nat \<Rightarrow> 'a list \<Rightarrow> 'a list" where
  "slice a b xs = take (b - a) (drop a xs)"

definition py_index :: "'a list \<Rightarrow> nat \<Rightarrow> 'a res" where
  "py_index xs i = (if i < length xs then Inr (xs ! i) else Inl IndexError)"

text \<open>\<open>last_n n xs\<close> is \<^verbatim>\<open>xs[-n:]\<close> and \<open>drop_last_n n xs\<close> is \<^verbatim>\<open>xs[:-n]\<close>, for positive \<open>n\<close>.\<close>

definition last_n :: "nat \<Rightarrow> 'a list \<Rightarrow> 'a list" where
  "last_n n xs = drop (length xs - n) xs"

definition drop_last_n :: "nat \<Rightarrow> 'a list \<Rightarrow> 'a list" where
  "drop_last_n n xs = take (length xs - n) xs"

lemma slice_length [simp]: "length (slice a b xs) = min (b - a) (length xs - a)"
  by (auto simp: slice_def)

lemma slice_Nil [simp]: "slice a b [] = []"
  by (simp add: slice_def)

lemma slice_zero [slice_simps]: "slice 0 b xs = take b xs"
  by (simp add: slice_def)

lemma slice_append_exact [slice_simps]:
  "length xs = a \<Longrightarrow> b = a + n \<Longrightarrow> slice a b (xs @ ys) = take n ys"
  by (simp add: slice_def)

lemma take_slice_drop: "a \<le> b \<Longrightarrow> take a xs @ slice a b xs @ drop b xs = xs"
  by (metis append.assoc append_take_drop_id le_add_diff_inverse slice_def take_add)

lemma last_n_append [simp]: "length ys = n \<Longrightarrow> last_n n (xs @ ys) = ys"
  by (simp add: last_n_def)

lemma drop_last_n_append [simp]: "length ys = n \<Longrightarrow> drop_last_n n (xs @ ys) = xs"
  by (simp add: drop_last_n_def)

lemma drop_last_n_last_n: "n \<le> length xs \<Longrightarrow> drop_last_n n xs @ last_n n xs = xs"
  by (simp add: last_n_def drop_last_n_def)

lemma last_n_split: "length ys = n \<Longrightarrow> last_n n xs = ys \<Longrightarrow> n \<le> length xs \<Longrightarrow> \<exists>zs. xs = zs @ ys"
  by (metis drop_last_n_last_n)

subsection \<open>Exclusive or\<close>

lemma xor_left_cancel [simp]: "x XOR y = x XOR z \<longleftrightarrow> y = z" for x y z :: "'a::len word"
  by (auto simp: bit_eq_iff bit_xor_iff)

lemma xor_right_cancel [simp]: "y XOR x = z XOR x \<longleftrightarrow> y = z" for x y z :: "'a::len word"
  by (auto simp: bit_eq_iff bit_xor_iff)

lemma xor_and_mask: "(x AND m) XOR (x AND NOT m) = x" for x m :: "'a::len word"
  by (auto simp: bit_eq_iff bit_xor_iff bit_and_iff bit_not_iff)

subsection \<open>Integers as byte strings\<close>

text \<open>
  Python integers are unbounded, so a decoded integer is an \<open>int\<close>.  \<open>le_int\<close> reads a byte string
  least significant byte first, \<open>le_bytes n\<close> writes the \<open>n\<close> low bytes in the same order.
\<close>

fun le_int :: "bytes \<Rightarrow> int" where
  "le_int [] = 0"
| "le_int (b # bs) = uint b + 256 * le_int bs"

fun le_bytes :: "nat \<Rightarrow> int \<Rightarrow> bytes" where
  "le_bytes 0 v = []"
| "le_bytes (Suc n) v = word_of_int v # le_bytes n (v div 256)"

lemma uint_byte_bounds: "0 \<le> uint (b :: byte)" "uint (b :: byte) < 256"
  using uint_lt2p [of b] by simp_all

lemma le_int_nonneg [simp]: "0 \<le> le_int bs"
  by (induction bs) (auto simp: uint_byte_bounds)

lemma le_int_upper: "le_int bs < 256 ^ length bs"
proof (induction bs)
  case (Cons b bs)
  have "uint b + 256 * le_int bs < 256 + 256 * le_int bs"
    using uint_byte_bounds(2) [of b] by simp
  also have "\<dots> \<le> 256 * 256 ^ length bs"
    using Cons by linarith
  finally show ?case by simp
qed simp

lemma length_le_bytes [simp]: "length (le_bytes n v) = n"
  by (induction n arbitrary: v) auto

lemma le_bytes_le_int: "le_bytes (length bs) (le_int bs) = bs"
proof (induction bs)
  case (Cons b bs)
  have "(uint b + 256 * le_int bs) div 256 = le_int bs"
    using uint_byte_bounds [of b] by simp
  moreover have "word_of_int (uint b + 256 * le_int bs) = b"
  proof -
    have z: "(256 :: byte) = 0" by simp
    have "word_of_int (uint b + 256 * le_int bs) = b + 256 * word_of_int (le_int bs)"
      by simp
    also have "\<dots> = b"
      by (subst z) simp
    finally show ?thesis .
  qed
  ultimately show ?case using Cons by simp
qed simp

lemma le_int_le_bytes: "0 \<le> v \<Longrightarrow> v < 256 ^ n \<Longrightarrow> le_int (le_bytes n v) = v"
proof (induction n arbitrary: v)
  case (Suc n)
  have "v div 256 < 256 ^ n"
    using Suc.prems by (simp add: div_less_iff_less_mult mult.commute)
  then have "le_int (le_bytes n (v div 256)) = v div 256"
    using Suc by (simp add: pos_imp_zdiv_nonneg_iff)
  moreover have "uint (word_of_int v :: byte) = v mod 256"
    by (simp add: uint_word_of_int)
  ultimately show ?case by simp
qed simp

lemma word_eq_iff_mod_256: "word_of_int a = (word_of_int b :: byte) \<longleftrightarrow> a mod 256 = b mod 256"
  by (simp add: word_of_int_eq_iff take_bit_eq_mod)

lemma le_int_append: "le_int (xs @ ys) = le_int xs + 256 ^ length xs * le_int ys"
  by (induction xs) (simp_all add: algebra_simps)

lemma le_bytes_append: "le_bytes (m + n) v = le_bytes m v @ le_bytes n (v div 256 ^ m)"
  by (induction m arbitrary: v) (simp_all add: zdiv_zmult2_eq)

lemma le_bytes_mod: "le_bytes n (v mod 256 ^ n) = le_bytes n v"
proof (induction n arbitrary: v)
  case (Suc n)
  have "v mod (256 * 256 ^ n) = 256 * (v div 256 mod 256 ^ n) + v mod 256"
    by (rule zmod_zmult2_eq) simp
  then have "v mod (256 * 256 ^ n) div 256 = v div 256 mod 256 ^ n" by simp
  moreover have "word_of_int (v mod (256 * 256 ^ n)) = (word_of_int v :: byte)"
    by (subst word_eq_iff_mod_256) (simp add: mod_mod_cancel)
  ultimately show ?case using Suc [of "v div 256"] by simp
qed simp

lemma le_int_le_bytes_mod: "le_int (le_bytes n v) = v mod 256 ^ n"
  using le_int_le_bytes [of "v mod 256 ^ n" n] by (simp add: le_bytes_mod)

subsection \<open>Results delivered one by one\<close>

text \<open>A generator, or any code with visible effects, that may raise: what it delivers and the exception that ends it.\<close>

type_synonym 'a generated = "'a list \<times> pyexn option"

fun gen_then :: "'a list \<times> 'e option \<Rightarrow> 'a list \<times> 'e option \<Rightarrow> 'a list \<times> 'e option" where
  "gen_then (xs, None) (ys, e) = (xs @ ys, e)"
| "gen_then (xs, Some e) _ = (xs, Some e)"

text \<open>The loop over a generator whose body delivers in turn.\<close>

fun gen_each :: "('a \<Rightarrow> 'b list \<times> 'e option) \<Rightarrow> 'a list \<Rightarrow> 'b list \<times> 'e option" where
  "gen_each f [] = ([], None)"
| "gen_each f (x # xs) = gen_then (f x) (gen_each f xs)"

lemma gen_each_ok:
  "(\<And>x. x \<in> set xs \<Longrightarrow> f x = (g x, None)) \<Longrightarrow> gen_each f xs = (concat (map g xs), None)"
  by (induction xs) auto

end
