(* ===== verification/PyFloat.thy ===== *)
theory PyFloat
  imports Complex_Main Prelude
begin

text \<open>
  Python floats.  A finite float is the rational it denotes (negative zero apart, which prints
  differently), so comparison and arithmetic are exact up to the rounding of IEEE 754 double
  precision, which \<open>fl\<close> performs: round to nearest, ties to even, with the subnormal and the
  overflow thresholds.  \<open>f32_of_int\<close> reads the bit pattern of a binary32 value, as
  \<^verbatim>\<open>struct.unpack("f", ...)\<close> does; widening to a double is exact.
\<close>

datatype pyfloat = Fin rat | NegZero | Infty bool \<comment> \<open>True: negative\<close> | NaN

subsection \<open>Powers and logarithms to base two\<close>

definition pow2 :: "int \<Rightarrow> rat" where
  "pow2 k = (if 0 \<le> k then 2 ^ nat k else 1 / 2 ^ nat (- k))"

lemma pow2_pos [simp]: "0 < pow2 k"
  by (simp add: pow2_def)

lemma pow2_nonzero [simp]: "pow2 k \<noteq> 0"
  by (metis less_irrefl pow2_pos)

lemma abs_pow2 [simp]: "\<bar>pow2 k\<bar> = pow2 k"
  by (simp add: abs_of_pos)

lemma pow2_of_nat [simp]: "pow2 (int n) = 2 ^ n"
  by (simp add: pow2_def)

lemma pow2_add: "pow2 (a + b) = pow2 a * pow2 b"
proof -
  have conv: "pow2 k = 2 powi k" for k
    by (auto simp: pow2_def power_int_def power_one_over inverse_eq_divide)
  show ?thesis by (simp add: conv power_int_add)
qed

lemma pow2_mono: "a \<le> b \<Longrightarrow> pow2 a \<le> pow2 b"
proof -
  assume "a \<le> b"
  then obtain n where b: "b = a + int n" by (metis zle_iff_zadd)
  have "(1 :: rat) \<le> 2 ^ n" by simp
  then have "pow2 a * 1 \<le> pow2 a * 2 ^ n" by (intro mult_left_mono) (simp_all add: less_imp_le)
  then show ?thesis by (simp add: b pow2_add)
qed

lemma pow2_less_cancel: "pow2 a < pow2 b \<Longrightarrow> a < b"
  using pow2_mono [of b a] by linarith

fun nlog2 :: "nat \<Rightarrow> nat" where
  "nlog2 n = (if n < 2 then 0 else Suc (nlog2 (n div 2)))"

declare nlog2.simps [simp del]

lemma nlog2_bounds: "0 < n \<Longrightarrow> 2 ^ nlog2 n \<le> n \<and> n < 2 * 2 ^ nlog2 n"
proof (induction n rule: nlog2.induct)
  case (1 n)
  show ?case
  proof (cases "n < 2")
    case True
    with 1 show ?thesis by (simp add: nlog2.simps [of n])
  next
    case False
    with 1 have "2 ^ nlog2 (n div 2) \<le> n div 2 \<and> n div 2 < 2 * 2 ^ nlog2 (n div 2)" by simp
    with False show ?thesis by (auto simp: nlog2.simps [of n])
  qed
qed

text \<open>The binary exponent of a positive rational: \<open>pow2 (ilog2 q) \<le> q < pow2 (ilog2 q + 1)\<close>.\<close>

definition ilog2 :: "rat \<Rightarrow> int" where
  "ilog2 q = (let (n, d) = quotient_of q; k = int (nlog2 (nat n)) - int (nlog2 (nat d))
              in if q < pow2 k then k - 1 else k)"

lemma ilog2_bounds:
  assumes "0 < q"
  shows "pow2 (ilog2 q) \<le> q" and "q < pow2 (ilog2 q + 1)"
proof -
  obtain n d where nd: "quotient_of q = (n, d)" by fastforce
  have d: "0 < d" using quotient_of_denom_pos [OF nd] .
  have q: "q = of_int n / of_int d" using quotient_of_div [OF nd] .
  have n: "0 < n" using assms d by (simp add: q zero_less_divide_iff)
  define a b where "a = nlog2 (nat n)" and "b = nlog2 (nat d)"
  have "2 ^ a \<le> nat n \<and> nat n < 2 * 2 ^ a" "2 ^ b \<le> nat d \<and> nat d < 2 * 2 ^ b"
    using nlog2_bounds [of "nat n"] nlog2_bounds [of "nat d"] n d by (auto simp: a_def b_def)
  then have int_bounds: "2 ^ a \<le> n" "n < 2 * 2 ^ a" "2 ^ b \<le> d" "d < 2 * 2 ^ b"
    using n d by (auto simp: le_nat_iff nat_less_iff)
  then have bounds: "2 ^ a \<le> rat_of_int n" "rat_of_int n < 2 * 2 ^ a"
      "2 ^ b \<le> rat_of_int d" "rat_of_int d < 2 * 2 ^ b"
    using int_bounds [folded of_int_le_iff [where 'a = rat] of_int_less_iff [where 'a = rat]]
    by simp_all
  define k where "k = int a - int b"
  have split_k: "pow2 k * 2 ^ b = 2 ^ a"
    using pow2_add [of k "int b"] by (simp add: k_def)
  have dpos: "0 < rat_of_int d" using d by simp
  have "rat_of_int n < (2 * pow2 k) * 2 ^ b"
    using bounds(2) split_k by (simp add: mult.assoc)
  also have "\<dots> \<le> (2 * pow2 k) * rat_of_int d"
    using bounds(3) by (intro mult_left_mono) (simp_all add: less_imp_le)
  finally have upper: "q < pow2 (k + 1)"
    using dpos by (simp add: q divide_less_eq pow2_add pow2_def [of 1] mult.commute)
  have "pow2 (k - 1) * rat_of_int d \<le> pow2 (k - 1) * (2 * 2 ^ b)"
    using bounds(4) by (intro mult_left_mono) (simp_all add: less_imp_le)
  also have "\<dots> = 2 ^ a"
    using split_k pow2_add [of "k - 1" 1] by (simp add: pow2_def [of 1])
  also have "\<dots> \<le> rat_of_int n" by (rule bounds(1))
  finally have lower: "pow2 (k - 1) \<le> q"
    using dpos by (simp add: q le_divide_eq)
  have il: "ilog2 q = (if q < pow2 k then k - 1 else k)"
    by (simp add: ilog2_def nd k_def a_def b_def)
  show "pow2 (ilog2 q) \<le> q" using lower by (auto simp: il)
  show "q < pow2 (ilog2 q + 1)" using upper by (auto simp: il)
qed

subsection \<open>Rounding to double precision\<close>

definition round_half_even :: "rat \<Rightarrow> int" where
  "round_half_even x = (let f = \<lfloor>x\<rfloor>; r = x - of_int f
     in if r < 1 / 2 then f else if 1 / 2 < r then f + 1 else if even f then f else f + 1)"

definition fl_quantum :: "rat \<Rightarrow> int" where
  "fl_quantum a = max (ilog2 a - 52) (- 1074)"

definition fl :: "rat \<Rightarrow> pyfloat" where
  "fl q = (if q = 0 then Fin 0
     else let k = fl_quantum \<bar>q\<bar>;
              m = of_int (round_half_even (\<bar>q\<bar> * pow2 (- k))) * pow2 k
          in if pow2 1024 \<le> m then Infty (q < 0)
             else if m = 0 then (if q < 0 then NegZero else Fin 0)
             else Fin (if q < 0 then - m else m))"

lemma fl_zero [simp]: "fl 0 = Fin 0"
  by (simp add: fl_def)

lemma round_half_even_of_int [simp]: "round_half_even (of_int n) = n"
  by (simp add: round_half_even_def)

text \<open>A rational with at most 53 significant bits and a quantum in range is a double.\<close>

lemma fl_exact:
  assumes "\<bar>m\<bar> < 2 ^ 53" and "- 1074 \<le> k" and "k \<le> 971"
  shows "fl (of_int m * pow2 k) = Fin (of_int m * pow2 k)"
proof (cases "m = 0")
  case False
  let ?q = "of_int m * pow2 k"
  let ?j = "fl_quantum \<bar>?q\<bar>"
  have absq: "\<bar>?q\<bar> = of_int \<bar>m\<bar> * pow2 k"
    by (simp add: abs_mult)
  have pos: "0 < \<bar>?q\<bar>" using False by simp
  have m53: "rat_of_int \<bar>m\<bar> < 2 ^ 53"
    using assms(1) [folded of_int_less_iff [where 'a = rat]] by simp
  have small: "\<bar>?q\<bar> < pow2 (k + 53)"
    using m53 by (simp add: absq pow2_add pow2_def [of 53] mult.commute)
  then have "pow2 (ilog2 \<bar>?q\<bar>) < pow2 (k + 53)"
    using ilog2_bounds(1) [OF pos] by linarith
  then have "ilog2 \<bar>?q\<bar> < k + 53" by (rule pow2_less_cancel)
  then have jk: "?j \<le> k" using assms(2) by (simp add: fl_quantum_def)
  then obtain n where n: "k = ?j + int n" by (metis zle_iff_zadd)
  have "k - ?j = int n" using n by simp
  then have "pow2 (k - ?j) = 2 ^ n" by (simp only: pow2_of_nat)
  then have "pow2 k * pow2 (- ?j) = 2 ^ n"
    using pow2_add [of k "- ?j"] by simp
  then have scaled: "\<bar>?q\<bar> * pow2 (- ?j) = of_int (\<bar>m\<bar> * 2 ^ n)"
    by (simp add: absq mult.assoc)
  have unscaled: "of_int (\<bar>m\<bar> * 2 ^ n) * pow2 ?j = \<bar>?q\<bar>"
    using pow2_add [of ?j "int n", folded n] by (simp add: absq ac_simps)
  have "pow2 (k + 53) \<le> pow2 1024" using assms(3) by (intro pow2_mono) simp
  then have "\<not> pow2 1024 \<le> \<bar>?q\<bar>" using small by linarith
  moreover have "\<bar>?q\<bar> \<noteq> 0" using False by simp
  ultimately show ?thesis
    using False unfolding fl_def Let_def scaled round_half_even_of_int unscaled
    by (auto simp: abs_if split: if_splits)
qed (simp add: fl_def)

lemma fl_of_int: "\<bar>m\<bar> < 2 ^ 53 \<Longrightarrow> fl (of_int m) = Fin (of_int m)"
  using fl_exact [of m 0] by (simp add: pow2_def)

subsection \<open>Comparison and multiplication\<close>

text \<open>
  The order key of a float: infinities outside the finite values, both zeros equal.  A comparison
  that involves a NaN is false, and a NaN is equal to nothing, itself included.
\<close>

fun fkey :: "pyfloat \<Rightarrow> int \<times> rat" where
  "fkey (Fin q) = (0, q)"
| "fkey NegZero = (0, 0)"
| "fkey (Infty neg) = ((if neg then - 1 else 1), 0)"
| "fkey NaN = (0, 0)"

instantiation pyfloat :: ord
begin

definition less_pyfloat :: "pyfloat \<Rightarrow> pyfloat \<Rightarrow> bool" where
  "less_pyfloat x y \<longleftrightarrow> x \<noteq> NaN \<and> y \<noteq> NaN \<and>
     (fst (fkey x) < fst (fkey y) \<or> fst (fkey x) = fst (fkey y) \<and> snd (fkey x) < snd (fkey y))"

definition less_eq_pyfloat :: "pyfloat \<Rightarrow> pyfloat \<Rightarrow> bool" where
  "less_eq_pyfloat x y \<longleftrightarrow> x \<noteq> NaN \<and> y \<noteq> NaN \<and> (x < y \<or> fkey x = fkey y)"

instance ..

end

definition feq :: "pyfloat \<Rightarrow> pyfloat \<Rightarrow> bool" where
  "feq x y \<longleftrightarrow> x \<noteq> NaN \<and> y \<noteq> NaN \<and> fkey x = fkey y"

lemma nan_not_less [simp]: "\<not> NaN < (x :: pyfloat)" "\<not> x < (NaN :: pyfloat)"
  by (simp_all add: less_pyfloat_def)

lemma Fin_less_Fin [simp]: "Fin a < Fin b \<longleftrightarrow> a < b"
  by (simp add: less_pyfloat_def)

lemma feq_nan [simp]: "\<not> feq NaN x" "\<not> feq x NaN"
  by (simp_all add: feq_def)

lemma feq_Fin [simp]: "feq (Fin a) (Fin b) \<longleftrightarrow> a = b"
  by (simp add: feq_def)

definition fabs :: "pyfloat \<Rightarrow> pyfloat" where
  "fabs x = (case x of Fin q \<Rightarrow> Fin \<bar>q\<bar> | NegZero \<Rightarrow> Fin 0 | Infty _ \<Rightarrow> Infty False | NaN \<Rightarrow> NaN)"

definition fneg :: "pyfloat \<Rightarrow> bool" where
  "fneg x \<longleftrightarrow> (case x of Fin q \<Rightarrow> q < 0 | NegZero \<Rightarrow> True | Infty s \<Rightarrow> s | NaN \<Rightarrow> False)"

definition fmul :: "pyfloat \<Rightarrow> pyfloat \<Rightarrow> pyfloat" where
  "fmul x y =
     (let s = (fneg x \<noteq> fneg y); zero = (\<lambda>z. z = Fin 0 \<or> z = NegZero); inf = (\<lambda>z. z = Infty True \<or> z = Infty False)
      in if x = NaN \<or> y = NaN then NaN
         else if inf x \<or> inf y then (if zero x \<or> zero y then NaN else Infty s)
         else if zero x \<or> zero y then (if s then NegZero else Fin 0)
         else fl (snd (fkey x) * snd (fkey y)))"

text \<open>An integer operand of a float operation is converted first.\<close>

definition float_of_int :: "int \<Rightarrow> pyfloat" where
  "float_of_int n = fl (of_int n)"

text \<open>Multiplying a small integer by a power of two is exact.\<close>

lemma fmul_pow2_exact:
  assumes "\<bar>n\<bar> < 2 ^ 53" and "- 1074 \<le> k" and "k \<le> 971"
  shows "fmul (Fin (pow2 k)) (float_of_int n) = Fin (of_int n * pow2 k)"
proof -
  have "float_of_int n = Fin (of_int n)"
    using assms by (simp add: float_of_int_def fl_of_int)
  moreover have "fl (pow2 k * of_int n) = Fin (of_int n * pow2 k)"
    using fl_exact [of n k] assms by (simp add: mult.commute)
  moreover have "\<not> pow2 k < 0" using pow2_pos [of k] by linarith
  ultimately show ?thesis
    using assms by (simp add: fmul_def Let_def fneg_def)
qed

subsection \<open>Binary32 patterns\<close>

text \<open>\<open>f32_of_int u\<close> is the float whose IEEE single precision pattern is the 32-bit integer \<open>u\<close>.\<close>

definition f32_of_int :: "int \<Rightarrow> pyfloat" where
  "f32_of_int u =
     (let s = u div 2 ^ 31 mod 2; e = u div 2 ^ 23 mod 256; m = u mod 2 ^ 23
      in if e = 255 then (if m = 0 then Infty (s = 1) else NaN)
         else let mag = (if e = 0 then of_int m * pow2 (- 149)
                         else of_int (2 ^ 23 + m) * pow2 (e - 150))
              in if mag = 0 then (if s = 1 then NegZero else Fin 0)
                 else Fin (if s = 1 then - mag else mag))"

text \<open>Examples: one, minus two, and the two patterns the sources treat as ``not a number''.\<close>

lemma f32_examples:
  "f32_of_int 0x3f800000 = Fin 1"
  "f32_of_int 0xc0000000 = Fin (- 2)"
  "f32_of_int 0xff7fffff = Fin (- ((2 ^ 24 - 1) * 2 ^ 104))"
  "f32_of_int 0xffff7fff = NaN"
  by (simp_all add: f32_of_int_def pow2_def)

text \<open>Every finite single precision value is a double: the widening does not round.\<close>

lemma f32_finite_exact:
  assumes h: "f32_of_int u = Fin q"
  shows "fl q = Fin q"
proof -
  define e m where "e = u div 2 ^ 23 mod 256" and "m = u mod (2 ^ 23 :: int)"
  define n k where "n = (if e = 0 then m else 2 ^ 23 + m)" and "k = (if e = 0 then - 149 else e - 150)"
  have e: "0 \<le> e" "e < 256" and m: "0 \<le> m" "m < 2 ^ 23" by (simp_all add: e_def m_def)
  have mag: "(if e = 0 then of_int m * pow2 (- 149) else of_int (2 ^ 23 + m) * pow2 (e - 150))
      = of_int n * pow2 k"
    by (simp add: n_def k_def)
  have "q = 0 \<or> q = of_int n * pow2 k \<or> q = of_int (- n) * pow2 k"
    using h unfolding f32_of_int_def Let_def e_def [symmetric] m_def [symmetric] mag
    by (auto split: if_splits)
  moreover have "\<bar>n\<bar> < 2 ^ 53" "\<bar>- n\<bar> < 2 ^ 53" "- 1074 \<le> k" "k \<le> 971"
    using e m by (auto simp: n_def k_def)
  ultimately show ?thesis
    using fl_exact [of n k] fl_exact [of "- n" k] by auto
qed

end
