(* ===== verification/PyStr.thy ===== *)
theory PyStr
  imports Prelude
begin

text \<open>
  Text: hexadecimal and decimal formatting as the sources use it (\<^verbatim>\<open>%x\<close>, \<^verbatim>\<open>{:02x}\<close>,
  \<^verbatim>\<open>{:#06x}\<close>, \<^verbatim>\<open>%04d\<close>), \<^verbatim>\<open>str.upper\<close>, \<^verbatim>\<open>str.join\<close>, \<^verbatim>\<open>str.strip\<close> and
  \<^verbatim>\<open>binascii.unhexlify\<close>, with the parsers that invert the formatters.  A Python string is a
  \<open>string\<close> that holds its UTF-8 encoding.
\<close>

subsection \<open>Digits\<close>

definition hexdig :: "nat \<Rightarrow> char" where
  "hexdig n = char_of (if n < 10 then 48 + n else 87 + n)"

definition hexval :: "char \<Rightarrow> nat option" where
  "hexval c = (let n = of_char c :: nat in
     if 48 \<le> n \<and> n \<le> 57 then Some (n - 48)
     else if 97 \<le> n \<and> n \<le> 102 then Some (n - 87)
     else if 65 \<le> n \<and> n \<le> 70 then Some (n - 55) else None)"

definition upper_char :: "char \<Rightarrow> char" where
  "upper_char c = (let n = of_char c :: nat in if 97 \<le> n \<and> n \<le> 122 then char_of (n - 32) else c)"

definition upper :: "string \<Rightarrow> string" where
  "upper s = map upper_char s"

lemma of_char_char_of_nat: "n < 256 \<Longrightarrow> of_char (char_of (n :: nat)) = n"
  by simp

lemma hexval_hexdig [simp]: "n < 16 \<Longrightarrow> hexval (hexdig n) = Some n"
  by (simp add: hexval_def hexdig_def Let_def)

lemma hexval_upper_hexdig [simp]: "n < 16 \<Longrightarrow> hexval (upper_char (hexdig n)) = Some n"
  by (simp add: hexval_def hexdig_def upper_char_def Let_def)

lemma hexdig_inj: "m < 16 \<Longrightarrow> n < 16 \<Longrightarrow> hexdig m = hexdig n \<longleftrightarrow> m = n"
  by (metis hexval_hexdig option.inject)

lemma hexdig_chars:
  "hexdig 0 = CHR ''0''" "hexdig 1 = CHR ''1''" "hexdig 2 = CHR ''2''" "hexdig 3 = CHR ''3''"
  "hexdig 4 = CHR ''4''" "hexdig 5 = CHR ''5''" "hexdig 6 = CHR ''6''" "hexdig 7 = CHR ''7''"
  "hexdig 8 = CHR ''8''" "hexdig 9 = CHR ''9''" "hexdig 10 = CHR ''a''" "hexdig 11 = CHR ''b''"
  "hexdig 12 = CHR ''c''" "hexdig 13 = CHR ''d''" "hexdig 14 = CHR ''e''" "hexdig 15 = CHR ''f''"
  by code_simp+

text \<open>The characters the sources put between hex digits are not hex digits.\<close>

lemma hexdig_not_separator [simp]:
  assumes "n < 16"
  shows "hexdig n \<noteq> CHR '' ''" and "hexdig n \<noteq> CHR ''|''"
proof -
  have "hexval (CHR '' '') = None" "hexval (CHR ''|'') = None"
    by (simp_all add: hexval_def)
  then show "hexdig n \<noteq> CHR '' ''" "hexdig n \<noteq> CHR ''|''"
    using hexval_hexdig [OF assms] by auto
qed

subsection \<open>Hexadecimal and decimal numerals\<close>

fun digits_of :: "nat \<Rightarrow> nat \<Rightarrow> nat list" where
  "digits_of b n = (if b < 2 \<or> n < b then [n] else digits_of b (n div b) @ [n mod b])"

declare digits_of.simps [simp del]

definition value_of :: "nat \<Rightarrow> nat list \<Rightarrow> nat" where
  "value_of b ds = foldl (\<lambda>acc d. acc * b + d) 0 ds"

lemma value_digits_of: "2 \<le> b \<Longrightarrow> value_of b (digits_of b n) = n"
proof (induction b n rule: digits_of.induct)
  case (1 b n)
  then show ?case
    by (cases "n < b") (auto simp: digits_of.simps [of b n] value_of_def mult.commute)
qed

lemma digits_of_less: "2 \<le> b \<Longrightarrow> d \<in> set (digits_of b n) \<Longrightarrow> d < b"
proof (induction b n rule: digits_of.induct)
  case (1 b n)
  then show ?case
    by (cases "n < b") (auto simp: digits_of.simps [of b n])
qed

lemma digits_of_inj: "2 \<le> b \<Longrightarrow> digits_of b m = digits_of b n \<longleftrightarrow> m = n"
  by (metis value_digits_of)

lemma digits_of_nonempty [simp]: "digits_of b n \<noteq> []"
  by (subst digits_of.simps) simp

lemma digits_of_step [simp]:
  "2 \<le> b \<Longrightarrow> n < b \<Longrightarrow> digits_of b n = [n]"
  "2 \<le> b \<Longrightarrow> b \<le> n \<Longrightarrow> digits_of b n = digits_of b (n div b) @ [n mod b]"
  by (simp_all add: digits_of.simps [of b n])

text \<open>\<open>hex_str n\<close> is \<^verbatim>\<open>"%x" % n\<close>, \<open>dec_str n\<close> is \<^verbatim>\<open>"%d" % n\<close> (\<open>n\<close> not negative).\<close>

definition hex_str :: "nat \<Rightarrow> string" where
  "hex_str n = map hexdig (digits_of 16 n)"

definition dec_str :: "nat \<Rightarrow> string" where
  "dec_str n = map hexdig (digits_of 10 n)"

definition zpad :: "nat \<Rightarrow> string \<Rightarrow> string" where
  "zpad w s = replicate (w - length s) (CHR ''0'') @ s"

definition int_str :: "int \<Rightarrow> string" where
  "int_str i = (if i < 0 then CHR ''-'' # dec_str (nat (- i)) else dec_str (nat i))"

lemma map_inj_on_eq: "inj_on f (set xs \<union> set ys) \<Longrightarrow> map f xs = map f ys \<longleftrightarrow> xs = ys"
  by (metis map_inj_on)

lemma hexdigs_inj:
  assumes "2 \<le> b" "b \<le> 16"
  shows "map hexdig (digits_of b m) = map hexdig (digits_of b n) \<longleftrightarrow> m = n"
proof -
  have "inj_on hexdig (set (digits_of b m) \<union> set (digits_of b n))"
    using digits_of_less [OF assms(1)] assms(2)
    by (intro inj_onI) (metis UnE dual_order.strict_trans1 hexdig_inj)
  then show ?thesis
    using assms(1) by (simp add: map_inj_on_eq digits_of_inj)
qed

lemma hex_str_inj [simp]: "hex_str m = hex_str n \<longleftrightarrow> m = n"
  by (simp add: hex_str_def hexdigs_inj)

lemma dec_str_inj [simp]: "dec_str m = dec_str n \<longleftrightarrow> m = n"
  by (simp add: dec_str_def hexdigs_inj)

lemma upper_hex_str_inj [simp]: "upper (hex_str m) = upper (hex_str n) \<longleftrightarrow> m = n"
proof -
  have lt: "d < 16" if "d \<in> set (digits_of 16 m) \<union> set (digits_of 16 n)" for d
    using that digits_of_less [of 16] by auto
  have "x = y" if "x < 16" "y < 16" "upper_char (hexdig x) = upper_char (hexdig y)" for x y
    using that by (metis hexval_upper_hexdig option.inject)
  then have "inj_on (\<lambda>d. upper_char (hexdig d)) (set (digits_of 16 m) \<union> set (digits_of 16 n))"
    using lt by (intro inj_onI) blast
  then show ?thesis
    by (simp add: upper_def hex_str_def map_inj_on_eq digits_of_inj comp_def)
qed

subsection \<open>Bytes as hex pairs\<close>

definition hex2 :: "byte \<Rightarrow> string" where
  "hex2 b = [hexdig (unat b div 16), hexdig (unat b mod 16)]"

text \<open>\<open>hex_encode\<close> is \<^verbatim>\<open>codecs.encode(data, 'hex').decode('ascii')\<close>.\<close>

definition hex_encode :: "bytes \<Rightarrow> string" where
  "hex_encode bs = concat (map hex2 bs)"

fun unhexlify :: "string \<Rightarrow> bytes res" where
  "unhexlify [] = Inr []"
| "unhexlify [c] = Inl BinasciiError"
| "unhexlify (c # d # s) =
     (case (hexval c, hexval d) of
        (Some h, Some l) \<Rightarrow> rbind (unhexlify s) (\<lambda>bs. Inr (of_nat (16 * h + l) # bs))
      | _ \<Rightarrow> Inl BinasciiError)"

lemma unat_byte_less: "unat (b :: byte) < 256"
  using unsigned_less [of b] by simp

lemma unhexlify_hex_encode: "unhexlify (hex_encode bs) = Inr bs"
proof (induction bs)
  case (Cons b bs)
  have "unat b div 16 < 16" using unat_byte_less [of b] by simp
  moreover have "of_nat (16 * (unat b div 16) + unat b mod 16) = b" by simp
  ultimately show ?case
    using Cons by (simp add: hex_encode_def hex2_def del: of_nat_add of_nat_mult)
qed (simp add: hex_encode_def)

lemma hex_encode_inj: "hex_encode xs = hex_encode ys \<Longrightarrow> xs = ys"
  by (metis sum.inject(2) unhexlify_hex_encode)

lemma hex2_chars: "c \<in> set (hex2 b) \<Longrightarrow> c \<noteq> CHR '' '' \<and> c \<noteq> CHR ''|''"
  using unat_byte_less [of b] by (auto simp: hex2_def)

subsection \<open>Joining, removing and stripping\<close>

fun join :: "string \<Rightarrow> string list \<Rightarrow> string" where
  "join sep [] = []"
| "join sep [s] = s"
| "join sep (s # ss) = s @ sep @ join sep ss"

text \<open>\<^verbatim>\<open>s.replace(c, "")\<close> for a one-character \<open>c\<close>.\<close>

definition remove_char :: "char \<Rightarrow> string \<Rightarrow> string" where
  "remove_char c s = filter (\<lambda>x. x \<noteq> c) s"

text \<open>\<open>strip_chars P s\<close> removes the characters satisfying \<open>P\<close> at both ends.\<close>

definition strip_chars :: "(char \<Rightarrow> bool) \<Rightarrow> string \<Rightarrow> string" where
  "strip_chars P s = rev (dropWhile P (rev (dropWhile P s)))"

lemma filter_join:
  "filter P sep = [] \<Longrightarrow> filter P (join sep ss) = concat (map (filter P) ss)"
  by (induction sep ss rule: join.induct) auto

lemma strip_chars_none: "(\<And>c. c \<in> set s \<Longrightarrow> \<not> P c) \<Longrightarrow> strip_chars P s = s"
proof -
  assume h: "\<And>c. c \<in> set s \<Longrightarrow> \<not> P c"
  then have "dropWhile P s = s" by (cases s) auto
  moreover have "dropWhile P (rev s) = rev s"
  proof (cases "rev s")
    case (Cons c cs)
    then have "c \<in> set s" by (metis list.set_intros(1) set_rev)
    with h Cons show ?thesis by simp
  qed simp
  ultimately show ?thesis by (simp add: strip_chars_def)
qed

end
