(* ===== verification/PyVal.thy ===== *)
theory PyVal
  imports PyFloat PyStr "HOL-Library.AList"
begin

text \<open>
  Python values and dictionaries.  A dictionary keeps its insertion order, so it is an association
  list with distinct keys; assignment to a present key keeps the key's place.  The interface the
  clients rely on is the locale \<open>py_dict\<close>, interpreted below on the association lists.
\<close>

text \<open>Dictionary keys are strings, except where a device identifier is left an integer.\<close>

datatype pykey = KS string | KI int

text \<open>\<^verbatim>\<open>str(key)\<close>\<close>

definition key_text :: "pykey \<Rightarrow> string" where
  "key_text k = (case k of KS s \<Rightarrow> s | KI i \<Rightarrow> int_str i)"

datatype pyval =
    PNone
  | PBool bool
  | PInt int
  | PFloat pyfloat
  | PStr string
  | PBytes bytes
  | PDict "(pykey \<times> pyval) list"

type_synonym pydict = "(pykey \<times> pyval) list"

fun is_dict :: "pyval \<Rightarrow> bool" where
  "is_dict (PDict _) = True"
| "is_dict _ = False"

text \<open>
  Python's \<^verbatim>\<open>==\<close> on scalars: numbers compare by value across their types.  The sources only
  compare values of which at least one is not a dictionary.
\<close>

fun num_of :: "pyval \<Rightarrow> pyfloat option" where
  "num_of (PBool b) = Some (Fin (if b then 1 else 0))"
| "num_of (PInt i) = Some (Fin (of_int i))"
| "num_of (PFloat f) = Some f"
| "num_of _ = None"

definition pyeq :: "pyval \<Rightarrow> pyval \<Rightarrow> bool" where
  "pyeq x y = (case (num_of x, num_of y) of
       (Some a, Some b) \<Rightarrow> feq a b
     | (None, None) \<Rightarrow> x = y
     | _ \<Rightarrow> False)"

lemma pyeq_PStr [simp]: "pyeq (PStr s) (PStr t) \<longleftrightarrow> s = t"
  by (simp add: pyeq_def)

lemma pyeq_PInt [simp]: "pyeq (PInt i) (PInt j) \<longleftrightarrow> i = j"
  by (simp add: pyeq_def)

lemma pyeq_NaN [simp]: "\<not> pyeq (PFloat NaN) x" "\<not> pyeq x (PFloat NaN)"
  by (auto simp: pyeq_def split: option.splits)

subsection \<open>The dictionary interface\<close>

locale py_dict =
  fixes get :: "'m \<Rightarrow> 'k \<Rightarrow> 'v option"
    and put :: "'k \<Rightarrow> 'v \<Rightarrow> 'm \<Rightarrow> 'm"
    and keys :: "'m \<Rightarrow> 'k list"
    and wf :: "'m \<Rightarrow> bool"
  assumes get_put: "get (put k v m) k' = (if k' = k then Some v else get m k')"
    and keys_put: "keys (put k v m) = (if k \<in> set (keys m) then keys m else keys m @ [k])"
    and keys_get: "k \<in> set (keys m) \<longleftrightarrow> get m k \<noteq> None"
    and wf_put: "wf m \<Longrightarrow> wf (put k v m)"
    and wf_ext: "wf m \<Longrightarrow> wf n \<Longrightarrow> keys m = keys n \<Longrightarrow> (\<And>k. get m k = get n k) \<Longrightarrow> m = n"
begin

lemma wf_fold: "wf m \<Longrightarrow> wf (fold (\<lambda>(k, v). put k v) kvs m)"
  by (induction kvs arbitrary: m) (auto simp: wf_put)

lemma get_fold:
  "get (fold (\<lambda>(k, v). put k v) kvs m) k =
     (case map_of (rev kvs) k of Some v \<Rightarrow> Some v | None \<Rightarrow> get m k)"
proof (induction kvs arbitrary: m)
  case (Cons kv kvs)
  obtain k0 v0 where kv: "kv = (k0, v0)" by (cases kv)
  show ?case using Cons
    by (auto simp: kv get_put map_add_def split: option.splits)
qed simp

lemma set_keys_fold: "set (keys (fold (\<lambda>(k, v). put k v) kvs m)) = set (keys m) \<union> fst ` set kvs"
proof (induction kvs arbitrary: m)
  case (Cons kv kvs)
  then show ?case by (cases kv) (auto simp: keys_put split: if_splits)
qed simp

lemma keys_fold_present:
  "fst ` set kvs \<subseteq> set (keys m) \<Longrightarrow> keys (fold (\<lambda>(k, v). put k v) kvs m) = keys m"
proof (induction kvs arbitrary: m)
  case (Cons kv kvs)
  obtain k0 v0 where kv: "kv = (k0, v0)" by (cases kv)
  have "keys (put k0 v0 m) = keys m" using Cons.prems by (simp add: kv keys_put)
  then show ?case using Cons by (simp add: kv)
qed simp

text \<open>Storing the same items a second time changes nothing, the order of the keys included.\<close>

lemma fold_put_idem:
  assumes "wf m"
  shows "fold (\<lambda>(k, v). put k v) kvs (fold (\<lambda>(k, v). put k v) kvs m)
       = fold (\<lambda>(k, v). put k v) kvs m"
proof (rule wf_ext)
  let ?n = "fold (\<lambda>(k, v). put k v) kvs m"
  show "wf (fold (\<lambda>(k, v). put k v) kvs ?n)" "wf ?n"
    using assms by (simp_all add: wf_fold)
  show "keys (fold (\<lambda>(k, v). put k v) kvs ?n) = keys ?n"
    by (rule keys_fold_present) (simp add: set_keys_fold)
  show "get (fold (\<lambda>(k, v). put k v) kvs ?n) k = get ?n k" for k
    by (simp add: get_fold split: option.splits)
qed

lemma fold_put_absorb:
  assumes "wf m" and "k \<in> fst ` set kvs"
  shows "fold (\<lambda>(k, v). put k v) kvs (put k v (fold (\<lambda>(k, v). put k v) kvs m))
       = fold (\<lambda>(k, v). put k v) kvs m"
proof (rule wf_ext)
  let ?n = "fold (\<lambda>(k, v). put k v) kvs m"
  have k: "k \<in> set (keys ?n)" using assms(2) by (simp add: set_keys_fold)
  show "wf (fold (\<lambda>(k, v). put k v) kvs (put k v ?n))" "wf ?n"
    using assms(1) by (simp_all add: wf_fold wf_put)
  show "keys (fold (\<lambda>(k, v). put k v) kvs (put k v ?n)) = keys ?n"
    using k by (subst keys_fold_present) (simp_all add: set_keys_fold keys_put)
  have "map_of (rev kvs) k \<noteq> None" using assms(2) by (simp add: map_of_eq_None_iff)
  then show "get (fold (\<lambda>(k, v). put k v) kvs (put k v ?n)) k' = get ?n k'" for k'
    by (auto simp: get_fold get_put split: option.splits)
qed

lemma keys_fold_fresh:
  "distinct (map fst kvs) \<Longrightarrow> set (map fst kvs) \<inter> set (keys m) = {} \<Longrightarrow>
     keys (fold (\<lambda>(k, v). put k v) kvs m) = keys m @ map fst kvs"
proof (induction kvs arbitrary: m)
  case (Cons kv kvs)
  obtain k0 v0 where kv: "kv = (k0, v0)" by (cases kv)
  have "keys (put k0 v0 m) = keys m @ [k0]" using Cons.prems by (simp add: kv keys_put)
  then show ?case using Cons by (auto simp: kv)
qed simp

end

subsection \<open>Dictionaries as association lists\<close>

definition dget :: "('k \<times> 'v) list \<Rightarrow> 'k \<Rightarrow> 'v option" where
  "dget d k = map_of d k"

definition dput :: "'k \<Rightarrow> 'v \<Rightarrow> ('k \<times> 'v) list \<Rightarrow> ('k \<times> 'v) list" where
  "dput k v d = AList.update k v d"

definition dkeys :: "('k \<times> 'v) list \<Rightarrow> 'k list" where
  "dkeys d = map fst d"

definition dwf :: "('k \<times> 'v) list \<Rightarrow> bool" where
  "dwf d \<longleftrightarrow> distinct (map fst d)"

text \<open>\<^verbatim>\<open>d.update(kvs)\<close>, and the dictionary a display of \<open>kvs\<close> builds.\<close>

definition dupdate :: "('k \<times> 'v) list \<Rightarrow> ('k \<times> 'v) list \<Rightarrow> ('k \<times> 'v) list" where
  "dupdate kvs d = fold (\<lambda>(k, v). dput k v) kvs d"

lemma dput_new: "dget d k = None \<Longrightarrow> dput k v d = d @ [(k, v)]"
  by (induction d) (auto simp: dput_def dget_def split: if_splits)

text \<open>\<^verbatim>\<open>d[k]\<close>\<close>

definition dlookup :: "('k \<times> 'v) list \<Rightarrow> 'k \<Rightarrow> 'v res" where
  "dlookup d k = (case dget d k of None \<Rightarrow> Inl KeyError | Some v \<Rightarrow> Inr v)"

lemma map_fst_update:
  "map fst (AList.update k v d) = (if k \<in> fst ` set d then map fst d else map fst d @ [k])"
  by (induction d) auto

lemma alist_ext:
  "distinct (map fst d) \<Longrightarrow> map fst d = map fst e \<Longrightarrow> (\<And>k. map_of d k = map_of e k) \<Longrightarrow> d = e"
proof (induction d arbitrary: e)
  case (Cons kv d)
  obtain k v where kv: "kv = (k, v)" by (cases kv)
  obtain w e' where e: "e = (k, w) # e'" and keys: "map fst d = map fst e'"
    using Cons.prems(2) by (cases e) (auto simp: kv)
  have "v = w" using Cons.prems(3) [of k] by (simp add: kv e)
  moreover have "d = e'"
  proof (rule Cons.IH)
    show "distinct (map fst d)" using Cons.prems(1) by simp
    show "map fst d = map fst e'" by (rule keys)
    show "map_of d k' = map_of e' k'" for k'
    proof (cases "k' = k")
      case True
      have "k \<notin> fst ` set d" using Cons.prems(1) by (simp add: kv)
      moreover have "k \<notin> fst ` set e'" using calculation keys by (metis set_map)
      ultimately show ?thesis using True by (simp add: map_of_eq_None_iff [THEN iffD2])
    next
      case False
      then show ?thesis using Cons.prems(3) [of k'] by (simp add: kv e)
    qed
  qed
  ultimately show ?case by (simp add: kv e)
qed simp

interpretation pd: py_dict dget dput dkeys dwf
proof
  fix k k' :: 'a and v :: 'b and m n :: "('a \<times> 'b) list"
  show "dget (dput k v m) k' = (if k' = k then Some v else dget m k')"
    by (simp add: dget_def dput_def update_conv')
  show "dkeys (dput k v m) = (if k \<in> set (dkeys m) then dkeys m else dkeys m @ [k])"
    by (simp add: dkeys_def dput_def map_fst_update)
  show "(k \<in> set (dkeys m)) = (dget m k \<noteq> None)"
    by (simp add: dkeys_def dget_def map_of_eq_None_iff)
  show "dwf m \<Longrightarrow> dwf (dput k v m)"
    by (simp add: dwf_def dput_def distinct_update)
  show "m = n" if "dwf m" "dwf n" "dkeys m = dkeys n" "\<And>k. dget m k = dget n k"
    using that by (auto simp: dwf_def dkeys_def dget_def intro: alist_ext)
qed

lemmas dict_fold_simps = pd.get_fold pd.set_keys_fold

lemma dget_Nil [simp]: "dget [] k = None"
  by (simp add: dget_def)

lemma dget_dput [simp]: "dget (dput k v d) k' = (if k' = k then Some v else dget d k')"
  by (rule pd.get_put)

lemma dwf_Nil [simp]: "dwf []"
  by (simp add: dwf_def)

lemma dwf_dput [simp]: "dwf d \<Longrightarrow> dwf (dput k v d)"
  by (rule pd.wf_put)

lemma dwf_dupdate [simp]: "dwf d \<Longrightarrow> dwf (dupdate kvs d)"
  by (simp add: dupdate_def pd.wf_fold)

lemma dget_dupdate:
  "dget (dupdate kvs d) k = (case map_of (rev kvs) k of Some v \<Rightarrow> Some v | None \<Rightarrow> dget d k)"
  by (simp add: dupdate_def pd.get_fold)

lemma dupdate_idem: "dwf d \<Longrightarrow> dupdate kvs (dupdate kvs d) = dupdate kvs d"
  by (simp add: dupdate_def pd.fold_put_idem)

lemma dupdate_absorb:
  "dwf d \<Longrightarrow> k \<in> fst ` set kvs \<Longrightarrow> dupdate kvs (dput k v (dupdate kvs d)) = dupdate kvs d"
  by (simp add: dupdate_def pd.fold_put_absorb)

lemma dupdate_Nil [simp]: "dupdate [] d = d"
  and dupdate_Cons: "dupdate ((k, v) # kvs) d = dupdate kvs (dput k v d)"
  and dupdate_append: "dupdate (xs @ ys) d = dupdate ys (dupdate xs d)"
  by (simp_all add: dupdate_def)

lemma set_dkeys_dupdate: "set (dkeys (dupdate kvs d)) = set (dkeys d) \<union> fst ` set kvs"
  by (simp add: dupdate_def pd.set_keys_fold)

lemma dkeys_Nil [simp]: "dkeys [] = []"
  by (simp add: dkeys_def)

lemma dlookup_dput_same [simp]: "dlookup (dput k v d) k = Inr v"
  by (simp add: dlookup_def)

end
