(* ===== verification/PyStruct.thy ===== *)
theory PyStruct
  imports PyVal
begin

text \<open>
  The part of Python's \<^verbatim>\<open>struct\<close> module the sources use: the format characters
  \<^verbatim>\<open>B b H h L l f\<close> and \<^verbatim>\<open>Ns\<close> with an explicit byte order, hence standard sizes and no
  padding.  Each integer code is a fixed-width codec (locale \<open>int_codec\<close>); a format is the
  concatenation of its fields.
\<close>

datatype order = LE | BE

datatype icode = CB | Cb | CH | Ch | CL | Cl

fun isize :: "icode \<Rightarrow> nat" where
  "isize CB = 1" | "isize Cb = 1" | "isize CH = 2" | "isize Ch = 2" | "isize CL = 4" | "isize Cl = 4"

fun isigned :: "icode \<Rightarrow> bool" where
  "isigned CB = False" | "isigned Cb = True" | "isigned CH = False"
| "isigned Ch = True" | "isigned CL = False" | "isigned Cl = True"

definition in_range :: "icode \<Rightarrow> int \<Rightarrow> bool" where
  "in_range c v \<longleftrightarrow>
     (if isigned c then - (256 ^ isize c div 2) \<le> v \<and> v < 256 ^ isize c div 2
      else 0 \<le> v \<and> v < 256 ^ isize c)"

definition ordered :: "order \<Rightarrow> bytes \<Rightarrow> bytes" where
  "ordered en bs = (case en of LE \<Rightarrow> bs | BE \<Rightarrow> rev bs)"

definition enc_field :: "order \<Rightarrow> icode \<Rightarrow> int \<Rightarrow> bytes" where
  "enc_field en c v = ordered en (le_bytes (isize c) (v mod 256 ^ isize c))"

definition dec_field :: "order \<Rightarrow> icode \<Rightarrow> bytes \<Rightarrow> int" where
  "dec_field en c bs =
     (let u = le_int (ordered en bs)
      in if isigned c \<and> 256 ^ isize c div 2 \<le> u then u - 256 ^ isize c else u)"

subsection \<open>Fixed-width codecs\<close>

locale int_codec =
  fixes width :: nat
    and enc :: "int \<Rightarrow> bytes"
    and dec :: "bytes \<Rightarrow> int"
    and ok :: "int \<Rightarrow> bool"
  assumes enc_length: "length (enc v) = width"
    and dec_ok: "length bs = width \<Longrightarrow> ok (dec bs)"
    and dec_enc: "ok v \<Longrightarrow> dec (enc v) = v"
    and enc_dec: "length bs = width \<Longrightarrow> enc (dec bs) = bs"
begin

lemma enc_inj: "ok v \<Longrightarrow> ok w \<Longrightarrow> enc v = enc w \<longleftrightarrow> v = w"
  by (metis dec_enc)

lemma dec_inj: "length bs = width \<Longrightarrow> length cs = width \<Longrightarrow> dec bs = dec cs \<longleftrightarrow> bs = cs"
  by (metis enc_dec)

lemma dec_take_enc: "ok v \<Longrightarrow> dec (take width (enc v @ rest)) = v"
  by (simp add: enc_length dec_enc)

lemma drop_enc: "drop width (enc v @ rest) = rest"
  by (simp add: enc_length)

lemma enc_dec_take: "width \<le> length bs \<Longrightarrow> enc (dec (take width bs)) @ drop width bs = bs"
  by (simp add: enc_dec)

end

lemma length_ordered [simp]: "length (ordered en bs) = length bs"
  by (cases en) (simp_all add: ordered_def)

lemma ordered_ordered [simp]: "ordered en (ordered en bs) = bs"
  by (cases en) (simp_all add: ordered_def)

lemma isize_pos [simp]: "0 < isize c"
  by (cases c) simp_all

lemma isize_nonzero [simp]: "isize c \<noteq> 0"
  by (cases c) simp_all

lemma half_range: "2 * (256 ^ isize c div 2) = (256 ^ isize c :: int)"
  by (cases c) simp_all

interpretation fld: int_codec "isize c" "enc_field en c" "dec_field en c" "in_range c" for en c
proof
  fix v :: int and bs :: bytes
  let ?m = "256 ^ isize c :: int"
  have m: "0 < ?m" by simp
  show "length (enc_field en c v) = isize c"
    by (simp add: enc_field_def)
  show "in_range c (dec_field en c bs)" if "length bs = isize c"
    using le_int_upper [of "ordered en bs"] that
    by (cases c) (auto simp: in_range_def dec_field_def Let_def intro: order_trans [OF _ le_int_nonneg])
  show "dec_field en c (enc_field en c v) = v" if "in_range c v"
  proof -
    have u: "le_int (le_bytes (isize c) (v mod ?m)) = v mod ?m"
      by (rule le_int_le_bytes) (simp_all add: m)
    have "v mod ?m = (if v < 0 then v + ?m else v)"
    proof (cases "v < 0")
      case True
      then have "- ?m \<le> v" using that half_range [of c] by (auto simp: in_range_def split: if_splits)
      then have "(v + ?m) mod ?m = v + ?m" using True by (intro mod_pos_pos_trivial) simp_all
      then show ?thesis using True by simp
    next
      case False
      then have "v < ?m" using that half_range [of c] by (auto simp: in_range_def split: if_splits)
      then show ?thesis using False by simp
    qed
    moreover have "dec_field en c (enc_field en c v) =
        (if isigned c \<and> ?m div 2 \<le> v mod ?m then v mod ?m - ?m else v mod ?m)"
      by (simp add: dec_field_def enc_field_def u Let_def)
    ultimately show ?thesis
      using that by (cases c) (auto simp: in_range_def split: if_splits)
  qed
  show "enc_field en c (dec_field en c bs) = bs" if len: "length bs = isize c"
  proof -
    have "le_int (ordered en bs) < ?m"
      using le_int_upper [of "ordered en bs"] len by simp
    then have "dec_field en c bs mod ?m = le_int (ordered en bs)"
      by (auto simp: dec_field_def Let_def)
    then have "le_bytes (isize c) (dec_field en c bs mod ?m) = ordered en bs"
      using le_bytes_le_int [of "ordered en bs"] len by simp
    then show ?thesis by (simp add: enc_field_def)
  qed
qed

lemma enc_LE: "enc_field LE c v = le_bytes (isize c) v"
  by (simp add: enc_field_def ordered_def le_bytes_mod)

subsection \<open>Integer formats\<close>

definition icalcsize :: "icode list \<Rightarrow> nat" where
  "icalcsize cs = sum_list (map isize cs)"

fun split_ints :: "order \<Rightarrow> icode list \<Rightarrow> bytes \<Rightarrow> int list" where
  "split_ints en [] bs = []"
| "split_ints en (c # cs) bs = dec_field en c (take (isize c) bs) # split_ints en cs (drop (isize c) bs)"

definition unpack_ints :: "order \<Rightarrow> icode list \<Rightarrow> bytes \<Rightarrow> int list res" where
  "unpack_ints en cs bs =
     (if length bs = icalcsize cs then Inr (split_ints en cs bs) else Inl StructError)"

fun pack :: "order \<Rightarrow> icode list \<Rightarrow> int list \<Rightarrow> bytes res" where
  "pack en [] [] = Inr []"
| "pack en (c # cs) (v # vs) =
     (if in_range c v then rbind (pack en cs vs) (\<lambda>bs. Inr (enc_field en c v @ bs)) else Inl StructError)"
| "pack en _ _ = Inl StructError"

lemma icalcsize_simps [simp]:
  "icalcsize [] = 0" "icalcsize (c # cs) = isize c + icalcsize cs"
  by (simp_all add: icalcsize_def)

lemma length_split_ints [simp]: "length (split_ints en cs bs) = length cs"
  by (induction cs arbitrary: bs) auto

lemma pack_length: "pack en cs vs = Inr bs \<Longrightarrow> length bs = icalcsize cs \<and> length vs = length cs"
  by (induction en cs vs arbitrary: bs rule: pack.induct)
    (auto simp: res_simps fld.enc_length split: if_splits)

lemma pack_Inr_iff: "(\<exists>bs. pack en cs vs = Inr bs) \<longleftrightarrow> list_all2 in_range cs vs"
  by (induction en cs vs rule: pack.induct) (auto simp: res_simps split: if_splits)

lemma pack_error: "pack en cs vs = Inl e \<Longrightarrow> e = StructError"
  by (induction en cs vs rule: pack.induct) (auto simp: res_simps split: if_splits)

lemma split_ints_pack: "pack en cs vs = Inr bs \<Longrightarrow> split_ints en cs (bs @ rest) = vs"
  by (induction en cs vs arbitrary: bs rule: pack.induct)
    (auto simp: res_simps fld.dec_take_enc fld.drop_enc fld.enc_length fld.dec_enc split: if_splits)

lemma unpack_pack: "pack en cs vs = Inr bs \<Longrightarrow> unpack_ints en cs bs = Inr vs"
  using split_ints_pack [of en cs vs bs "[]"] pack_length [of en cs vs bs]
  by (simp add: unpack_ints_def)

lemma pack_split_ints: "length bs = icalcsize cs \<Longrightarrow> pack en cs (split_ints en cs bs) = Inr bs"
proof (induction cs arbitrary: bs)
  case (Cons c cs)
  have "in_range c (dec_field en c (take (isize c) bs))"
    using Cons.prems by (intro fld.dec_ok) simp
  moreover have "pack en cs (split_ints en cs (drop (isize c) bs)) = Inr (drop (isize c) bs)"
    using Cons by simp
  ultimately show ?case
    using Cons.prems by (simp add: fld.enc_dec)
qed simp

lemma pack_unpack: "unpack_ints en cs bs = Inr vs \<Longrightarrow> pack en cs vs = Inr bs"
  by (auto simp: unpack_ints_def pack_split_ints split: if_splits)

lemma unpack_length: "unpack_ints en cs bs = Inr vs \<Longrightarrow> length vs = length cs"
  by (auto simp: unpack_ints_def split: if_splits)

lemma split_ints_range: "length bs = icalcsize cs \<Longrightarrow> list_all2 in_range cs (split_ints en cs bs)"
  using pack_split_ints pack_Inr_iff by metis

subsection \<open>General formats\<close>

text \<open>A field is an integer code, a float \<^verbatim>\<open>f\<close> or a byte string \<^verbatim>\<open>Ns\<close>.\<close>

datatype field = FI icode | FF | FS nat

fun fsize :: "field \<Rightarrow> nat" where
  "fsize (FI c) = isize c"
| "fsize FF = 4"
| "fsize (FS n) = n"

definition dec_any :: "order \<Rightarrow> field \<Rightarrow> bytes \<Rightarrow> pyval" where
  "dec_any en f bs = (case f of
       FI c \<Rightarrow> PInt (dec_field en c bs)
     | FF \<Rightarrow> PFloat (f32_of_int (dec_field en CL bs))
     | FS n \<Rightarrow> PBytes bs)"

fun split_fields :: "order \<Rightarrow> field list \<Rightarrow> bytes \<Rightarrow> pyval list" where
  "split_fields en [] bs = []"
| "split_fields en (f # fs) bs = dec_any en f (take (fsize f) bs) # split_fields en fs (drop (fsize f) bs)"

definition calcsize :: "field list \<Rightarrow> nat" where
  "calcsize fs = sum_list (map fsize fs)"

definition unpack :: "order \<Rightarrow> field list \<Rightarrow> bytes \<Rightarrow> pyval list res" where
  "unpack en fs bs =
     (if length bs = calcsize fs then Inr (split_fields en fs bs) else Inl StructError)"

lemma length_split_fields [simp]: "length (split_fields en fs bs) = length fs"
  by (induction fs arbitrary: bs) auto

lemma split_fields_ints: "split_fields en (map FI cs) bs = map PInt (split_ints en cs bs)"
  by (induction cs arbitrary: bs) (auto simp: dec_any_def)

lemma nth_split_fields:
  "i < length fs \<Longrightarrow>
     split_fields en fs bs ! i = dec_any en (fs ! i) (take (fsize (fs ! i)) (drop (calcsize (take i fs)) bs))"
proof (induction fs arbitrary: i bs)
  case (Cons f fs)
  then show ?case
    by (cases i) (auto simp: calcsize_def add.commute)
qed simp

end
