(* ===== verification/Times.thy ===== *)
theory Times
  imports PyStruct
begin

text \<open>
  Time stamps: the formatting functions at the end of \<^verbatim>\<open>se/data.py\<close>.  The conversion of a time
  stamp to local calendar time depends on the time zone of the machine, so \<^verbatim>\<open>time.localtime\<close> is
  an argument \<open>lt\<close>; it may raise.  \<^verbatim>\<open>strftime\<close> and \<^verbatim>\<open>asctime\<close> are written out for the formats
  used.
\<close>

record tm =
  tm_year :: nat
  tm_mon :: nat
  tm_mday :: nat
  tm_hour :: nat
  tm_min :: nat
  tm_sec :: nat
  tm_wday :: nat

type_synonym clock = "int \<Rightarrow> tm res"

definition two :: "nat \<Rightarrow> string" where
  "two n = zpad 2 (dec_str n)"

text \<open>\<^verbatim>\<open>"%Y-%m-%d"\<close> and \<^verbatim>\<open>"%H:%M:%S"\<close>\<close>

definition strftime_date :: "tm \<Rightarrow> string" where
  "strftime_date t = dec_str (tm_year t) @ ''-'' @ two (tm_mon t) @ ''-'' @ two (tm_mday t)"

definition strftime_time :: "tm \<Rightarrow> string" where
  "strftime_time t = two (tm_hour t) @ '':'' @ two (tm_min t) @ '':'' @ two (tm_sec t)"

text \<open>\<^verbatim>\<open>"%s %s%3d %.2d:%.2d:%.2d %d"\<close>; \<^verbatim>\<open>tm_wday\<close> counts from Monday.\<close>

definition wday_names :: "string list" where
  "wday_names = [''Mon'', ''Tue'', ''Wed'', ''Thu'', ''Fri'', ''Sat'', ''Sun'']"

definition mon_names :: "string list" where
  "mon_names = [''Jan'', ''Feb'', ''Mar'', ''Apr'', ''May'', ''Jun'',
                ''Jul'', ''Aug'', ''Sep'', ''Oct'', ''Nov'', ''Dec'']"

definition asctime :: "tm \<Rightarrow> string" where
  "asctime t =
     (let d = dec_str (tm_mday t)
      in wday_names ! (tm_wday t mod 7) @ '' '' @ mon_names ! ((tm_mon t - 1) mod 12)
         @ replicate (3 - length d) (CHR '' '') @ d @ '' '' @ strftime_time t @ '' '' @ dec_str (tm_year t))"

definition formatDateStamp :: "clock \<Rightarrow> int \<Rightarrow> string res" where
  "formatDateStamp lt timeStamp = rbind (lt timeStamp) (\<lambda>t. Inr (strftime_date t))"

definition formatTimeStamp :: "clock \<Rightarrow> int \<Rightarrow> string res" where
  "formatTimeStamp lt timeStamp = rbind (lt timeStamp) (\<lambda>t. Inr (strftime_time t))"

text \<open>
  On a \<^verbatim>\<open>ValueError\<close> the source encodes the integers of the packed time stamp as if they were
  strings, which raises \<^verbatim>\<open>AttributeError\<close>; a negative time stamp does not even pack.
\<close>

definition formatDateTime :: "clock \<Rightarrow> int \<Rightarrow> string res" where
  "formatDateTime lt timeStamp =
     (case lt timeStamp of
        Inr t \<Rightarrow> Inr (asctime t)
      | Inl e \<Rightarrow>
          if is_ValueError e
          then rbind (pack LE [CL] [timeStamp]) (\<lambda>bs. if bs = [] then Inr [] else Inl AttributeError)
          else Inr ''invalid'')"

lemma formatDateTime_ok [simp]: "lt ts = Inr t \<Longrightarrow> formatDateTime lt ts = Inr (asctime t)"
  by (simp add: formatDateTime_def)

text \<open>A UTC clock for a day of 1970, used in examples.\<close>

definition utc_1970_01_01 :: clock where
  "utc_1970_01_01 ts =
     (if 0 \<le> ts \<and> ts < 86400
      then Inr \<lparr>tm_year = 1970, tm_mon = 1, tm_mday = 1, tm_hour = nat ts div 3600,
                tm_min = nat ts div 60 mod 60, tm_sec = nat ts mod 60, tm_wday = 3\<rparr>
      else Inl OverflowError)"

lemma asctime_example:
  "formatDateTime utc_1970_01_01 3661 = Inr ''Thu Jan  1 01:01:01 1970''"
proof -
  have "replicate 2 c = [c, c]" for c :: char by (simp add: numeral_2_eq_2)
  then show ?thesis
    by (simp add: formatDateTime_def utc_1970_01_01_def asctime_def wday_names_def mon_names_def
        strftime_time_def two_def zpad_def dec_str_def hexdig_chars hexdig_chars(2) [unfolded One_nat_def])
qed

subsection \<open>Items of a dictionary display\<close>

abbreviation field_of :: "string \<Rightarrow> pyval \<Rightarrow> pykey \<times> pyval" where
  "field_of name v \<equiv> (KS name, v)"

end
