(* ===== verification/Payloads.thy ===== *)
theory Payloads
  imports Times
begin

text \<open>
  The fixed-size payloads of \<^verbatim>\<open>se/data.py\<close>: parameters, versions, values, time stamps and energy
  statistics, with the functions that format them.  Log output is left out.
\<close>

subsection \<open>Simple payloads\<close>

definition parseEnergyStats :: "clock \<Rightarrow> bytes \<Rightarrow> pyval res" where
  "parseEnergyStats lt data =
     rbind (unpack LE [FF, FF, FF, FF, FI CL] (slice 0 20 data)) (\<lambda>vs. case vs of
       [Eday, Emon, Eyear, Etot, PInt Time1] \<Rightarrow>
         rbind (formatDateTime lt Time1) (\<lambda>t.
           Inr (PDict [field_of ''Eday'' Eday, field_of ''Emon'' Emon, field_of ''Eyear'' Eyear,
                       field_of ''Etot'' Etot, field_of ''Time1'' (PStr t)]))
     | _ \<Rightarrow> Inl ValueError)"

definition parseParam :: "bytes \<Rightarrow> pyval res" where
  "parseParam data = rbind (unpack_ints LE [CH] data) (\<lambda>vs. rbind (py_index vs 0) (\<lambda>param.
     Inr (PDict [field_of ''param'' (PInt param)])))"

definition parseVersion :: "bytes \<Rightarrow> pyval res" where
  "parseVersion data = rbind (unpack_ints LE [CH, CH] (slice 0 4 data)) (\<lambda>vs. case vs of
     [major, minor] \<Rightarrow>
       Inr (PDict [field_of ''version'' (PStr (zpad 4 (dec_str (nat major)) @ ''.'' @ zpad 4 (dec_str (nat minor))))])
   | _ \<Rightarrow> Inl TypeError)"

definition formatParam :: "int \<Rightarrow> bytes res" where
  "formatParam param = pack LE [CH] [param]"

definition parseOffsetLength :: "bytes \<Rightarrow> pyval res" where
  "parseOffsetLength data = rbind (unpack_ints LE [CL, CL] (slice 0 8 data)) (\<lambda>vs. case vs of
     [offset, len] \<Rightarrow> Inr (PDict [field_of ''offset'' (PInt offset), field_of ''length'' (PInt len),
                                     field_of ''data'' (PBytes (drop 8 data))])
   | _ \<Rightarrow> Inl ValueError)"

definition parseLong :: "bytes \<Rightarrow> pyval res" where
  "parseLong data = rbind (unpack_ints LE [CL] data) (\<lambda>vs. rbind (py_index vs 0) (\<lambda>param.
     Inr (PDict [field_of ''param'' (PInt param)])))"

definition formatLong :: "int \<Rightarrow> bytes res" where
  "formatLong param = pack LE [CL] [param]"

definition parseValueType :: "bytes \<Rightarrow> pyval res" where
  "parseValueType data = rbind (unpack_ints LE [CL, CH] data) (\<lambda>vs. case vs of
     [val, dataType] \<Rightarrow> Inr (PDict [field_of ''value'' (PInt val), field_of ''type'' (PInt dataType)])
   | _ \<Rightarrow> Inl ValueError)"

definition formatValueType :: "int \<Rightarrow> int \<Rightarrow> bytes res" where
  "formatValueType val dataType = pack LE [CH, CL] [val, dataType]"

definition parseParamValue :: "bytes \<Rightarrow> pyval res" where
  "parseParamValue data = rbind (unpack_ints LE [CH, CL] data) (\<lambda>vs. case vs of
     [param, val] \<Rightarrow> Inr (PDict [field_of ''param'' (PInt param), field_of ''value'' (PInt val)])
   | _ \<Rightarrow> Inl ValueError)"

definition formatParamValue :: "int \<Rightarrow> int \<Rightarrow> bytes res" where
  "formatParamValue param val = pack LE [CH, CL] [param, val]"

definition parseTime :: "bytes \<Rightarrow> pyval res" where
  "parseTime data = rbind (unpack_ints LE [CL, Cl] data) (\<lambda>vs. case vs of
     [timeValue, tzOffset] \<Rightarrow> Inr (PDict [field_of ''time'' (PInt timeValue), field_of ''tz'' (PInt tzOffset)])
   | _ \<Rightarrow> Inl ValueError)"

definition formatTime :: "int \<Rightarrow> int \<Rightarrow> bytes res" where
  "formatTime timeValue tzOffset = pack LE [CL, Cl] [timeValue, tzOffset]"

definition parseStatus :: "bytes \<Rightarrow> pyval res" where
  "parseStatus data = Inr (PDict [field_of ''status'' (PInt 0)])"

subsection \<open>Round trips\<close>

lemma unpack_ints_pack:
  "rbind (pack en cs vs) (unpack_ints en cs) = (if list_all2 in_range cs vs then Inr vs else Inl StructError)"
proof (cases "pack en cs vs")
  case (Inl e)
  then show ?thesis using pack_error [of en cs vs e] pack_Inr_iff [of en cs vs] by auto
next
  case (Inr bs)
  then show ?thesis using unpack_pack [of en cs vs bs] pack_Inr_iff [of en cs vs] by auto
qed

lemma parse_after_pack:
  "rbind (pack en cs vs) (\<lambda>bs. rbind (unpack_ints en cs bs) k)
     = (if list_all2 in_range cs vs then k vs else Inl StructError)"
  by (simp add: unpack_ints_pack flip: rbind_assoc)

text \<open>
  The parsers of parameter, long, parameter-value and time payloads invert their formatters on
  every value in range, and the formatters raise \<^verbatim>\<open>struct.error\<close> on every other value.
\<close>

theorem payload_roundtrips:
  "rbind (formatParam p) parseParam =
     (if in_range CH p then Inr (PDict [field_of ''param'' (PInt p)]) else Inl StructError) \<and>
   rbind (formatLong p) parseLong =
     (if in_range CL p then Inr (PDict [field_of ''param'' (PInt p)]) else Inl StructError) \<and>
   rbind (formatParamValue p v) parseParamValue =
     (if in_range CH p \<and> in_range CL v
      then Inr (PDict [field_of ''param'' (PInt p), field_of ''value'' (PInt v)]) else Inl StructError) \<and>
   rbind (formatTime t z) parseTime =
     (if in_range CL t \<and> in_range Cl z
      then Inr (PDict [field_of ''time'' (PInt t), field_of ''tz'' (PInt z)]) else Inl StructError)"
  unfolding formatParam_def formatLong_def formatParamValue_def formatTime_def
    parseParam_def [abs_def] parseLong_def [abs_def] parseParamValue_def [abs_def] parseTime_def [abs_def]
    parse_after_pack
  by (simp add: py_index_def)

lemma mixed_fields:
  assumes "in_range CH v" "in_range CL t"
  shows "unpack_ints LE [CL, CH] (enc_field LE CH v @ enc_field LE CL t)
    = Inr [v + 65536 * (t mod 65536), t div 65536]"
proof -
  have v: "v mod 65536 = v" using assms(1) by (simp add: in_range_def)
  have t: "t div 65536 mod 65536 = t div 65536"
    using assms(2) by (auto simp: in_range_def intro!: mod_pos_pos_trivial)
  have "enc_field LE CL t = le_bytes 2 t @ le_bytes 2 (t div 65536)"
    using le_bytes_append [of 2 2 t] by (simp add: enc_LE)
  then have "enc_field LE CH v @ enc_field LE CL t = (le_bytes 2 v @ le_bytes 2 t) @ le_bytes 2 (t div 65536)"
    by (simp add: enc_LE)
  then show ?thesis
    by (simp add: unpack_ints_def dec_field_def ordered_def le_int_append le_int_le_bytes_mod v t
        del: le_bytes.simps append_assoc)
qed

text \<open>
  \<open>formatValueType\<close> packs the value as 16 and the type as 32 bits, while \<open>parseValueType\<close> reads
  32 and 16: the parser does not invert the formatter but reads the low half of the type as the
  high half of the value.
\<close>

theorem valueType_mismatch:
  "rbind (formatValueType v t) parseValueType =
     (if in_range CH v \<and> in_range CL t
      then Inr (PDict [field_of ''value'' (PInt (v + 65536 * (t mod 65536))), field_of ''type'' (PInt (t div 65536))])
      else Inl StructError)"
  by (auto simp: formatValueType_def parseValueType_def mixed_fields)

end
