(* ===== verification/DataParams.thy ===== *)
theory DataParams
  imports PyStruct
begin

text \<open>
  The parameter tables of \<^verbatim>\<open>se/dataparams.py\<close>: for each kind of device block the struct format,
  the length it unpacks, the positions picked from the unpacked tuple and the item names of the
  output dictionary.  The \<^verbatim>\<open>...OutFmt\<close> tables are used by no module and are left out.
\<close>

text \<open>A format string of the codes \<^verbatim>\<open>L l f\<close>; the code after the \<^verbatim>\<open><\<close>, one character per field.\<close>

fun fmt_char :: "char \<Rightarrow> field" where
  "fmt_char c = (if c = CHR ''f'' then FF else if c = CHR ''l'' then FI Cl else FI CL)"

definition fmt :: "string \<Rightarrow> field list" where
  "fmt s = map fmt_char s"

definition eventInFmt :: "field list" where
  "eventInFmt = fmt ''LLLlLLL''"

definition eventInFmtLen :: nat where
  "eventInFmtLen = length eventInFmt * 4"

definition eventIdx :: "nat list" where
  "eventIdx = [0, 1, 2, 3, 4]"

definition eventItems :: "string list" where
  "eventItems = [''Date'', ''Time'', ''ID'', ''Type'', ''Event1'', ''Event2'', ''Event3'']"

definition invInFmt :: "field list" where
  "invInFmt = fmt ''LLLffffffLLfLffLfffffLLffL''"

definition invInFmtLen :: nat where
  "invInFmtLen = length invInFmt * 4"

definition invIdx :: "nat list" where
  "invIdx = [0, 1, 2, 3, 4, 5, 6, 7, 8, 11, 13, 18, 23]"

definition invItems :: "string list" where
  "invItems = [
    ''Date'', ''Time'', ''ID'', ''Uptime'', ''Interval'', ''Temp'', ''Eday'', ''Eac'', ''Vac'',
    ''Iac'', ''Freq'', ''Vdc'', ''Etot'', ''Pmax'', ''Pac'']"

definition inv3PhInFmt :: "field list" where
  "inv3PhInFmt = fmt ''LLLffffffffffffLLfLffLLLfffLfffL''"

definition inv3PhInFmtLen :: nat where
  "inv3PhInFmtLen = length inv3PhInFmt * 4"

definition inv3PhIdx :: "nat list" where
  "inv3PhIdx = [
    0, 1, 2, 3, 4, 5, 6, 7, 8, 9, 10, 11, 12, 13, 14, 15, 16, 17, 18, 19, 20,
    21, 22, 23, 24, 25, 26, 27, 28, 29, 30, 31]"

definition inv3PhItems :: "string list" where
  "inv3PhItems = [
    ''Date'', ''Time'', ''ID'', ''Uptime'', ''Interval'', ''Temp'', ''Eday'', ''Eac'', ''Vac1'',
    ''Vac2'', ''Vac3'', ''Iac1'', ''Iac2'', ''Iac3'', ''Freq1'', ''Freq2'', ''Freq3'',
    ''EdayDC'', ''Edc'', ''Vdc'', ''Idc'', ''Etot'', ''Irdc'', ''data21'', ''data22'',
    ''data23'', ''CosPhi1'', ''CosPhi2'', ''CosPhi3'', ''mode'', ''GndFrR'', ''data29'',
    ''IoutDC'', ''data31'']"

definition optInFmt :: "field list" where
  "optInFmt = fmt ''LLLLfffff''"

definition optInFmtLen :: nat where
  "optInFmtLen = length optInFmt * 4"

definition optIdx :: "nat list" where
  "optIdx = [0, 1, 3, 4, 5, 6, 7, 8]"

definition optItems :: "string list" where
  "optItems = [
    ''Date'', ''Time'', ''ID'', ''Inverter'', ''Uptime'', ''Vmod'', ''Vopt'', ''Imod'', ''Eday'',
    ''Temp'']"

subsection \<open>The tables fit together\<close>

lemma fmt_Cons [simp]: "fmt (c # s) = fmt_char c # fmt s" and fmt_Nil [simp]: "fmt [] = []"
  by (simp_all add: fmt_def)

lemma calcsize_fmt [simp]: "calcsize (fmt s) = length s * 4"
  by (induction s) (auto simp: calcsize_def)

lemma length_fmt [simp]: "length (fmt s) = length s"
  by (simp add: fmt_def)

lemmas table_lens = eventInFmtLen_def invInFmtLen_def inv3PhInFmtLen_def optInFmtLen_def

lemma fmt_lens:
  "eventInFmtLen = 28" "invInFmtLen = 104" "inv3PhInFmtLen = 128" "optInFmtLen = 36"
  by (simp_all add: table_lens eventInFmt_def invInFmt_def inv3PhInFmt_def optInFmt_def del: fmt_Cons)

lemma fmt_sizes:
  "calcsize eventInFmt = 28" "calcsize invInFmt = 104" "calcsize inv3PhInFmt = 128" "calcsize optInFmt = 36"
  by (simp_all add: eventInFmt_def invInFmt_def inv3PhInFmt_def optInFmt_def del: fmt_Cons)

lemma fmt_lengths:
  "length eventInFmt = 7" "length invInFmt = 26" "length inv3PhInFmt = 32" "length optInFmt = 9"
  by (simp_all add: eventInFmt_def invInFmt_def inv3PhInFmt_def optInFmt_def del: fmt_Cons)

text \<open>Every selected position exists, and each table names two items more than it selects.\<close>

lemma idx_in_range:
  "list_all (\<lambda>i. i < 7) eventIdx" "list_all (\<lambda>i. i < 26) invIdx"
  "list_all (\<lambda>i. i < 32) inv3PhIdx" "list_all (\<lambda>i. i < 9) optIdx"
  by (simp_all add: eventIdx_def invIdx_def inv3PhIdx_def optIdx_def)

lemma items_fit:
  "length eventItems = length eventIdx + 2" "length invItems = length invIdx + 2"
  "length inv3PhItems = length inv3PhIdx + 2" "length optItems = length optIdx + 2"
  by (simp_all add: eventIdx_def invIdx_def inv3PhIdx_def optIdx_def
      eventItems_def invItems_def inv3PhItems_def optItems_def)

end
