(* ===== verification/Devices.thy ===== *)
theory Devices
  imports Times
begin

text \<open>
  The device parsers of \<^verbatim>\<open>se/datadevices.py\<close>: the class \<^verbatim>\<open>ParseDevice\<close>, its subclasses for
  batteries (0x0030) and meters (0x0022), and the exploratory parser.

  An instance is its dictionary together with the attributes \<^verbatim>\<open>_seId\<close> and \<^verbatim>\<open>_devType\<close>.  The
  class attributes the code changes while it runs, the two \<^verbatim>\<open>_defn\<close> lists and the explorer's
  \<^verbatim>\<open>_itemNames\<close>, are the state \<open>classes\<close>, returned updated also when an exception is raised.
  The comments of the field definitions, which only \<^verbatim>\<open>itemDefs\<close> prints, are left out.
\<close>

subsection \<open>Field definitions\<close>

datatype infmt = Hex | Fmt field
datatype outfn = NoFn | DateTime | HexFn

record item =
  paramLen :: nat
  paramInFmt :: infmt
  paramName :: string
  outFormatFn :: outfn
  out_csv :: bool

abbreviation item :: "nat \<Rightarrow> infmt \<Rightarrow> string \<Rightarrow> outfn \<Rightarrow> bool \<Rightarrow> item" where
  "item n f name fn csv \<equiv>
     \<lparr>paramLen = n, paramInFmt = f, paramName = name, outFormatFn = fn, out_csv = csv\<rparr>"

abbreviation fL :: infmt where "fL \<equiv> Fmt (FI CL)"
abbreviation fH :: infmt where "fH \<equiv> Fmt (FI CH)"
abbreviation fb :: infmt where "fb \<equiv> Fmt (FI Cb)"
abbreviation ff :: infmt where "ff \<equiv> Fmt FF"

type_synonym defn = "item list"

definition defnLen :: "defn \<Rightarrow> nat" where
  "defnLen ds = sum_list (map paramLen ds)"

text \<open>The definition of an unknown device, of a battery and of a meter.\<close>

definition unknown_defn :: defn where
  "unknown_defn = [item 4 fL ''dateTime'' DateTime False]"

definition battery_table :: defn where
  "battery_table = [
     item 4 fL ''dateTime'' DateTime False,
     item 12 (Fmt (FS 12)) ''batteryId'' NoFn True,
     item 4 ff ''Vdc'' NoFn True,
     item 4 ff ''Idc'' NoFn True,
     item 4 ff ''BattCapacityNom'' NoFn True,
     item 4 ff ''BattCapacityActual'' NoFn True,
     item 4 ff ''BattCharge'' NoFn True,
     item 4 fL ''TotalEnergyIn'' NoFn True,
     item 4 ff ''AlwaysZero_40_float'' NoFn False,
     item 4 fL ''TotalEnergyOut'' NoFn True,
     item 4 ff ''AlwaysZero_48_float'' NoFn False,
     item 4 Hex ''HexConst_52'' HexFn False,
     item 4 Hex ''HexConst_56'' HexFn False,
     item 4 ff ''Temp'' NoFn True,
     item 2 fH ''BattChargingStatus'' NoFn True,
     item 4 ff ''AlwaysZero_66_float'' NoFn False,
     item 4 ff ''AlwaysZero_70_float'' NoFn False,
     item 4 fL ''Interval'' NoFn False,
     item 4 fL ''EIn'' NoFn True,
     item 4 fL ''EOut'' NoFn True]"

definition meter_table :: defn where
  "meter_table = [
     item 4 fL ''dateTime'' DateTime False,
     item 1 fb ''recType'' NoFn True,
     item 1 fb ''onlyIntervalData'' NoFn True,
     item 4 fL ''TotalE2Grid'' NoFn True,
     item 2 fH ''AlwaysZero_off10_int2'' NoFn False,
     item 2 Hex ''Flag_off12_hex'' HexFn True,
     item 4 fL ''TotalEfromGrid'' NoFn True,
     item 2 fH ''AlwaysZero_off18_int2'' NoFn False,
     item 2 Hex ''Flag_off20_hex'' HexFn True,
     item 4 fL ''Totaloff22_int4'' NoFn True,
     item 2 fH ''AlwaysZero_off26_int2'' NoFn False,
     item 2 Hex ''Flag_off28_hex'' HexFn True,
     item 4 fL ''Totaloff30_int4'' NoFn True,
     item 2 fH ''AlwaysZero_off34_int2'' NoFn False,
     item 2 Hex ''Flag_off36_hex'' HexFn True,
     item 4 fL ''Interval'' NoFn True,
     item 4 fL ''E2X'' NoFn True,
     item 4 fL ''EfromX'' NoFn True,
     item 4 ff ''P2X'' NoFn True,
     item 4 ff ''PfromX'' NoFn True]"

text \<open>The hypotheses: expressions over the items that are expected to hold.\<close>

datatype hypothesis = AbsBelow string int | IsZero string

definition battery_hypotheses :: "hypothesis list" where
  "battery_hypotheses = [
     AbsBelow ''AlwaysZero_40_float'' (10 ^ 25),
     AbsBelow ''AlwaysZero_48_float'' (10 ^ 25),
     AbsBelow ''AlwaysZero_66_float'' (10 ^ 25),
     AbsBelow ''AlwaysZero_70_float'' (10 ^ 25)]"

definition meter_hypotheses :: "hypothesis list" where
  "meter_hypotheses = [
     IsZero ''AlwaysZero_off10_int2'',
     IsZero ''AlwaysZero_off18_int2'',
     IsZero ''AlwaysZero_off26_int2'',
     IsZero ''AlwaysZero_off34_int2'']"

text \<open>Items derived from others: names with default values; no class of the file has any.\<close>

type_synonym derivn = "(string \<times> pyval \<times> bool) list"

subsection \<open>Formatting\<close>

text \<open>\<^verbatim>\<open>'{:#06x}'.format(n)\<close>\<close>

definition hex06 :: "int \<Rightarrow> string" where
  "hex06 n = ''0x'' @ zpad 4 (hex_str (nat n))"

text \<open>Remove the extra bit that is sometimes set in a device id, and upcase the letters.\<close>

definition parseId :: "int \<Rightarrow> string" where
  "parseId seId = upper (hex_str (nat (seId AND 0xff7fffff)))"

text \<open>The static methods of the class catch every exception of the conversion.\<close>

definition devDateStamp :: "clock \<Rightarrow> int \<Rightarrow> string" where
  "devDateStamp lt timeStamp = (case lt timeStamp of Inr t \<Rightarrow> strftime_date t | Inl e \<Rightarrow> ''invalid'')"

definition devTimeStamp :: "clock \<Rightarrow> int \<Rightarrow> string" where
  "devTimeStamp lt timeStamp = (case lt timeStamp of Inr t \<Rightarrow> strftime_time t | Inl e \<Rightarrow> ''invalid'')"

definition hexLine :: "bytes \<Rightarrow> string" where
  "hexLine data = join '' '' (map hex2 data)"

function hexLines :: "bytes \<Rightarrow> nat \<Rightarrow> string list" where
  "hexLines data printPtr =
     (if length data - printPtr \<ge> 16
      then hexLine (slice printPtr (printPtr + 16) data) # hexLines data (printPtr + 16)
      else if printPtr < length data then [hexLine (drop printPtr data)] else [])"
  by pat_completeness auto
termination by (relation "measure (\<lambda>(data, printPtr). length data - printPtr)") auto

declare hexLines.simps [simp del]

definition hexData :: "bytes \<Rightarrow> string" where
  "hexData data = join '' | '' (if data \<noteq> [] then hexLines data 0 else [])"

definition unhexData :: "string \<Rightarrow> bytes res" where
  "unhexData s = unhexlify (remove_char (CHR '' '') (remove_char (CHR ''|'') s))"

subsection \<open>UTF-8\<close>

text \<open>
  \<^verbatim>\<open>bytes.decode('utf-8')\<close> accepts the well-formed byte sequences only: no overlong forms, no
  surrogates, nothing above U+10FFFF.  A string holds its UTF-8 bytes, so decoding is validation.
\<close>

definition cont :: "nat \<Rightarrow> bool" where
  "cont b \<longleftrightarrow> 0x80 \<le> b \<and> b \<le> 0xbf"

fun utf8_valid :: "nat list \<Rightarrow> bool" where
  "utf8_valid [] = True"
| "utf8_valid (a # bs) =
     (if a < 0x80 then utf8_valid bs
      else if 0xc2 \<le> a \<and> a \<le> 0xdf then
        (case bs of b # r \<Rightarrow> cont b \<and> utf8_valid r | _ \<Rightarrow> False)
      else if 0xe0 \<le> a \<and> a \<le> 0xef then
        (case bs of b # c # r \<Rightarrow>
           cont b \<and> cont c \<and> (a = 0xe0 \<longrightarrow> 0xa0 \<le> b) \<and> (a = 0xed \<longrightarrow> b \<le> 0x9f) \<and> utf8_valid r
         | _ \<Rightarrow> False)
      else if 0xf0 \<le> a \<and> a \<le> 0xf4 then
        (case bs of b # c # d # r \<Rightarrow>
           cont b \<and> cont c \<and> cont d \<and> (a = 0xf0 \<longrightarrow> 0x90 \<le> b) \<and> (a = 0xf4 \<longrightarrow> b \<le> 0x8f) \<and> utf8_valid r
         | _ \<Rightarrow> False)
      else False)"

definition text_of :: "bytes \<Rightarrow> string" where
  "text_of bs = map (\<lambda>b. char_of (unat b)) bs"

definition decode_utf8 :: "bytes \<Rightarrow> string res" where
  "decode_utf8 bs = (if utf8_valid (map unat bs) then Inr (text_of bs) else Inl UnicodeDecodeError)"

text \<open>\<^verbatim>\<open>s.strip('\x00')\<close>\<close>

definition strip_nul :: "string \<Rightarrow> string" where
  "strip_nul s = strip_chars (\<lambda>c. c = CHR 0x00) s"

subsection \<open>Parsing a block\<close>

definition devHdrLen :: nat where "devHdrLen = 8"

text \<open>\<^verbatim>\<open>(seType, seId, devLen) = struct.unpack("<HLH", ...)\<close>\<close>

definition unpackHdr :: "bytes \<Rightarrow> (int \<times> int \<times> int) res" where
  "unpackHdr bs = rbind (unpack_ints LE [CH, CL, CH] bs)
     (\<lambda>vs. case vs of [seType, seId, devLen] \<Rightarrow> Inr (seType, seId, devLen) | _ \<Rightarrow> Inl ValueError)"

record device =
  d_items :: pydict
  d_seId :: pykey
  d_devType :: string

definition parseField :: "bytes \<Rightarrow> nat \<Rightarrow> item \<Rightarrow> pyval res" where
  "parseField data dataPtr it =
     (let raw = slice dataPtr (dataPtr + paramLen it) data
      in case paramInFmt it of
           Hex \<Rightarrow> Inr (PBytes raw)
         | Fmt f \<Rightarrow>
             if f = FF \<and> raw = [0xff, 0xff, 0x7f, 0xff] then Inr (PFloat NaN)
             else rbind (unpack LE [f] raw) (\<lambda>vs. rbind (py_index vs 0) (\<lambda>v.
               case v of
                 PBytes b \<Rightarrow> rbind (decode_utf8 b) (\<lambda>s. Inr (PStr (strip_nul s)))
               | _ \<Rightarrow> Inr v)))"

text \<open>Optionally format the field that has just been stored under its name.\<close>

definition formatField :: "clock \<Rightarrow> item \<Rightarrow> pyval \<Rightarrow> pydict \<Rightarrow> pydict res" where
  "formatField lt it v self =
     (case outFormatFn it of
        NoFn \<Rightarrow> Inr self
      | DateTime \<Rightarrow>
          (case v of
             PInt ts \<Rightarrow> Inr (dput (KS ''Time'') (PStr (devTimeStamp lt ts))
                            (dput (KS ''Date'') (PStr (devDateStamp lt ts)) self))
           | _ \<Rightarrow> Inr (dput (KS ''Time'') (PStr ''invalid'') (dput (KS ''Date'') (PStr ''invalid'') self)))
      | HexFn \<Rightarrow>
          (case v of
             PBytes b \<Rightarrow> Inr (dput (KS (paramName it)) (PStr (hexData b)) self)
           | _ \<Rightarrow> Inl TypeError))"

fun parseFields :: "clock \<Rightarrow> bytes \<Rightarrow> defn \<Rightarrow> nat \<Rightarrow> pydict \<Rightarrow> pydict res" where
  "parseFields lt data [] dataPtr self = Inr self"
| "parseFields lt data (it # its) dataPtr self =
     rbind (parseField data dataPtr it) (\<lambda>v.
       rbind (formatField lt it v (dput (KS (paramName it)) v self)) (\<lambda>self'.
         parseFields lt data its (dataPtr + paramLen it) self'))"

text \<open>
  \<^verbatim>\<open>self._defn.append(...)\<close> changes the list that \<^verbatim>\<open>self._defn\<close> finds: the class's own, or the one
  an unknown instance was given.  The list is the first component of the result.
\<close>

definition undeciphered :: "nat \<Rightarrow> item" where
  "undeciphered n = item n Hex ''Undeciphered_data'' HexFn True"

definition parseDevTable :: "clock \<Rightarrow> string \<Rightarrow> bytes \<Rightarrow> defn \<Rightarrow> pydict \<Rightarrow> defn \<times> device res" where
  "parseDevTable lt devName data ds self =
     (case unpackHdr (slice 0 devHdrLen data) of
        Inl e \<Rightarrow> (ds, Inl e)
      | Inr (seType, seId, devLen) \<Rightarrow>
          let devType = devName @ ''_'' @ hex06 seType;
              self1 = dupdate [(KS ''seType'', PStr (hex06 seType)), (KS ''seId'', PStr (parseId seId)),
                               (KS ''devLen'', PInt devLen), (KS ''devType'', PStr devType)] self
          in if int (defnLen ds) > devLen then (ds, Inl ValueError)
             else
               let ds' = (if int (defnLen ds) < devLen
                          then ds @ [undeciphered (nat devLen - defnLen ds)] else ds)
               in (ds', rbind (parseFields lt data ds' devHdrLen self1) (\<lambda>d.
                          Inr \<lparr>d_items = d, d_seId = KS (parseId seId), d_devType = devType\<rparr>)))"

text \<open>\<^verbatim>\<open>setDerivationDefaults\<close>: the default values are evaluated expressions.\<close>

definition setDerivationDefaults :: "derivn \<Rightarrow> pydict \<Rightarrow> pydict" where
  "setDerivationDefaults ds self = fold (\<lambda>(name, default, out). dput (KS name) default) ds self"

text \<open>
  \<^verbatim>\<open>codeDerivations\<close>: only the meter overrides it, to replace the value that stands for "not
  reported" by a NaN.
\<close>

definition not_reported :: "pyval \<Rightarrow> bool res" where
  "not_reported v =
     (case num_of v of Some x \<Rightarrow> Inr (x < Fin (of_int (- 3 * 10 ^ 38))) | None \<Rightarrow> Inl TypeError)"

definition meterDerivations :: "pydict \<Rightarrow> pydict res" where
  "meterDerivations self =
     rbind (dlookup self (KS ''P2X'')) (\<lambda>v. rbind (not_reported v) (\<lambda>b.
       Inr (if b then dput (KS ''P2X'') (PFloat NaN) self else self)))"

text \<open>\<^verbatim>\<open>checkHypotheses\<close> reports the hypotheses that fail, with the date and time of the block.\<close>

definition hypothesis_holds :: "hypothesis \<Rightarrow> pydict \<Rightarrow> bool res" where
  "hypothesis_holds h self = (case h of
       AbsBelow name bound \<Rightarrow> rbind (dlookup self (KS name)) (\<lambda>v.
         case num_of v of Some x \<Rightarrow> Inr (fabs x < Fin (of_int bound)) | None \<Rightarrow> Inl TypeError)
     | IsZero name \<Rightarrow> rbind (dlookup self (KS name)) (\<lambda>v. Inr (pyeq v (PInt 0))))"

fun checkHypotheses :: "hypothesis list \<Rightarrow> pydict \<Rightarrow> (hypothesis \<times> pyval \<times> pyval) list res" where
  "checkHypotheses [] self = Inr []"
| "checkHypotheses (h # hs) self = rbind (hypothesis_holds h self) (\<lambda>b.
     if b then checkHypotheses hs self
     else rbind (dlookup self (KS ''Date'')) (\<lambda>date. rbind (dlookup self (KS ''Time'')) (\<lambda>time.
       rbind (checkHypotheses hs self) (\<lambda>ws. Inr ((h, date, time) # ws)))))"

text \<open>\<^verbatim>\<open>__init__\<close>, on the dictionary the instance already has\<close>

definition deviceInit ::
    "clock \<Rightarrow> string \<Rightarrow> (pydict \<Rightarrow> pydict res) \<Rightarrow> hypothesis list \<Rightarrow> bytes \<Rightarrow> defn \<Rightarrow> pydict \<Rightarrow> defn \<times> device res" where
  "deviceInit lt devName codeDerivations hyps data ds self =
     (let (ds', r) = parseDevTable lt devName data ds self
      in (ds', rbind r (\<lambda>dev.
            rbind (codeDerivations (setDerivationDefaults [] (d_items dev))) (\<lambda>items.
              rbind (checkHypotheses hyps items) (\<lambda>warnings. Inr (dev\<lparr>d_items := items\<rparr>))))))"

definition batteryInit :: "clock \<Rightarrow> bytes \<Rightarrow> defn \<Rightarrow> pydict \<Rightarrow> defn \<times> device res" where
  "batteryInit lt = deviceInit lt ''batteries'' Inr battery_hypotheses"

definition meterInit :: "clock \<Rightarrow> bytes \<Rightarrow> defn \<Rightarrow> pydict \<Rightarrow> defn \<times> device res" where
  "meterInit lt = deviceInit lt ''meters'' meterDerivations meter_hypotheses"

definition unknownInit :: "clock \<Rightarrow> bytes \<Rightarrow> defn \<Rightarrow> pydict \<Rightarrow> defn \<times> device res" where
  "unknownInit lt = deviceInit lt ''Unknown_device'' Inr []"

subsection \<open>The exploratory parser\<close>

text \<open>The item names recorded so far, and the dictionary or the exception that stopped the parse.\<close>

type_synonym xstate = "string list \<times> pydict res"

definition xput :: "string \<Rightarrow> pyval res \<Rightarrow> xstate \<Rightarrow> xstate" where
  "xput name v st = (case st of (names, r) \<Rightarrow>
     (case rbind r (\<lambda>d. rbind v (\<lambda>x. Inr (dput (KS name) x d))) of
        Inl e \<Rightarrow> (names, Inl e)
      | Inr d \<Rightarrow> (names @ [name], Inr d)))"

definition offset_name :: "string \<Rightarrow> nat \<Rightarrow> string \<Rightarrow> string" where
  "offset_name pre offset post = pre @ zpad 3 (dec_str offset) @ post"

definition xdates :: "clock \<Rightarrow> nat \<Rightarrow> pyval res \<Rightarrow> xstate \<Rightarrow> xstate" where
  "xdates lt offset v st = (case st of (names, r) \<Rightarrow>
     (case rbind r (\<lambda>d. rbind v (\<lambda>x.
        let ts = (case x of PInt n \<Rightarrow> n | _ \<Rightarrow> 0);
            date = PStr (devDateStamp lt ts); time = PStr (devTimeStamp lt ts);
            d1 = dput (KS (offset_name ''Time_offset'' offset '''')) time
                  (dput (KS (offset_name ''Date_offset'' offset '''')) date d)
        in Inr (if KS ''Date'' \<in> set (dkeys d1) then d1
                else dput (KS ''Time'') time (dput (KS ''Date'') date d1)))) of
        Inl e \<Rightarrow> (names, Inl e)
      | Inr d \<Rightarrow> (names @ [offset_name ''Date_offset'' offset '''', offset_name ''Time_offset'' offset ''''], Inr d)))"

definition unpack1 :: "order \<Rightarrow> field \<Rightarrow> bytes \<Rightarrow> pyval res" where
  "unpack1 en f bs = rbind (unpack en [f] bs) (\<lambda>vs. py_index vs 0)"

definition parseAtOffset :: "clock \<Rightarrow> bytes \<Rightarrow> nat \<Rightarrow> int \<Rightarrow> xstate \<Rightarrow> xstate" where
  "parseAtOffset lt data offset devlen st =
     (let nm = offset_name ''offset'' offset;
          b1 = slice offset (offset + 1) data; b2 = slice offset (offset + 2) data;
          b4 = slice offset (offset + 4) data;
          st1 = (if int offset \<le> devlen - 1 then xput (nm ''_1_hex1'') (Inr (PStr (hexData b1))) st else st);
          st2 = (if int offset \<le> devlen - 2
                 then xput (nm ''_4_int2'') (unpack1 LE (FI CH) b2)
                       (xput (nm ''_1_hex2'') (Inr (PStr (hexData b2))) st1) else st1)
      in if int offset \<le> devlen - 4
         then xdates lt offset (unpack1 LE (FI CL) b4)
               (xput (nm ''_4_int4'') (unpack1 LE (FI CL) b4)
               (xput (nm ''_3_float_BE'') (unpack1 BE FF b4)
               (xput (nm ''_3_float_LE'') (unpack1 LE FF b4)
               (xput (nm ''_1_hex4'') (Inr (PStr (hexData b4))) st2))))
         else st2)"

definition explorerTable :: "clock \<Rightarrow> bytes \<Rightarrow> string list \<Rightarrow> pydict \<Rightarrow> string list \<times> device res" where
  "explorerTable lt data names self =
     (case unpackHdr (slice 0 devHdrLen data) of
        Inl e \<Rightarrow> (names, Inl e)
      | Inr (seType, seId, devLen) \<Rightarrow>
          let devType = ''explore_'' @ hex06 seType;
              body = drop devHdrLen data;
              self1 = dupdate [(KS ''seType'', PStr (hex06 seType)), (KS ''seId'', PStr (parseId seId)),
                               (KS ''devLen'', PInt devLen), (KS ''devType'', PStr devType)] self;
              self2 = dput (KS ''AllAsHex'') (PStr (hexData body)) self1;
              offsets = map (\<lambda>i. 2 * i) [0..<(nat devLen + 1) div 2];
              (names', r) = fold (\<lambda>offset. parseAtOffset lt body offset devLen) offsets (names, Inr self2)
          in (names', rbind r (\<lambda>d. Inr \<lparr>d_items = d, d_seId = KI seId, d_devType = devType\<rparr>)))"

definition explorerInit :: "clock \<Rightarrow> bytes \<Rightarrow> string list \<Rightarrow> pydict \<Rightarrow> string list \<times> device res" where
  "explorerInit lt data names self =
     (let (names', r) = explorerTable lt data names self
      in (names', rbind r (\<lambda>dev.
            rbind (checkHypotheses [] (setDerivationDefaults [] (d_items dev))) (\<lambda>warnings. Inr dev))))"

subsection \<open>Construction\<close>

record classes =
  battery_defn :: defn
  meter_defn :: defn
  explorer_names :: "string list"

definition initial_classes :: classes where
  "initial_classes =
     \<lparr>battery_defn = battery_table, meter_defn = meter_table,
      explorer_names = [''seType'', ''seId'', ''devLen'', ''devType'']\<rparr>"

text \<open>
  \<^verbatim>\<open>ParseDevice(data)\<close> finds the subclass in \<^verbatim>\<open>__new__\<close> and constructs it there, which runs its
  \<^verbatim>\<open>__init__\<close>; Python then runs \<^verbatim>\<open>__init__\<close> of the returned instance once more.
\<close>

definition initTwice :: "('c \<Rightarrow> pydict \<Rightarrow> 'c \<times> device res) \<Rightarrow> 'c \<Rightarrow> 'c \<times> device res" where
  "initTwice init c =
     (case init c [] of
        (c1, Inl e) \<Rightarrow> (c1, Inl e)
      | (c1, Inr dev) \<Rightarrow> init c1 (d_items dev))"

datatype devclass = Battery | Meter | Explorer | Unknown

definition class_of :: "bool \<Rightarrow> int \<Rightarrow> devclass" where
  "class_of explorer seType =
     (if seType = 0x0030 then Battery else if seType = 0x0022 then Meter
      else if seType = 0xffff \<or> explorer then Explorer else Unknown)"

definition newDevice :: "clock \<Rightarrow> bytes \<Rightarrow> bool \<Rightarrow> classes \<Rightarrow> classes \<times> (devclass \<times> device) res" where
  "newDevice lt data explorer cs =
     (case unpackHdr (slice 0 devHdrLen data) of
        Inl e \<Rightarrow> (cs, Inl e)
      | Inr (seType, seId, devLen) \<Rightarrow>
          let c = class_of explorer seType; mk = (\<lambda>r. rbind r (\<lambda>dev. Inr (c, dev)))
          in case c of
               Battery \<Rightarrow> (case initTwice (batteryInit lt data) (battery_defn cs) of
                             (ds, r) \<Rightarrow> (cs\<lparr>battery_defn := ds\<rparr>, mk r))
             | Meter \<Rightarrow> (case initTwice (meterInit lt data) (meter_defn cs) of
                             (ds, r) \<Rightarrow> (cs\<lparr>meter_defn := ds\<rparr>, mk r))
             | Explorer \<Rightarrow> (case initTwice (explorerInit lt data) (explorer_names cs) of
                             (names, r) \<Rightarrow> (cs\<lparr>explorer_names := names\<rparr>, mk r))
             | Unknown \<Rightarrow> (case unknownInit lt data unknown_defn [] of (ds, r) \<Rightarrow> (cs, mk r)))"

subsection \<open>Identifiers\<close>

definition recTypeLabels :: "(int \<times> string) list" where
  "recTypeLabels = [(3, ''3_Consumption''), (5, ''5_GridImportExport''), (7, ''7_Battery''),
                    (8, ''8_MostlyZeroes''), (9, ''9_PVProduction'')]"

text \<open>The text \<^verbatim>\<open>str.format\<close> prints for an integer item; \<^verbatim>\<open>recType\<close> is unpacked as one.\<close>

definition recTypeLabel :: "int \<Rightarrow> string" where
  "recTypeLabel r = (case dget recTypeLabels r of
       Some s \<Rightarrow> s | None \<Rightarrow> int_str r @ ''_UnrecognisedRecType'')"

definition single :: "pykey \<Rightarrow> pydict \<Rightarrow> pydict" where
  "single k d = [(k, PDict d)]"

fun str_key :: "pyval \<Rightarrow> pykey res" where
  "str_key (PStr s) = Inr (KS s)"
| "str_key _ = Inl TypeError"

fun int_of :: "pyval \<Rightarrow> int res" where
  "int_of (PInt i) = Inr i"
| "int_of _ = Inl TypeError"

text \<open>The method \<^verbatim>\<open>wrap_in_ids\<close> of \<^verbatim>\<open>ParseDevice\<close>, of the battery class and of the meter class.\<close>

definition wrapDevice :: "device \<Rightarrow> pydict \<Rightarrow> pydict" where
  "wrapDevice dev d = single (KS (d_devType dev)) (single (d_seId dev) d)"

definition wrapBattery :: "device \<Rightarrow> pydict res" where
  "wrapBattery dev = rbind (dlookup (d_items dev) (KS ''batteryId'')) (\<lambda>v. rbind (str_key v) (\<lambda>k.
     Inr (wrapDevice dev (single k (d_items dev)))))"

definition wrapMeter :: "device \<Rightarrow> pydict res" where
  "wrapMeter dev = rbind (dlookup (d_items dev) (KS ''recType'')) (\<lambda>v. rbind (int_of v) (\<lambda>r.
     Inr (wrapDevice dev (single (KS (recTypeLabel r)) (d_items dev)))))"

definition wrap_in_ids :: "devclass \<Rightarrow> device \<Rightarrow> pydict res" where
  "wrap_in_ids c dev = (case c of
       Battery \<Rightarrow> wrapBattery dev
     | Meter \<Rightarrow> wrapMeter dev
     | _ \<Rightarrow> Inr (wrapDevice dev (d_items dev)))"

text \<open>The names of the items for the csv output: those marked, with date and time in their place.\<close>

fun index_of :: "'a \<Rightarrow> 'a list \<Rightarrow> nat option" where
  "index_of x [] = None"
| "index_of x (y # ys) = (if x = y then Some 0 else map_option Suc (index_of x ys))"

definition insert_at :: "nat \<Rightarrow> 'a \<Rightarrow> 'a list \<Rightarrow> 'a list" where
  "insert_at i x xs = take i xs @ x # drop i xs"

definition itemNames :: "defn \<Rightarrow> derivn \<Rightarrow> string list" where
  "itemNames ds dv =
     (let names = map paramName (filter out_csv ds) @ map fst (filter (\<lambda>(n, d, out). out) dv)
      in case index_of DateTime (map outFormatFn ds) of
           Some i \<Rightarrow> insert_at i ''Date'' (insert_at i ''Time'' names)
         | None \<Rightarrow> names)"

subsection \<open>The hex dump and its inverse\<close>

abbreviation digit_char :: "char \<Rightarrow> bool" where
  "digit_char c \<equiv> c \<noteq> CHR '' '' \<and> c \<noteq> CHR ''|''"

lemma filter_hex2 [simp]: "filter digit_char (hex2 b) = hex2 b"
  using hex2_chars by (simp add: filter_id_conv)

lemma filter_hexLine: "filter digit_char (hexLine bs) = hex_encode bs"
  by (simp add: hexLine_def filter_join hex_encode_def comp_def)

lemma hex_encode_append: "hex_encode (xs @ ys) = hex_encode xs @ hex_encode ys"
  by (simp add: hex_encode_def)

lemma filter_hexLines: "concat (map (filter digit_char) (hexLines data p)) = hex_encode (drop p data)"
proof (induction data p rule: hexLines.induct)
  case (1 data p)
  have "drop p data = take 16 (drop p data) @ drop (p + 16) data"
    by (metis add.commute append_take_drop_id drop_drop)
  then have "hex_encode (drop p data) = hex_encode (slice p (p + 16) data) @ hex_encode (drop (p + 16) data)"
    by (simp add: slice_def flip: hex_encode_append)
  then show ?case
    using 1 by (auto simp: hexLines.simps [of data p] filter_hexLine hex_encode_def)
qed

text \<open>
  \<open>unhexData\<close> restores the bytes from the hex dump \<open>hexData\<close> prints of them.
\<close>

theorem unhexData_hexData: "unhexData (hexData data) = Inr data"
proof -
  have "remove_char (CHR '' '') (remove_char (CHR ''|'') s) = filter digit_char s" for s
    by (simp add: remove_char_def conj_commute)
  moreover have "filter digit_char (hexData data) = hex_encode data"
    using filter_hexLines [of data 0] by (auto simp: hexData_def filter_join hex_encode_def)
  ultimately show ?thesis by (simp add: unhexData_def unhexlify_hex_encode)
qed

subsection \<open>Parsing as a list of assignments\<close>

text \<open>
  The fields are stored one assignment after the other and none reads the dictionary, so parsing
  is an update with a list of assignments that does not depend on the dictionary.
\<close>

definition fieldPuts1 :: "clock \<Rightarrow> item \<Rightarrow> pyval \<Rightarrow> pydict res" where
  "fieldPuts1 lt it v = (case outFormatFn it of
       NoFn \<Rightarrow> Inr [(KS (paramName it), v)]
     | DateTime \<Rightarrow>
         (let (d, t) = (case v of PInt ts \<Rightarrow> (devDateStamp lt ts, devTimeStamp lt ts) | _ \<Rightarrow> (''invalid'', ''invalid''))
          in Inr [(KS (paramName it), v), (KS ''Date'', PStr d), (KS ''Time'', PStr t)])
     | HexFn \<Rightarrow>
         (case v of PBytes b \<Rightarrow> Inr [(KS (paramName it), v), (KS (paramName it), PStr (hexData b))]
          | _ \<Rightarrow> Inl TypeError))"

fun fieldPuts :: "clock \<Rightarrow> bytes \<Rightarrow> defn \<Rightarrow> nat \<Rightarrow> pydict res" where
  "fieldPuts lt data [] p = Inr []"
| "fieldPuts lt data (it # its) p =
     rbind (parseField data p it) (\<lambda>v. rbind (fieldPuts1 lt it v) (\<lambda>kvs.
       rbind (fieldPuts lt data its (p + paramLen it)) (\<lambda>rest. Inr (kvs @ rest))))"

lemma formatField_puts:
  "formatField lt it v (dput (KS (paramName it)) v self) = rbind (fieldPuts1 lt it v) (\<lambda>kvs. Inr (dupdate kvs self))"
  by (auto simp: formatField_def fieldPuts1_def dupdate_Cons split: outfn.splits pyval.splits)

lemma parseFields_puts:
  "parseFields lt data its p self = rbind (fieldPuts lt data its p) (\<lambda>kvs. Inr (dupdate kvs self))"
proof (induction its arbitrary: p self)
  case (Cons it its)
  show ?case
    by (cases "parseField data p it"; cases "fieldPuts1 lt it (projr (parseField data p it))";
        cases "fieldPuts lt data its (p + paramLen it)")
      (simp_all add: Cons formatField_puts dupdate_append)
qed simp

definition hdrPuts :: "string \<Rightarrow> int \<Rightarrow> int \<Rightarrow> int \<Rightarrow> pydict" where
  "hdrPuts devName seType seId devLen =
     [(KS ''seType'', PStr (hex06 seType)), (KS ''seId'', PStr (parseId seId)),
      (KS ''devLen'', PInt devLen), (KS ''devType'', PStr (devName @ ''_'' @ hex06 seType))]"

text \<open>The definition after a block of a given length: whatever is left over becomes one more field.\<close>

definition extended :: "defn \<Rightarrow> int \<Rightarrow> defn" where
  "extended ds devLen =
     (if int (defnLen ds) < devLen then ds @ [undeciphered (nat devLen - defnLen ds)] else ds)"

lemma defnLen_append [simp]: "defnLen (xs @ ys) = defnLen xs + defnLen ys"
  by (simp add: defnLen_def)

lemma defnLen_undeciphered [simp]: "defnLen [undeciphered n] = n"
  by (simp add: defnLen_def undeciphered_def)

lemma defnLen_extended: "int (defnLen ds) \<le> devLen \<Longrightarrow> int (defnLen (extended ds devLen)) = devLen"
  by (auto simp: extended_def)

lemma extended_extended: "int (defnLen ds) \<le> devLen \<Longrightarrow> extended (extended ds devLen) devLen = extended ds devLen"
  using defnLen_extended [of ds devLen] by (simp add: extended_def [of "extended ds devLen"])

lemma parseDevTable_puts:
  assumes "unpackHdr (slice 0 devHdrLen data) = Inr (seType, seId, devLen)"
  shows "parseDevTable lt devName data ds self =
    (if devLen < int (defnLen ds) then (ds, Inl ValueError)
     else (extended ds devLen,
           rbind (fieldPuts lt data (extended ds devLen) devHdrLen) (\<lambda>kvs.
             Inr \<lparr>d_items = dupdate (hdrPuts devName seType seId devLen @ kvs) self,
                  d_seId = KS (parseId seId), d_devType = devName @ ''_'' @ hex06 seType\<rparr>)))"
  using assms
  by (simp add: parseDevTable_def hdrPuts_def parseFields_puts rbind_assoc Let_def extended_def dupdate_append dupdate_Cons)

lemma parseDevTable_hdr_error:
  "unpackHdr (slice 0 devHdrLen data) = Inl e \<Longrightarrow> parseDevTable lt devName data ds self = (ds, Inl e)"
  by (simp add: parseDevTable_def)

text \<open>
  Running \<open>deviceInit\<close> a second time on its own result changes nothing, provided the derivations
  only replace stored items.
\<close>

definition replaces :: "(pydict \<Rightarrow> pydict res) \<Rightarrow> bool" where
  "replaces f \<longleftrightarrow> (\<forall>d d'. f d = Inr d' \<longrightarrow> d' = d \<or> (\<exists>k v. k \<in> set (dkeys d) \<and> d' = dput k v d))"

lemma dupdate_replaces:
  "replaces f \<Longrightarrow> f (dupdate kvs []) = Inr d \<Longrightarrow> dupdate kvs d = dupdate kvs []"
  unfolding replaces_def using dupdate_idem [of "[]" kvs] dupdate_absorb [of "[]" _ kvs]
  by (fastforce simp: set_dkeys_dupdate)

lemma deviceInit_twice:
  assumes "replaces f"
  shows "initTwice (deviceInit lt devName f hyps data) ds = deviceInit lt devName f hyps data ds []"
proof (cases "unpackHdr (slice 0 devHdrLen data)")
  case (Inl e)
  then show ?thesis by (simp add: initTwice_def deviceInit_def parseDevTable_hdr_error)
next
  case (Inr h)
  obtain seType seId devLen where h: "h = (seType, seId, devLen)" by (cases h)
  note P = parseDevTable_puts [OF Inr [unfolded h]]
  show ?thesis
  proof (cases "devLen < int (defnLen ds)")
    case False
    let ?k = "rbind (fieldPuts lt data (extended ds devLen) devHdrLen)"
    let ?q = "\<lambda>kvs. hdrPuts devName seType seId devLen @ kvs"
    have ds2: "\<not> devLen < int (defnLen (extended ds devLen))" "extended (extended ds devLen) devLen = extended ds devLen"
      using False defnLen_extended [of ds devLen] extended_extended [of ds devLen] by simp_all
    show ?thesis
    proof (cases "deviceInit lt devName f hyps data ds []")
      case (Pair ds1 r)
      show ?thesis
      proof (cases r)
        case (Inr dev)
        obtain kvs items ws where k: "fieldPuts lt data (extended ds devLen) devHdrLen = Inr kvs"
            "f (dupdate (?q kvs) []) = Inr items" "checkHypotheses hyps items = Inr ws" "items = d_items dev"
          using Pair False unfolding Inr
          by (auto simp: deviceInit_def P setDerivationDefaults_def res_simps Let_def)
        have ds1: "ds1 = extended ds devLen" using Pair False by (simp add: deviceInit_def P Let_def)
        have "dupdate (?q kvs) (d_items dev) = dupdate (?q kvs) []"
          using k(2,4) assms dupdate_replaces by blast
        then have "deviceInit lt devName f hyps data ds1 (d_items dev) = deviceInit lt devName f hyps data ds []"
          using False by (simp add: deviceInit_def P ds1 ds2 k(1) Let_def)
        then show ?thesis by (simp add: initTwice_def Pair Inr)
      qed (simp add: initTwice_def Pair)
    qed
  qed (simp add: initTwice_def deviceInit_def P Let_def)
qed

lemma meterDerivations_replaces: "replaces meterDerivations"
  by (auto simp: replaces_def meterDerivations_def res_simps dlookup_def pd.keys_get split: if_splits option.splits)

text \<open>
  Python constructs a battery or a meter twice, once in \<^verbatim>\<open>__new__\<close> and once after it; on every
  input the class definition, the dictionary and the exceptions are those of a single construction.
\<close>

theorem construction_is_single:
  "initTwice (batteryInit lt data) ds = batteryInit lt data ds [] \<and>
   initTwice (meterInit lt data) ds = meterInit lt data ds []"
proof -
  have "replaces Inr" by (simp add: replaces_def)
  then show ?thesis
    by (simp add: batteryInit_def meterInit_def deviceInit_twice meterDerivations_replaces)
qed

subsection \<open>The class definitions only grow\<close>

lemma fst_deviceInit:
  "fst (deviceInit lt devName f hyps data ds self) =
     (case unpackHdr (slice 0 devHdrLen data) of
        Inr (seType, seId, devLen) \<Rightarrow> extended ds devLen
      | Inl e \<Rightarrow> ds)"
  by (auto simp: deviceInit_def parseDevTable_hdr_error parseDevTable_puts Let_def extended_def split: sum.splits)

lemma snd_deviceInit_short:
  assumes "unpackHdr (slice 0 devHdrLen data) = Inr (seType, seId, devLen)" "devLen < int (defnLen ds)"
  shows "snd (deviceInit lt devName f hyps data ds self) = Inl ValueError"
  using assms by (simp add: deviceInit_def parseDevTable_puts Let_def)

lemma newDevice_known:
  assumes "unpackHdr (slice 0 devHdrLen data) = Inr (seType, seId, devLen)"
  shows "seType = 0x0030 \<Longrightarrow> newDevice lt data explorer cs =
      (case batteryInit lt data (battery_defn cs) [] of
         (ds, r) \<Rightarrow> (cs\<lparr>battery_defn := ds\<rparr>, rbind r (\<lambda>dev. Inr (Battery, dev))))"
    and "seType = 0x0022 \<Longrightarrow> newDevice lt data explorer cs =
      (case meterInit lt data (meter_defn cs) [] of
         (ds, r) \<Rightarrow> (cs\<lparr>meter_defn := ds\<rparr>, rbind r (\<lambda>dev. Inr (Meter, dev))))"
  using assms deviceInit_twice [of Inr] deviceInit_twice [OF meterDerivations_replaces]
  by (simp_all add: newDevice_def class_of_def batteryInit_def meterInit_def replaces_def)

text \<open>
  The parser keeps the longest layout it has met: after a battery or meter block of some length,
  whether or not it could be parsed, every shorter block of the same kind raises \<^verbatim>\<open>ValueError\<close>,
  because the first one appended a field to the definition the class shares.
\<close>

theorem overlong_block_sticks:
  assumes "unpackHdr (slice 0 devHdrLen first) = Inr (seType, seId1, len1)"
    and "unpackHdr (slice 0 devHdrLen second) = Inr (seType, seId2, len2)"
    and "seType = 0x0030 \<or> seType = 0x0022" and "len2 < len1"
  shows "snd (newDevice lt second False (fst (newDevice lt first False cs))) = Inl ValueError"
proof -
  have grow: "len2 < int (defnLen (fst (deviceInit lt n f h first ds [])))" for n f h ds
    using assms(1,4) by (simp add: fst_deviceInit extended_def)
  note short = snd_deviceInit_short [OF assms(2) grow]
  from assms(3) show ?thesis
  proof
    assume "seType = 0x0030"
    then show ?thesis
      using short by (simp add: newDevice_known [OF assms(1)] newDevice_known [OF assms(2)] batteryInit_def
          split_beta)
  next
    assume "seType = 0x0022"
    then show ?thesis
      using short by (simp add: newDevice_known [OF assms(1)] newDevice_known [OF assms(2)] meterInit_def
          split_beta)
  qed
qed

text \<open>A class definition is its table followed by the fields appended for undeciphered data.\<close>

definition grown :: "defn \<Rightarrow> defn \<Rightarrow> bool" where
  "grown tbl ds \<longleftrightarrow> take (length tbl) ds = tbl \<and> length tbl \<le> length ds \<and>
     list_all (\<lambda>it. it = undeciphered (paramLen it) \<and> 0 < paramLen it) (drop (length tbl) ds)"

definition classes_ok :: "classes \<Rightarrow> bool" where
  "classes_ok cs \<longleftrightarrow> grown battery_table (battery_defn cs) \<and> grown meter_table (meter_defn cs)"

lemma grown_extended: "grown tbl ds \<Longrightarrow> grown tbl (extended ds n)"
  by (auto simp: grown_def extended_def undeciphered_def)

lemma classes_ok_initial: "classes_ok initial_classes"
  by (simp add: classes_ok_def initial_classes_def grown_def)

lemma newDevice_classes_ok:
  assumes "classes_ok cs"
  shows "classes_ok (fst (newDevice lt data explorer cs))"
proof (cases "unpackHdr (slice 0 devHdrLen data)")
  case (Inr h)
  obtain seType seId devLen where h: "h = (seType, seId, devLen)" by (cases h)
  note H = Inr [unfolded h]
  consider "seType = 0x0030" | "seType = 0x0022" | "seType \<noteq> 0x0030" "seType \<noteq> 0x0022" by blast
  then show ?thesis
  proof cases
    case 1
    with H assms show ?thesis
      using fst_deviceInit [of lt "''batteries''" Inr battery_hypotheses data "battery_defn cs" "[]"]
      by (auto simp: newDevice_known(1) [OF H] batteryInit_def classes_ok_def grown_extended split: prod.splits)
  next
    case 2
    with H assms show ?thesis
      using fst_deviceInit [of lt "''meters''" meterDerivations meter_hypotheses data "meter_defn cs" "[]"]
      by (auto simp: newDevice_known(2) [OF H] meterInit_def classes_ok_def grown_extended split: prod.splits)
  next
    case 3
    with H assms show ?thesis
      by (auto simp: newDevice_def class_of_def classes_ok_def Let_def split: prod.splits)
  qed
qed (use assms in \<open>simp add: newDevice_def\<close>)

end
