(* ===== verification/Merging.thy ===== *)
theory Merging
  imports PyVal
begin

text \<open>
  \<^verbatim>\<open>merge_update\<close> of \<^verbatim>\<open>se/datadevices.py\<close>, which merges one nested dictionary into another.  The
  first dictionary is returned updated; an exception leaves no result.
\<close>

fun merge_value :: "pyval option \<Rightarrow> pyval \<Rightarrow> pyval res" and merge_update :: "pydict \<Rightarrow> pydict \<Rightarrow> pydict res" where
  "merge_value None v2 = Inr v2"
| "merge_value (Some v1) (PDict d2) =
     (case v1 of
        PDict d1 \<Rightarrow> rbind (merge_update d1 d2) (\<lambda>d. Inr (PDict d))
      | _ \<Rightarrow> if d2 = [] then Inr v1 else Inl AttributeError)"
| "merge_value (Some v1) v2 = Inr (if pyeq v1 v2 then v1 else v2)"
| "merge_update d1 [] = Inr d1"
| "merge_update d1 ((k2, v2) # rest) =
     rbind (merge_value (dget d1 k2) v2) (\<lambda>v. merge_update (dput k2 v d1) rest)"

subsection \<open>Lookups after a merge\<close>

lemma dget_Cons: "dget ((k, v) # d) k' = (if k' = k then Some v else dget d k')"
  by (simp add: dget_def)

lemma merge_update_wf: "merge_update d1 d2 = Inr d \<Longrightarrow> dwf d1 \<Longrightarrow> dwf d"
proof (induction d2 arbitrary: d1)
  case (Cons kv d2)
  then show ?case by (cases kv) (auto simp: res_simps)
qed simp

text \<open>
  After a merge every key of the second dictionary holds the merge of its two values (the new
  one where there was none, a merged dictionary for two dictionaries, the second value for scalars
  that differ), and every other key holds its old value.
\<close>

theorem merge_update_get:
  assumes "merge_update d1 d2 = Inr d" and "dwf d2"
  shows "case dget d2 k of
           None \<Rightarrow> dget d k = dget d1 k
         | Some v2 \<Rightarrow> \<exists>v. merge_value (dget d1 k) v2 = Inr v \<and> dget d k = Some v"
  using assms
proof (induction d2 arbitrary: d1)
  case (Cons kv d2)
  obtain k2 v2 where kv: "kv = (k2, v2)" by (cases kv)
  obtain v where v: "merge_value (dget d1 k2) v2 = Inr v" and rest: "merge_update (dput k2 v d1) d2 = Inr d"
    using Cons.prems(1) by (auto simp: kv res_simps)
  have wf: "dwf d2" "dget d2 k2 = None"
    using Cons.prems(2) by (auto simp: kv dwf_def dget_def map_of_eq_None_iff)
  show ?case
    using Cons.IH [OF rest wf(1)] wf(2) v by (cases "k = k2") (auto simp: kv dget_Cons split: option.splits)
qed simp

theorem merge_update_get_witness:
  "dget [(KS ''a'', PInt 1), (KS ''b'', PInt 3)] (KS ''b'') = Some (PInt 3)"
proof -
  have "merge_update [(KS ''a'', PInt 1), (KS ''b'', PInt 2)] [(KS ''b'', PInt 3)]
      = Inr [(KS ''a'', PInt 1), (KS ''b'', PInt 3)]"
    by (simp add: dget_def dput_def)
  from merge_update_get [OF this, of "KS ''b''"] show ?thesis
    by (simp add: dwf_def dget_def)
qed

text \<open>The value found by following a list of keys.\<close>

fun path_get :: "pykey list \<Rightarrow> pyval \<Rightarrow> pyval option" where
  "path_get [] v = Some v"
| "path_get (k # ks) (PDict d) = (case dget d k of None \<Rightarrow> None | Some v \<Rightarrow> path_get ks v)"
| "path_get (k # ks) _ = None"

text \<open>A dictionary wrapped in identifiers.\<close>

fun nest :: "pykey list \<Rightarrow> pydict \<Rightarrow> pydict" where
  "nest [] d = d"
| "nest (k # ks) d = [(k, PDict (nest ks d))]"

lemma path_get_nest: "path_get ks (PDict (nest ks d)) = Some (PDict d)"
  by (induction ks) (auto simp: dget_Cons)

text \<open>\<open>room ks d\<close>: nothing stands at the path, nor in place of a dictionary on the way to it.\<close>

fun room :: "pykey list \<Rightarrow> pydict \<Rightarrow> bool" where
  "room [] d = False"
| "room (k # ks) d = (case dget d k of None \<Rightarrow> True | Some (PDict d') \<Rightarrow> room ks d' | Some _ \<Rightarrow> False)"

lemma merge_nest_ok: "room ks d1 \<Longrightarrow> \<exists>d. merge_update d1 (nest ks items) = Inr d"
proof (induction ks arbitrary: d1)
  case (Cons k ks)
  show ?case
  proof (cases "dget d1 k")
    case (Some v)
    then obtain d' where "v = PDict d'" "room ks d'" using Cons.prems by (cases v) auto
    with Cons.IH [of d'] Some show ?thesis by auto
  qed simp
qed simp

lemma merge_nest_path:
  "room ks d1 \<Longrightarrow> merge_update d1 (nest ks items) = Inr d \<Longrightarrow> path_get ks (PDict d) = Some (PDict items)"
proof (induction ks arbitrary: d1 d)
  case (Cons k ks)
  show ?case
  proof (cases "dget d1 k")
    case None
    then show ?thesis using Cons.prems by (auto simp: path_get_nest)
  next
    case (Some v)
    then obtain d' where "v = PDict d'" "room ks d'" using Cons.prems by (cases v) auto
    then show ?thesis using Cons.prems Cons.IH [of d'] Some by (auto simp: res_simps)
  qed
qed simp

text \<open>Two paths are apart when neither continues the other.\<close>

fun apart :: "'a list \<Rightarrow> 'a list \<Rightarrow> bool" where
  "apart (x # xs) (y # ys) = (if x = y then apart xs ys else True)"
| "apart _ _ = False"

lemma path_get_nest_apart: "apart ks ks' \<Longrightarrow> path_get ks' (PDict (nest ks d)) = None"
  by (induction ks ks' rule: apart.induct) (auto simp: dget_Cons)

lemma merge_nest_other:
  "merge_update d1 (nest ks items) = Inr d \<Longrightarrow> apart ks ks' \<Longrightarrow>
     path_get ks' (PDict d) = path_get ks' (PDict d1)"
proof (induction ks ks' arbitrary: d1 d rule: apart.induct)
  case (1 k ks k' ks')
  obtain v where v: "merge_value (dget d1 k) (PDict (nest ks items)) = Inr v" and d: "d = dput k v d1"
    using 1(2) by (auto simp: res_simps)
  show ?case
  proof (cases "k = k'")
    case True
    then have ap: "apart ks ks'" using 1(3) by simp
    have "path_get ks' v = (case dget d1 k of None \<Rightarrow> None | Some v1 \<Rightarrow> path_get ks' v1)"
    proof (cases "dget d1 k")
      case None
      then have "v = PDict (nest ks items)" using v by simp
      then show ?thesis using None path_get_nest_apart [OF ap] by simp
    next
      case (Some v1)
      then show ?thesis
        using v 1(1) [OF True _ ap] ap
        by (cases v1) (auto simp: res_simps split: if_splits)
    qed
    then show ?thesis using True by (simp add: d)
  qed (simp add: d)
qed auto

text \<open>
  Merging a block under its identifiers into the collected dictionary loses nothing: where no
  value stands on the path of its identifiers the merge succeeds, the block is found at its path,
  and every path apart from it leads where it led before.
\<close>

theorem merge_update_keeps_devices:
  assumes "room ks devs"
  shows "\<exists>devs'. merge_update devs (nest ks items) = Inr devs' \<and>
    path_get ks (PDict devs') = Some (PDict items) \<and>
    (\<forall>ks'. apart ks ks' \<longrightarrow> path_get ks' (PDict devs') = path_get ks' (PDict devs))"
  using merge_nest_ok [OF assms] merge_nest_path [OF assms] merge_nest_other by metis

theorem merge_update_keeps_devices_witness:
  "\<exists>devs'. merge_update [(KS ''a'', PDict [(KS ''1'', PDict [])])] (nest [KS ''a'', KS ''2''] [(KS ''x'', PInt 1)]) = Inr devs' \<and>
    path_get [KS ''a'', KS ''2''] (PDict devs') = Some (PDict [(KS ''x'', PInt 1)]) \<and>
    path_get [KS ''a'', KS ''1''] (PDict devs') = Some (PDict [])"
proof -
  have "room [KS ''a'', KS ''2''] [(KS ''a'', PDict [(KS ''1'', PDict [])])]" by (simp add: dget_def)
  from merge_update_keeps_devices [OF this, of "[(KS ''x'', PInt 1)]"] obtain devs' where
    d: "merge_update [(KS ''a'', PDict [(KS ''1'', PDict [])])] (nest [KS ''a'', KS ''2''] [(KS ''x'', PInt 1)]) = Inr devs'"
      "path_get [KS ''a'', KS ''2''] (PDict devs') = Some (PDict [(KS ''x'', PInt 1)])"
    and other: "\<forall>ks'. apart [KS ''a'', KS ''2''] ks' \<longrightarrow>
      path_get ks' (PDict devs') = path_get ks' (PDict [(KS ''a'', PDict [(KS ''1'', PDict [])])])"
    by blast
  have "path_get [KS ''a'', KS ''1''] (PDict devs') = Some (PDict [])"
    using other [rule_format, of "[KS ''a'', KS ''1'']"] by (simp add: dget_def)
  with d show ?thesis by blast
qed

text \<open>
  A merge overwrites a scalar that differs, although the docstring says that only new elements are
  merged in.
\<close>

lemma merge_update_overwrites:
  "dget devs k = Some (PInt old) \<Longrightarrow> merge_update devs [(k, PInt new)] = Inr (dput k (PInt new) devs)"
  by auto

end
