(* ===== verification/Blocks.thy ===== *)
theory Blocks
  imports DataParams Devices Merging
begin

text \<open>
  The payload of a performance data message, from \<^verbatim>\<open>se/data.py\<close>: \<open>parseDeviceData\<close> walks the
  device blocks and collects one dictionary per device.  The local clock is the argument \<open>lt\<close>, the
  device classes the state \<open>classes\<close>.  Log output is left out.
\<close>

subsection \<open>Device blocks\<close>

text \<open>\<^verbatim>\<open>devDict[itemNames[i]] = itemValues[i - 2]\<close> for the positions of a range\<close>

fun putItems :: "string list \<Rightarrow> pyval list \<Rightarrow> nat list \<Rightarrow> pydict \<Rightarrow> pydict res" where
  "putItems names vals [] d = Inr d"
| "putItems names vals (i # is) d =
     rbind (py_index vals (i - 2)) (\<lambda>v. rbind (py_index names i) (\<lambda>n.
       putItems names vals is (dput (KS n) v d)))"

definition stamps :: "clock \<Rightarrow> pyval \<Rightarrow> (string \<times> string) res" where
  "stamps lt v = (case v of
       PInt ts \<Rightarrow> rbind (formatDateStamp lt ts) (\<lambda>d. rbind (formatTimeStamp lt ts) (\<lambda>t. Inr (d, t)))
     | _ \<Rightarrow> Inl TypeError)"

definition devDataDict :: "clock \<Rightarrow> string \<Rightarrow> string list \<Rightarrow> pyval list \<Rightarrow> pydict res" where
  "devDataDict lt seId names itemValues =
     rbind (py_index itemValues 0) (\<lambda>v0.
       let (d, t) = (case stamps lt v0 of Inr dt \<Rightarrow> dt | Inl ex \<Rightarrow> (''invalid'', ''invalid''))
       in putItems names itemValues [3..<length names]
            (dupdate [field_of ''Date'' (PStr d), field_of ''Time'' (PStr t), field_of ''ID'' (PStr seId)] []))"

text \<open>\<^verbatim>\<open>[struct.unpack(fmt, devData)[i] for i in idx]\<close>\<close>

definition selectFields :: "field list \<Rightarrow> bytes \<Rightarrow> nat list \<Rightarrow> pyval list res" where
  "selectFields fs devData idx = rmap (\<lambda>i. rbind (unpack LE fs devData) (\<lambda>vs. py_index vs i)) idx"

definition int_value :: "pyval \<Rightarrow> int res" where
  "int_value v = (case v of PInt i \<Rightarrow> Inr i | _ \<Rightarrow> Inl TypeError)"

text \<open>Replace the item at a position by its formatted date.\<close>

definition dateTimeAt :: "clock \<Rightarrow> nat \<Rightarrow> pyval list \<Rightarrow> pyval list res" where
  "dateTimeAt lt i vs = rbind (py_index vs i) (\<lambda>v. rbind (int_value v) (\<lambda>ts.
     rbind (formatDateTime lt ts) (\<lambda>s. Inr (vs[i := PStr s]))))"

definition parseEventData :: "clock \<Rightarrow> string \<Rightarrow> string list \<Rightarrow> bytes \<Rightarrow> pydict res" where
  "parseEventData lt seId items devData =
     rbind (selectFields eventInFmt (slice 0 invInFmtLen devData) eventIdx) (\<lambda>ev.
       rbind (dateTimeAt lt 2 ev) (\<lambda>ev1. rbind (py_index ev1 1) (\<lambda>kind.
         rbind (if pyeq kind (PInt 0) then dateTimeAt lt 3 ev1 else dateTimeAt lt 4 ev1) (\<lambda>ev2.
           devDataDict lt seId items ev2))))"

definition parseInvData :: "clock \<Rightarrow> string \<Rightarrow> string list \<Rightarrow> bytes \<Rightarrow> pydict res" where
  "parseInvData lt seId items devData =
     rbind (selectFields invInFmt (slice 0 invInFmtLen devData) invIdx) (devDataDict lt seId items)"

definition parseInv3PhData :: "clock \<Rightarrow> string \<Rightarrow> string list \<Rightarrow> bytes \<Rightarrow> pydict res" where
  "parseInv3PhData lt seId items devData =
     rbind (selectFields inv3PhInFmt (slice 0 inv3PhInFmtLen devData) inv3PhIdx) (devDataDict lt seId items)"

definition parseOptData :: "clock \<Rightarrow> string \<Rightarrow> string list \<Rightarrow> bytes \<Rightarrow> pydict res" where
  "parseOptData lt seId items devData =
     rbind (selectFields optInFmt (slice 0 optInFmtLen devData) optIdx) (\<lambda>vs.
       rbind (py_index vs 1) (\<lambda>v. rbind (int_value v) (\<lambda>inverter.
         devDataDict lt seId items (vs[1 := PStr (parseId inverter)]))))"

text \<open>The packed voltages and current: 10, 10 and 12 bits in the bytes 6 to 9.\<close>

definition byte_at :: "bytes \<Rightarrow> nat \<Rightarrow> int res" where
  "byte_at data i = rbind (py_index data i) (\<lambda>b. Inr (uint b))"

definition vpan_bits :: "int \<Rightarrow> int \<Rightarrow> int" where
  "vpan_bits d6 d7 = d6 OR (push_bit 8 d7 AND 0x300)"

definition vopt_bits :: "int \<Rightarrow> int \<Rightarrow> int" where
  "vopt_bits d7 d8 = drop_bit 2 d7 OR (push_bit 6 d8 AND 0x3c0)"

definition imod_bits :: "int \<Rightarrow> int \<Rightarrow> int" where
  "imod_bits d8 d9 = push_bit 4 d9 OR (drop_bit 4 d8 AND 0xf)"

definition eighth :: pyfloat where "eighth = Fin (1 / 8)"
definition quarter :: pyfloat where "quarter = Fin (1 / 4)"

text \<open>The literal 0.00625 is rounded to a double.\<close>

definition sixteenth_dA :: pyfloat where "sixteenth_dA = fl (625 / 100000)"

definition scaled :: "pyfloat \<Rightarrow> int \<Rightarrow> pyval" where
  "scaled x n = PFloat (fmul x (float_of_int n))"

definition optElectrical :: "bytes \<Rightarrow> (int \<times> int \<times> pyval \<times> pyval \<times> pyval) res" where
  "optElectrical devData =
     rbind (unpack_ints LE [CL, CH] (slice 0 6 devData)) (\<lambda>vs. case vs of
       [timeStamp, uptime] \<Rightarrow>
         rbind (byte_at devData 6) (\<lambda>d6. rbind (byte_at devData 7) (\<lambda>d7.
           rbind (byte_at devData 8) (\<lambda>d8. rbind (byte_at devData 9) (\<lambda>d9.
             Inr (timeStamp, uptime, scaled eighth (vpan_bits d6 d7), scaled eighth (vopt_bits d7 d8),
                  scaled sixteenth_dA (imod_bits d8 d9))))))
     | _ \<Rightarrow> Inl ValueError)"

definition parseNewOptData :: "clock \<Rightarrow> string \<Rightarrow> string list \<Rightarrow> bytes \<Rightarrow> pydict res" where
  "parseNewOptData lt seId items devData =
     rbind (optElectrical devData) (\<lambda>(timeStamp, uptime, vpan, vopt, imod).
       rbind (byte_at devData 11) (\<lambda>d11. rbind (byte_at devData 10) (\<lambda>d10.
         let eday = scaled quarter (push_bit 8 d11 OR d10)
         in rbind (unpack_ints LE [Cb] (slice 12 13 devData)) (\<lambda>ts. rbind (py_index ts 0) (\<lambda>t.
              devDataDict lt seId items
                [PInt timeStamp, PInt 0, PInt uptime, vpan, vopt, imod, eday, scaled (Fin 2) t])))))"

definition parseS440OptData :: "clock \<Rightarrow> string \<Rightarrow> string list \<Rightarrow> bytes \<Rightarrow> pydict res" where
  "parseS440OptData lt seId items devData =
     rbind (optElectrical devData) (\<lambda>(timeStamp, uptime, vpan, vopt, imod).
       devDataDict lt seId items
         [PInt timeStamp, PInt 0, PInt uptime, vpan, vopt, imod, PInt 0, PInt 0])"

subsection \<open>A performance data message\<close>

record parsed_devs =
  invDict :: pydict
  optDict :: pydict
  eventDict :: pydict
  devsDict :: pydict

definition no_devs :: parsed_devs where
  "no_devs = \<lparr>invDict = [], optDict = [], eventDict = [], devsDict = []\<rparr>"

text \<open>
  The inverter sometimes sends its "not a number" in the opposite byte order; \<^verbatim>\<open>Pmax\<close> is
  corrected in the dictionary just stored.
\<close>

definition fixPmax :: "pydict \<Rightarrow> pydict res" where
  "fixPmax d = rbind (dlookup d (KS ''Pmax'')) (\<lambda>v. rbind (not_reported v) (\<lambda>b.
     Inr (if b then dput (KS ''Pmax'') (PFloat NaN) d else d)))"

text \<open>
  One device block: \<open>blk\<close> is the data after the header, \<open>whole\<close> the block with its header.
\<close>

definition parseBlock ::
    "clock \<Rightarrow> int \<Rightarrow> string \<Rightarrow> bytes \<Rightarrow> bytes \<Rightarrow> parsed_devs \<Rightarrow> classes \<Rightarrow> classes \<times> parsed_devs res" where
  "parseBlock lt seType seId blk whole acc cs =
     (let opt = (\<lambda>d. acc\<lparr>optDict := dput (KS seId) (PDict d) (optDict acc)\<rparr>);
          inv = (\<lambda>d. acc\<lparr>invDict := dput (KS seId) (PDict d) (invDict acc)\<rparr>);
          event = (\<lambda>d. acc\<lparr>eventDict := dput (KS seId) (PDict d) (eventDict acc)\<rparr>)
      in if seType = 0x0000 then (cs, rbind (parseOptData lt seId optItems blk) (\<lambda>d. Inr (opt d)))
         else if seType = 0x0080 then (cs, rbind (parseNewOptData lt seId optItems blk) (\<lambda>d. Inr (opt d)))
         else if seType = 0x0082 then (cs, rbind (parseS440OptData lt seId optItems blk) (\<lambda>d. Inr (opt d)))
         else if seType = 0x0010 then
           (cs, rbind (parseInvData lt seId invItems blk) (\<lambda>d. rbind (fixPmax d) (\<lambda>d'. Inr (inv d'))))
         else if seType = 0x0011 then (cs, rbind (parseInv3PhData lt seId inv3PhItems blk) (\<lambda>d. Inr (inv d)))
         else if seType = 0x0300 then (cs, rbind (parseEventData lt seId eventItems blk) (\<lambda>d. Inr (event d)))
         else (case newDevice lt whole False cs of
             (cs', Inl e) \<Rightarrow> (cs', Inl e)
           | (cs', Inr (c, dev)) \<Rightarrow>
               (cs', rbind (wrap_in_ids c dev) (\<lambda>w. rbind (merge_update (devsDict acc) w) (\<lambda>m.
                  Inr (acc\<lparr>devsDict := m\<rparr>))))))"

function parseBlocks ::
    "clock \<Rightarrow> bytes \<Rightarrow> nat \<Rightarrow> parsed_devs \<Rightarrow> classes \<Rightarrow> classes \<times> parsed_devs res" where
  "parseBlocks lt data dataPtr acc cs =
     (if dataPtr < length data then
        case unpackHdr (slice dataPtr (dataPtr + devHdrLen) data) of
          Inl e \<Rightarrow> (cs, Inl e)
        | Inr (seType, seId, devLen) \<Rightarrow>
            let ptr = dataPtr + devHdrLen; end = ptr + nat devLen
            in case parseBlock lt seType (parseId seId) (slice ptr end data)
                      (slice (ptr - devHdrLen) end data) acc cs of
                 (cs', Inl e) \<Rightarrow> (cs', Inl e)
               | (cs', Inr acc') \<Rightarrow> parseBlocks lt data end acc' cs'
      else (cs, Inr acc))"
  by pat_completeness auto
termination
  by (relation "measure (\<lambda>(lt, data, dataPtr, acc, cs). length data - dataPtr)")
    (auto simp: devHdrLen_def)

declare parseBlocks.simps [simp del]

definition parseDeviceData :: "clock \<Rightarrow> bytes \<Rightarrow> classes \<Rightarrow> classes \<times> pyval res" where
  "parseDeviceData lt data cs =
     (case parseBlocks lt data 0 no_devs cs of
        (cs', r) \<Rightarrow> (cs', rbind r (\<lambda>devs.
          Inr (PDict (dupdate [field_of ''inverters'' (PDict (invDict devs)),
                               field_of ''optimizers'' (PDict (optDict devs)),
                               field_of ''events'' (PDict (eventDict devs))] (devsDict devs))))))"

end
