(* ===== verification/DeviceFields.thy ===== *)
theory DeviceFields
  imports Devices
begin

text \<open>
  What the table-driven parser of \<^verbatim>\<open>se/datadevices.py\<close> stores: the value of every field at its
  offset, and the exact conditions under which a block is accepted.
\<close>

subsection \<open>The value of every field\<close>

text \<open>The value a field leaves in the dictionary.\<close>

definition shown :: "item \<Rightarrow> pyval \<Rightarrow> pyval" where
  "shown it v = (case (outFormatFn it, v) of (HexFn, PBytes b) \<Rightarrow> PStr (hexData b) | _ \<Rightarrow> v)"

lemma fieldPuts1_own:
  assumes "fieldPuts1 lt it v = Inr kvs" and "paramName it \<notin> {''Date'', ''Time''}"
  shows "map_of (rev kvs) (KS (paramName it)) = Some (shown it v)"
  using assms by (auto simp: fieldPuts1_def shown_def split: outfn.splits pyval.splits)

lemma fieldPuts1_keys:
  "fieldPuts1 lt it v = Inr kvs \<Longrightarrow> fst ` set kvs \<subseteq> {KS (paramName it), KS ''Date'', KS ''Time''}"
  by (auto simp: fieldPuts1_def split: outfn.splits pyval.splits)

lemma fieldPuts_keys:
  "fieldPuts lt data its p = Inr kvs \<Longrightarrow> fst ` set kvs \<subseteq> KS ` (paramName ` set its \<union> {''Date'', ''Time''})"
proof (induction its arbitrary: p kvs)
  case (Cons it its)
  then obtain v kvs1 rest where "parseField data p it = Inr v" "fieldPuts1 lt it v = Inr kvs1"
    "fieldPuts lt data its (p + paramLen it) = Inr rest" "kvs = kvs1 @ rest"
    by (auto simp: res_simps)
  then have "fst ` set kvs1 \<subseteq> {KS (paramName it), KS ''Date'', KS ''Time''}"
    and "fst ` set rest \<subseteq> KS ` (paramName ` set its \<union> {''Date'', ''Time''})" and "kvs = kvs1 @ rest"
    using Cons.IH fieldPuts1_keys by blast+
  then show ?case by (simp add: image_Un) blast
qed simp

definition plain_names :: "defn \<Rightarrow> bool" where
  "plain_names its \<longleftrightarrow> distinct (map paramName its) \<and> ''Date'' \<notin> paramName ` set its \<and> ''Time'' \<notin> paramName ` set its"

text \<open>Of several fields with one name the last one counts.\<close>

lemma fieldPuts_last:
  "fieldPuts lt data its p = Inr kvs \<Longrightarrow> i < length its \<Longrightarrow> paramName (its ! i) \<notin> {''Date'', ''Time''} \<Longrightarrow>
     paramName (its ! i) \<notin> paramName ` set (drop (Suc i) its) \<Longrightarrow>
     \<exists>v. parseField data (p + defnLen (take i its)) (its ! i) = Inr v
       \<and> map_of (rev kvs) (KS (paramName (its ! i))) = Some (shown (its ! i) v)"
proof (induction its arbitrary: p kvs i)
  case (Cons it its)
  then obtain v kvs1 rest where k: "parseField data p it = Inr v" "fieldPuts1 lt it v = Inr kvs1"
    "fieldPuts lt data its (p + paramLen it) = Inr rest" "kvs = kvs1 @ rest"
    by (auto simp: res_simps)
  show ?case
  proof (cases i)
    case 0
    then have names: "paramName it \<notin> {''Date'', ''Time''}" "paramName it \<notin> paramName ` set its" using Cons.prems by simp_all
    have "KS (paramName it) \<notin> fst ` set rest"
      using fieldPuts_keys [OF k(3)] names by fastforce
    then have "map_of (rev rest) (KS (paramName it)) = None" by (simp add: map_of_eq_None_iff)
    then show ?thesis
      using 0 k fieldPuts1_own [OF k(2) names(1)] by (simp add: map_add_def defnLen_def)
  next
    case (Suc j)
    then have j: "j < length its" "paramName (its ! j) \<notin> {''Date'', ''Time''}"
        "paramName (its ! j) \<notin> paramName ` set (drop (Suc j) its)"
      using Cons.prems by simp_all
    obtain w where "parseField data (p + paramLen it + defnLen (take j its)) (its ! j) = Inr w"
      "map_of (rev rest) (KS (paramName (its ! j))) = Some (shown (its ! j) w)"
      using Cons.IH [OF k(3) j] by blast
    then show ?thesis using Suc k by (simp add: defnLen_def add.assoc)
  qed
qed simp

lemma fieldPuts_value:
  assumes "fieldPuts lt data its p = Inr kvs" and "plain_names its" and "i < length its"
  shows "\<exists>v. parseField data (p + defnLen (take i its)) (its ! i) = Inr v
       \<and> map_of (rev kvs) (KS (paramName (its ! i))) = Some (shown (its ! i) v)"
proof (rule fieldPuts_last [OF assms(1,3)])
  have "paramName (its ! i) \<in> paramName ` set its" using assms(3) by simp
  then show "paramName (its ! i) \<notin> {''Date'', ''Time''}" using assms(2) by (metis plain_names_def insertE singletonD)
  have "distinct (map paramName (its ! i # drop (Suc i) its))"
    using assms(2,3) by (simp add: plain_names_def Cons_nth_drop_Suc flip: drop_map)
  then show "paramName (its ! i) \<notin> paramName ` set (drop (Suc i) its)" by simp
qed

text \<open>
  C7.  A parsed block holds, under the name of each field of its layout, the value decoded from the
  field's own bytes, those that start after the header and the lengths of the earlier fields.  Where
  several fields of the layout have one name, as the undeciphered bytes of overlong blocks of growing
  lengths have, it is the last of them whose value is held.  (The names \<^verbatim>\<open>Date\<close> and \<^verbatim>\<open>Time\<close>, which
  belong to the derived items of a time stamp and to no field of the tables, are excepted.)
\<close>

theorem parseDevTable_field:
  assumes "parseDevTable lt devName data ds [] = (ds', Inr dev)"
    and "i < length ds'" and "paramName (ds' ! i) \<notin> {''Date'', ''Time''}"
    and "paramName (ds' ! i) \<notin> paramName ` set (drop (Suc i) ds')"
  shows "\<exists>v. parseField data (devHdrLen + defnLen (take i ds')) (ds' ! i) = Inr v
    \<and> dget (d_items dev) (KS (paramName (ds' ! i))) = Some (shown (ds' ! i) v)"
proof (cases "unpackHdr (slice 0 devHdrLen data)")
  case (Inr h)
  obtain seType seId devLen where h: "h = (seType, seId, devLen)" by (cases h)
  obtain kvs where k: "fieldPuts lt data ds' devHdrLen = Inr kvs"
    and d: "d_items dev = dupdate (hdrPuts devName seType seId devLen @ kvs) []"
    using assms(1) by (auto simp: parseDevTable_puts [OF Inr [unfolded h]] res_simps split: if_splits)
  show ?thesis
    using fieldPuts_last [OF k assms(2-4)] by (auto simp: d dget_dupdate map_add_def)
qed (use assms in \<open>simp add: parseDevTable_hdr_error\<close>)

lemma unknown_example:
  fixes data :: bytes
  defines "data \<equiv> [7, 0, 1, 0, 0, 0, 6, 0, 61, 14, 0, 0, 9, 8]"
  shows "\<exists>dev. parseDevTable lt ''x'' data unknown_defn [] = (unknown_defn @ [undeciphered 2], Inr dev)"
    and "parseField data (devHdrLen + defnLen (take 1 (unknown_defn @ [undeciphered 2]))) (undeciphered 2)
      = Inr (PBytes [9, 8])"
proof -
  have hdr: "unpackHdr (slice 0 devHdrLen data) = Inr (7, 1, 6)" unfolding data_def by code_simp
  have "parseField data 8 (item 4 fL ''dateTime'' DateTime False) = Inr (PInt 3645)"
    unfolding data_def by code_simp
  then show "\<exists>dev. parseDevTable lt ''x'' data unknown_defn [] = (unknown_defn @ [undeciphered 2], Inr dev)"
    unfolding parseDevTable_puts [OF hdr]
    by (simp add: extended_def unknown_defn_def undeciphered_def defnLen_def fieldPuts1_def parseField_def devHdrLen_def)
  show "parseField data (devHdrLen + defnLen (take 1 (unknown_defn @ [undeciphered 2]))) (undeciphered 2)
      = Inr (PBytes [9, 8])"
    by (simp add: data_def unknown_defn_def undeciphered_def defnLen_def parseField_def devHdrLen_def slice_def)
qed

theorem parseDevTable_field_witness:
  "\<exists>dev. parseDevTable utc_1970_01_01 ''x'' [7, 0, 1, 0, 0, 0, 6, 0, 61, 14, 0, 0, 9, 8] unknown_defn []
      = (unknown_defn @ [undeciphered 2], Inr dev)
    \<and> dget (d_items dev) (KS ''Undeciphered_data'') = Some (PStr ''09 08'')"
proof -
  let ?data = "[7, 0, 1, 0, 0, 0, 6, 0, 61, 14, 0, 0, 9, 8] :: bytes"
  let ?ds = "unknown_defn @ [undeciphered 2]"
  obtain dev where dev: "parseDevTable utc_1970_01_01 ''x'' ?data unknown_defn [] = (?ds, Inr dev)"
    using unknown_example(1) by blast
  have ok: "1 < length ?ds" "paramName (?ds ! 1) \<notin> {''Date'', ''Time''}" "paramName (?ds ! 1) \<notin> paramName ` set (drop (Suc 1) ?ds)"
    and u: "?ds ! 1 = undeciphered 2" by (simp_all add: unknown_defn_def undeciphered_def)
  from parseDevTable_field [OF dev ok] obtain v where
    v: "parseField ?data (devHdrLen + defnLen (take 1 ?ds)) (?ds ! 1) = Inr v"
      "dget (d_items dev) (KS (paramName (?ds ! 1))) = Some (shown (?ds ! 1) v)"
    by blast
  then have "v = PBytes [9, 8]" using unknown_example(2) unfolding u by simp
  moreover have "shown (undeciphered 2) (PBytes [9, 8]) = PStr ''09 08''"
    by (simp add: shown_def undeciphered_def hexData_def hexLines.simps hexLine_def hex2_def hexdig_chars)
  moreover have "paramName (undeciphered 2) = ''Undeciphered_data''" by (simp add: undeciphered_def)
  ultimately have "dget (d_items dev) (KS ''Undeciphered_data'') = Some (PStr ''09 08'')"
    using v(2) unfolding u by simp
  then show ?thesis using dev by blast
qed

subsection \<open>Which blocks are accepted\<close>

definition item_ok :: "item \<Rightarrow> bool" where
  "item_ok it = (case paramInFmt it of
       Hex \<Rightarrow> True
     | Fmt f \<Rightarrow> paramLen it = fsize f \<and> outFormatFn it \<noteq> HexFn)"

text \<open>A raw field takes what is there; a typed field needs all its bytes, text must be valid UTF-8.\<close>

definition field_fits :: "bytes \<Rightarrow> nat \<Rightarrow> item \<Rightarrow> bool" where
  "field_fits data p it = (case paramInFmt it of
       Hex \<Rightarrow> True
     | Fmt f \<Rightarrow> (p + paramLen it \<le> length data \<or> paramLen it = 0) \<and>
         (case f of FS n \<Rightarrow> utf8_valid (map unat (slice p (p + n) data)) | _ \<Rightarrow> True))"

fun block_fits :: "bytes \<Rightarrow> defn \<Rightarrow> nat \<Rightarrow> bool" where
  "block_fits data [] p = True"
| "block_fits data (it # its) p = (field_fits data p it \<and> block_fits data its (p + paramLen it))"

lemma parseField_ok:
  assumes "item_ok it"
  shows "(\<exists>v kvs. parseField data p it = Inr v \<and> fieldPuts1 lt it v = Inr kvs) \<longleftrightarrow> field_fits data p it"
proof (cases "paramInFmt it")
  case Hex
  then show ?thesis
    by (auto simp: parseField_def fieldPuts1_def field_fits_def split: outfn.splits)
next
  case (Fmt f)
  have len: "calcsize [f] = paramLen it" and fn: "outFormatFn it \<noteq> HexFn"
    using assms Fmt by (simp_all add: item_ok_def calcsize_def)
  have puts: "\<exists>kvs. fieldPuts1 lt it v = Inr kvs" for v
    using fn by (cases "outFormatFn it") (auto simp: fieldPuts1_def split: pyval.split)
  show ?thesis
  proof (cases "p + paramLen it \<le> length data \<or> paramLen it = 0")
    case True
    then have "length (slice p (p + paramLen it) data) = calcsize [f]" using len by auto
    then show ?thesis
      using True Fmt puts
      by (cases f) (auto simp: parseField_def field_fits_def unpack_def py_index_def dec_any_def decode_utf8_def
          calcsize_def Let_def item_ok_def)
  next
    case False
    then have "length (slice p (p + paramLen it) data) < paramLen it" by auto
    moreover from this have "f = FF \<longrightarrow> slice p (p + paramLen it) data \<noteq> [0xff, 0xff, 0x7f, 0xff]"
      using len by (auto simp: calcsize_def dest!: arg_cong [where f = length])
    ultimately show ?thesis
      using False Fmt len by (auto simp: parseField_def field_fits_def unpack_def Let_def)
  qed
qed

lemma fieldPuts_ok:
  "list_all item_ok its \<Longrightarrow> (\<exists>kvs. fieldPuts lt data its p = Inr kvs) \<longleftrightarrow> block_fits data its p"
proof (induction its arbitrary: p)
  case (Cons it its)
  have "(\<exists>kvs. fieldPuts lt data (it # its) p = Inr kvs) \<longleftrightarrow>
      (\<exists>v kvs. parseField data p it = Inr v \<and> fieldPuts1 lt it v = Inr kvs) \<and>
      (\<exists>kvs. fieldPuts lt data its (p + paramLen it) = Inr kvs)"
    by (auto simp: res_simps)
  then show ?case using Cons parseField_ok [of it data p lt] by simp
qed simp

lemma block_fits_append:
  "block_fits data (xs @ ys) p \<longleftrightarrow> block_fits data xs p \<and> block_fits data ys (p + defnLen xs)"
  by (induction xs arbitrary: p) (auto simp: defnLen_def add.assoc)

lemma undeciphered_fits [simp]: "field_fits data p (undeciphered n)" "item_ok (undeciphered n)"
  by (simp_all add: field_fits_def undeciphered_def item_ok_def)

text \<open>The hypotheses are evaluated without an exception when their items are numbers.\<close>

definition numeric_at :: "pydict \<Rightarrow> string \<Rightarrow> bool" where
  "numeric_at d name \<longleftrightarrow> (case dget d (KS name) of Some v \<Rightarrow> num_of v \<noteq> None | None \<Rightarrow> False)"

fun hyp_name :: "hypothesis \<Rightarrow> string" where
  "hyp_name (AbsBelow n b) = n"
| "hyp_name (IsZero n) = n"

lemma hypothesis_holds_ok: "numeric_at d (hyp_name h) \<Longrightarrow> \<exists>b. hypothesis_holds h d = Inr b"
  by (cases h) (auto simp: hypothesis_holds_def numeric_at_def dlookup_def split: option.splits)

lemma checkHypotheses_ok:
  assumes "list_all (\<lambda>h. numeric_at d (hyp_name h)) hs"
    and "dget d (KS ''Date'') \<noteq> None" and "dget d (KS ''Time'') \<noteq> None"
  shows "\<exists>ws. checkHypotheses hs d = Inr ws"
  using assms(1)
proof (induction hs)
  case (Cons h hs)
  then obtain b ws where "hypothesis_holds h d = Inr b" "checkHypotheses hs d = Inr ws"
    using hypothesis_holds_ok by fastforce
  then show ?case using assms(2,3) by (auto simp: dlookup_def)
qed simp

lemma fieldPuts_dates:
  assumes "fieldPuts lt data its p = Inr kvs" and "DateTime \<in> outFormatFn ` set its"
  shows "KS ''Date'' \<in> fst ` set kvs" and "KS ''Time'' \<in> fst ` set kvs"
proof -
  have "KS ''Date'' \<in> fst ` set kvs \<and> KS ''Time'' \<in> fst ` set kvs"
    using assms
  proof (induction its arbitrary: p kvs)
    case (Cons it its)
    then obtain v kvs1 rest where k: "fieldPuts1 lt it v = Inr kvs1"
      "fieldPuts lt data its (p + paramLen it) = Inr rest" "kvs = kvs1 @ rest"
      by (auto simp: res_simps)
    show ?case
    proof (cases "outFormatFn it = DateTime")
      case True
      then show ?thesis using k(1,3) by (auto simp: fieldPuts1_def split: prod.splits)
    next
      case False
      then show ?thesis using Cons k by auto
    qed
  qed simp
  then show "KS ''Date'' \<in> fst ` set kvs" "KS ''Time'' \<in> fst ` set kvs" by simp_all
qed

lemma field_numeric:
  assumes "fieldPuts lt data its p = Inr kvs" and "plain_names its" and "i < length its"
    and "paramInFmt (its ! i) = ff \<or> paramInFmt (its ! i) = fH" and "outFormatFn (its ! i) = NoFn"
  shows "numeric_at (dupdate (pre @ kvs) d) (paramName (its ! i))"
proof -
  from fieldPuts_value [OF assms(1-3)] obtain v where
    v: "parseField data (p + defnLen (take i its)) (its ! i) = Inr v"
      "map_of (rev kvs) (KS (paramName (its ! i))) = Some (shown (its ! i) v)"
    by blast
  have "num_of v \<noteq> None"
    using v(1) assms(4) by (auto simp: parseField_def res_simps unpack_def py_index_def dec_any_def Let_def split: if_splits)
  moreover have "shown (its ! i) v = v" using assms(5) by (simp add: shown_def)
  ultimately show ?thesis using v(2) by (simp add: numeric_at_def dget_dupdate map_add_def)
qed

text \<open>
  A class with a known layout accepts a block exactly when the block is as long as the layout and
  its typed fields fit, provided the hypotheses are about numeric items of the layout.
\<close>

definition numeric_items :: "defn \<Rightarrow> string list" where
  "numeric_items its =
     map paramName (filter (\<lambda>it. (paramInFmt it = ff \<or> paramInFmt it = fH) \<and> outFormatFn it = NoFn) its)"

lemma numeric_items_at:
  assumes "fieldPuts lt data its p = Inr kvs" and "plain_names its" and "name \<in> set (numeric_items its)"
  shows "numeric_at (dupdate (pre @ kvs) d) name"
proof -
  obtain it where it: "it \<in> set its" "(paramInFmt it = ff \<or> paramInFmt it = fH) \<and> outFormatFn it = NoFn"
    "name = paramName it"
    using assms(3) by (auto simp: numeric_items_def)
  then obtain i where "i < length its" "its ! i = it" by (auto simp: in_set_conv_nth)
  with it field_numeric [OF assms(1,2)] show ?thesis by blast
qed

lemma numeric_at_dput: "numeric_at d name \<Longrightarrow> num_of v \<noteq> None \<Longrightarrow> numeric_at (dput k v d) name"
  by (simp add: numeric_at_def)

lemma numeric_items_append: "set (numeric_items its) \<subseteq> set (numeric_items (its @ xs))"
  by (auto simp: numeric_items_def)

lemma plain_names_extended:
  "plain_names ds \<Longrightarrow> ''Undeciphered_data'' \<notin> paramName ` set ds \<Longrightarrow> plain_names (extended ds n)"
  by (auto simp: plain_names_def extended_def undeciphered_def)

definition layout_ok :: "defn \<Rightarrow> hypothesis list \<Rightarrow> bool" where
  "layout_ok ds hyps \<longleftrightarrow> plain_names ds \<and> ''Undeciphered_data'' \<notin> paramName ` set ds \<and> list_all item_ok ds
     \<and> DateTime \<in> outFormatFn ` set ds \<and> list_all (\<lambda>h. hyp_name h \<in> set (numeric_items ds)) hyps"

lemma deviceInit_accepts:
  assumes hdr: "unpackHdr (slice 0 devHdrLen data) = Inr (seType, seId, devLen)"
    and ok: "layout_ok ds hyps"
    and f: "\<And>kvs. fieldPuts lt data (extended ds devLen) devHdrLen = Inr kvs \<Longrightarrow>
      \<exists>items. f (dupdate (hdrPuts devName seType seId devLen @ kvs) []) = Inr items \<and>
        (items = dupdate (hdrPuts devName seType seId devLen @ kvs) [] \<or>
         (\<exists>k x. items = dput k (PFloat x) (dupdate (hdrPuts devName seType seId devLen @ kvs) [])))"
  shows "(\<exists>dev. snd (deviceInit lt devName f hyps data ds []) = Inr dev) \<longleftrightarrow>
    int (defnLen ds) \<le> devLen \<and> block_fits data ds devHdrLen"
proof (cases "devLen < int (defnLen ds)")
  case False
  let ?e = "extended ds devLen" and ?d = "\<lambda>kvs. dupdate (hdrPuts devName seType seId devLen @ kvs) []"
  have items: "list_all item_ok ?e" and names: "plain_names ?e"
    and dt: "DateTime \<in> outFormatFn ` set ?e"
    using ok plain_names_extended [of ds devLen] by (auto simp: layout_ok_def extended_def)
  have fits: "block_fits data ?e devHdrLen \<longleftrightarrow> block_fits data ds devHdrLen"
    by (simp add: extended_def block_fits_append)
  have "set (numeric_items ds) \<subseteq> set (numeric_items ?e)"
    using numeric_items_append [of ds] by (simp add: extended_def)
  then have hyps: "hyp_name h \<in> set (numeric_items ?e)" if "h \<in> set hyps" for h
    using ok that by (auto simp: layout_ok_def list_all_iff)
  have "\<exists>ws. checkHypotheses hyps items = Inr ws"
    if k: "fieldPuts lt data ?e devHdrLen = Inr kvs" and i: "f (?d kvs) = Inr items" for kvs items
  proof -
    have num: "list_all (\<lambda>h. numeric_at (?d kvs) (hyp_name h)) hyps"
      using hyps numeric_items_at [OF k names] by (simp add: list_all_iff)
    have "KS ''Date'' \<in> set (dkeys (?d kvs))" "KS ''Time'' \<in> set (dkeys (?d kvs))"
      using fieldPuts_dates [OF k dt] by (simp_all add: set_dkeys_dupdate image_Un)
    then have dates: "dget (?d kvs) (KS ''Date'') \<noteq> None" "dget (?d kvs) (KS ''Time'') \<noteq> None"
      by (simp_all only: pd.keys_get not_False_eq_True)
    show ?thesis
      using f [OF k] i num dates
      by (intro checkHypotheses_ok) (auto simp: list_all_iff intro!: numeric_at_dput)
  qed
  then show ?thesis
    using False f fieldPuts_ok [OF items, of lt data devHdrLen] fits
    by (fastforce simp: deviceInit_def parseDevTable_puts [OF hdr] setDerivationDefaults_def res_simps Let_def)
qed (simp add: snd_deviceInit_short [OF hdr])

subsection \<open>Batteries and meters\<close>

lemma battery_layout: "layout_ok battery_table battery_hypotheses" "defnLen battery_table = 86"
  by (simp_all add: layout_ok_def battery_table_def battery_hypotheses_def plain_names_def item_ok_def
      numeric_items_def defnLen_def)

lemma meter_layout: "layout_ok meter_table meter_hypotheses" "defnLen meter_table = 58"
  by (simp_all add: layout_ok_def meter_table_def meter_hypotheses_def plain_names_def item_ok_def
      numeric_items_def defnLen_def)

lemma battery_fits:
  "block_fits data battery_table devHdrLen \<longleftrightarrow>
     94 \<le> length data \<and> utf8_valid (map unat (slice 12 24 data))"
  by (auto simp: battery_table_def field_fits_def devHdrLen_def)

lemma meter_fits: "block_fits data meter_table devHdrLen \<longleftrightarrow> 66 \<le> length data"
  by (auto simp: meter_table_def field_fits_def devHdrLen_def)

text \<open>
  With the layout of the source a battery block is accepted exactly when it announces at least
  86 bytes, at least 86 bytes follow its header, and the battery id is valid UTF-8.
\<close>

theorem battery_accepted_iff:
  assumes "unpackHdr (slice 0 devHdrLen data) = Inr (0x0030, seId, devLen)"
    and "battery_defn cs = battery_table"
  shows "(\<exists>dev. snd (newDevice lt data False cs) = Inr (Battery, dev)) \<longleftrightarrow>
    86 \<le> devLen \<and> 94 \<le> length data \<and> utf8_valid (map unat (slice 12 24 data))"
proof -
  have "(\<exists>dev. snd (newDevice lt data False cs) = Inr (Battery, dev)) \<longleftrightarrow>
      (\<exists>dev. snd (deviceInit lt ''batteries'' Inr battery_hypotheses data battery_table []) = Inr dev)"
    by (simp add: newDevice_known [OF assms(1)] assms(2) batteryInit_def split_beta res_simps)
  also have "\<dots> \<longleftrightarrow> 86 \<le> devLen \<and> block_fits data battery_table devHdrLen"
    by (subst deviceInit_accepts [OF assms(1) battery_layout(1)]) (simp_all add: battery_layout(2))
  finally show ?thesis by (simp add: battery_fits)
qed

text \<open>
  With the layout of the source a meter block is accepted exactly when it announces at least 58
  bytes and at least 58 bytes follow its header.
\<close>

theorem meter_accepted_iff:
  assumes "unpackHdr (slice 0 devHdrLen data) = Inr (0x0022, seId, devLen)"
    and "meter_defn cs = meter_table"
  shows "(\<exists>dev. snd (newDevice lt data False cs) = Inr (Meter, dev)) \<longleftrightarrow> 58 \<le> devLen \<and> 66 \<le> length data"
proof -
  let ?e = "extended meter_table devLen"
  have e: "plain_names ?e"
    using meter_layout(1) plain_names_extended [of meter_table devLen] by (simp add: layout_ok_def)
  have "\<exists>items. meterDerivations (dupdate (pre @ kvs) []) = Inr items \<and>
      (items = dupdate (pre @ kvs) [] \<or> (\<exists>k x. items = dput k (PFloat x) (dupdate (pre @ kvs) [])))"
    if "fieldPuts lt data ?e devHdrLen = Inr kvs" for pre kvs
  proof -
    have "''P2X'' \<in> set (numeric_items meter_table)"
      by (simp add: numeric_items_def meter_table_def)
    then have "''P2X'' \<in> set (numeric_items ?e)"
      using numeric_items_append [of meter_table] by (auto simp: extended_def)
    then have "numeric_at (dupdate (pre @ kvs) []) ''P2X''" by (rule numeric_items_at [OF that e])
    then show ?thesis
      by (auto simp: meterDerivations_def numeric_at_def dlookup_def not_reported_def split: option.splits)
  qed
  note m = this
  have "(\<exists>dev. snd (newDevice lt data False cs) = Inr (Meter, dev)) \<longleftrightarrow>
      (\<exists>dev. snd (deviceInit lt ''meters'' meterDerivations meter_hypotheses data meter_table []) = Inr dev)"
    by (simp add: newDevice_known [OF assms(1)] assms(2) meterInit_def split_beta res_simps)
  also have "\<dots> \<longleftrightarrow> 58 \<le> devLen \<and> block_fits data meter_table devHdrLen"
    using deviceInit_accepts [OF assms(1) meter_layout(1) m] by (simp add: meter_layout(2))
  finally show ?thesis by (simp add: meter_fits)
qed

subsection \<open>Concrete blocks\<close>

theorem overlong_block_sticks_witness:
  "snd (newDevice utc_1970_01_01 [0x30, 0, 1, 0, 0, 0, 86, 0] False
     (fst (newDevice utc_1970_01_01 [0x30, 0, 1, 0, 0, 0, 100, 0] False initial_classes))) = Inl ValueError"
proof -
  have "unpackHdr (slice 0 devHdrLen [0x30, 0, 1, 0, 0, 0, 100, 0]) = Inr (0x0030, 1, 100)"
    and "unpackHdr (slice 0 devHdrLen [0x30, 0, 1, 0, 0, 0, 86, 0]) = Inr (0x0030, 1, 86)"
    by code_simp+
  then show ?thesis by (rule overlong_block_sticks) simp_all
qed

theorem battery_accepted_iff_witness:
  "\<exists>dev. snd (newDevice utc_1970_01_01 ([0x30, 0, 1, 0, 0, 0, 86, 0] @ replicate 86 0) False initial_classes) = Inr (Battery, dev)"
proof -
  let ?data = "[0x30, 0, 1, 0, 0, 0, 86, 0] @ replicate 86 0 :: bytes"
  have "slice 0 devHdrLen ?data = [0x30, 0, 1, 0, 0, 0, 86, 0]" by (simp add: devHdrLen_def slice_def)
  moreover have "unpackHdr [0x30, 0, 1, 0, 0, 0, 86, 0] = Inr (0x0030, 1, 86)" by code_simp
  ultimately have hdr: "unpackHdr (slice 0 devHdrLen ?data) = Inr (0x0030, 1, 86)" by (simp only:)
  have "slice 12 24 ?data = replicate 12 0" by (simp add: slice_def)
  moreover have "utf8_valid (map unat (replicate 12 (0 :: byte)))" by (simp add: numeral_eq_Suc)
  ultimately show ?thesis
    using battery_accepted_iff [OF hdr, of initial_classes utc_1970_01_01] by (simp add: initial_classes_def)
qed

theorem meter_accepted_iff_witness:
  "\<exists>dev. snd (newDevice utc_1970_01_01 ([0x22, 0, 1, 0, 0, 0, 58, 0] @ replicate 58 0) False initial_classes) = Inr (Meter, dev)"
proof -
  let ?data = "[0x22, 0, 1, 0, 0, 0, 58, 0] @ replicate 58 0 :: bytes"
  have "slice 0 devHdrLen ?data = [0x22, 0, 1, 0, 0, 0, 58, 0]" by (simp add: devHdrLen_def slice_def)
  moreover have "unpackHdr [0x22, 0, 1, 0, 0, 0, 58, 0] = Inr (0x0022, 1, 58)" by code_simp
  ultimately have hdr: "unpackHdr (slice 0 devHdrLen ?data) = Inr (0x0022, 1, 58)" by (simp only:)
  show ?thesis
    using meter_accepted_iff [OF hdr, of initial_classes utc_1970_01_01] by (simp add: initial_classes_def)
qed

end
