(* ===== verification/BlockProps.thy ===== *)
theory BlockProps
  imports Blocks DeviceFields
begin

text \<open>
  What the walk over the device blocks of \<^verbatim>\<open>se/data.py\<close> computes: the sequence of blocks a message
  is split into, the class definitions it leaves, the lengths each kind of block needs and the
  values it yields.
\<close>

subsection \<open>The sequence of blocks\<close>

text \<open>A block on the wire, and the effect of a list of blocks one after the other.\<close>

type_synonym block = "int \<times> int \<times> bytes"

fun block_in_range :: "block \<Rightarrow> bool" where
  "block_in_range (seType, seId, p) \<longleftrightarrow> in_range CH seType \<and> in_range CL seId \<and> length p < 2 ^ 16"

fun blockBytes :: "block \<Rightarrow> bytes" where
  "blockBytes (seType, seId, p) =
     enc_field LE CH seType @ enc_field LE CL seId @ enc_field LE CH (int (length p)) @ p"

fun runBlocks :: "clock \<Rightarrow> block list \<Rightarrow> parsed_devs \<Rightarrow> classes \<Rightarrow> classes \<times> parsed_devs res" where
  "runBlocks lt [] acc cs = (cs, Inr acc)"
| "runBlocks lt ((seType, seId, p) # bs) acc cs =
     (case parseBlock lt seType (parseId seId) p (blockBytes (seType, seId, p)) acc cs of
        (cs', Inl e) \<Rightarrow> (cs', Inl e)
      | (cs', Inr acc') \<Rightarrow> runBlocks lt bs acc' cs')"

lemma unpackHdr_block:
  assumes "block_in_range (seType, seId, p)"
  shows "unpackHdr (enc_field LE CH seType @ enc_field LE CL seId @ enc_field LE CH (int (length p)))
    = Inr (seType, seId, int (length p))"
  using assms unpack_pack [of LE "[CH, CL, CH]" "[seType, seId, int (length p)]"]
  by (simp add: unpackHdr_def in_range_def)

lemma parseBlocks_runBlocks:
  "list_all block_in_range bs \<Longrightarrow>
     parseBlocks lt (pre @ concat (map blockBytes bs)) (length pre) acc cs = runBlocks lt bs acc cs"
proof (induction bs arbitrary: pre acc cs)
  case Nil
  then show ?case by (simp add: parseBlocks.simps)
next
  case (Cons b bs)
  obtain seType seId p where b: "b = (seType, seId, p)" by (cases b)
  let ?h = "enc_field LE CH seType @ enc_field LE CL seId @ enc_field LE CH (int (length p))"
  let ?rest = "concat (map blockBytes bs)"
  let ?data = "pre @ ?h @ p @ ?rest"
  have len: "length ?h = 8" by (simp add: fld.enc_length)
  have hdr: "unpackHdr ?h = Inr (seType, seId, int (length p))"
    using Cons.prems by (intro unpackHdr_block) (simp add: b)
  have s1: "slice (length pre) (length pre + devHdrLen) ?data = ?h"
    using len by (simp add: slice_def devHdrLen_def)
  have s2: "slice (length pre + devHdrLen) (length pre + devHdrLen + length p) ?data = p"
    using len by (simp add: slice_def devHdrLen_def)
  have s3: "slice (length pre + devHdrLen - devHdrLen) (length pre + devHdrLen + length p) ?data = ?h @ p"
    using len by (simp add: slice_def devHdrLen_def)
  have l: "length (pre @ ?h @ p) = length pre + devHdrLen + length p"
    using len by (simp add: devHdrLen_def)
  have IH: "parseBlocks lt ?data (length pre + devHdrLen + length p) acc' cs' = runBlocks lt bs acc' cs'" for acc' cs'
    using Cons.IH [of "pre @ ?h @ p" acc' cs', unfolded l] Cons.prems by simp
  have "parseBlocks lt ?data (length pre) acc cs = runBlocks lt (b # bs) acc cs"
    using len
    by (subst parseBlocks.simps)
      (simp only: s1 hdr s2 s3 Let_def sum.case prod.case nat_int IH, simp add: b s2 s3 [simplified] fld.enc_length
        cong: sum.case_cong prod.case_cong)
  moreover have "pre @ concat (map blockBytes (b # bs)) = ?data" by (simp add: b)
  ultimately show ?case by (simp only:)
qed

text \<open>
  C6.  The walk over a performance data message visits its blocks one after the other: on the bytes
  of any list of blocks it has the effect, the exceptions and the changes of the classes of parsing
  each block by itself, in order, up to the first that raises.
\<close>

theorem parseDeviceData_blocks:
  assumes "list_all block_in_range bs"
  shows "parseDeviceData lt (concat (map blockBytes bs)) cs =
    (case runBlocks lt bs no_devs cs of
       (cs', r) \<Rightarrow> (cs', rbind r (\<lambda>devs.
         Inr (PDict (dupdate [(KS ''inverters'', PDict (invDict devs)), (KS ''optimizers'', PDict (optDict devs)),
                              (KS ''events'', PDict (eventDict devs))] (devsDict devs))))))"
  using parseBlocks_runBlocks [OF assms, of lt "[]" no_devs cs] by (simp add: parseDeviceData_def)

subsection \<open>The classes stay well formed\<close>

lemma parseBlock_classes_ok:
  assumes "classes_ok cs"
  shows "classes_ok (fst (parseBlock lt seType seId blk whole acc cs))"
  using newDevice_classes_ok [OF assms, of lt whole False] assms
  by (auto simp: parseBlock_def Let_def split: prod.splits sum.splits)

lemma parseBlocks_classes_ok:
  "classes_ok cs \<Longrightarrow> classes_ok (fst (parseBlocks lt data p acc cs))"
proof (induction lt data p acc cs rule: parseBlocks.induct)
  case (1 lt data p acc cs)
  show ?case
  proof (cases "unpackHdr (slice p (p + devHdrLen) data)")
    case (Inr h)
    obtain seType seId devLen where h: "h = (seType, seId, devLen)" by (cases h)
    let ?q = "p + devHdrLen"
    let ?e = "?q + nat devLen"
    let ?b = "parseBlock lt seType (parseId seId) (slice ?q ?e data) (slice (?q - devHdrLen) ?e data) acc cs"
    have ok: "classes_ok (fst ?b)" by (rule parseBlock_classes_ok [OF 1(2)])
    show ?thesis
    proof (cases "p < length data")
      case True
      show ?thesis
      proof (cases ?b)
        case (Pair cs' r)
        with ok have "classes_ok cs'" by simp
        then have "classes_ok (fst (parseBlocks lt data ?e acc' cs'))" if "r = Inr acc'" for acc'
          by (intro 1(1) [OF True Inr, of seType "(seId, devLen)" seId devLen ?q ?e cs' r]) (use h Pair that in simp_all)
        with \<open>classes_ok cs'\<close> Pair True Inr h show ?thesis
          by (cases r) (simp_all add: parseBlocks.simps [of lt data p] Let_def)
      qed
    qed (use 1(2) in \<open>simp add: parseBlocks.simps\<close>)
  qed (use 1(2) in \<open>simp add: parseBlocks.simps\<close>)
qed

lemma parseDeviceData_classes_ok:
  "classes_ok cs \<Longrightarrow> classes_ok (fst (parseDeviceData lt data cs))"
  using parseBlocks_classes_ok [of cs lt data 0 no_devs] by (simp add: parseDeviceData_def split_beta)

subsection \<open>Values of a block\<close>

lemma selectFields_ok:
  assumes "length d = calcsize fs" and "list_all (\<lambda>i. i < length fs) idx"
  shows "selectFields fs d idx = Inr (map (\<lambda>i. split_fields LE fs d ! i) idx)"
  unfolding selectFields_def
  by (rule rmap_Inr) (use assms in \<open>simp add: unpack_def py_index_def list_all_iff\<close>)

lemma selectFields_error:
  "length d \<noteq> calcsize fs \<Longrightarrow> selectFields fs d (i # is) = Inl StructError"
  by (simp add: selectFields_def unpack_def)

lemma putItems_ok:
  "list_all (\<lambda>i. i - 2 < length vals \<and> i < length names) is \<Longrightarrow>
     putItems names vals is d = Inr (dupdate (map (\<lambda>i. (KS (names ! i), vals ! (i - 2))) is) d)"
  by (induction "is" arbitrary: d) (auto simp: py_index_def dupdate_Cons)

definition stamped :: "clock \<Rightarrow> string \<Rightarrow> pyval \<Rightarrow> pydict" where
  "stamped lt seId v0 =
     (let (d, t) = (case stamps lt v0 of Inr dt \<Rightarrow> dt | Inl ex \<Rightarrow> (''invalid'', ''invalid''))
      in [(KS ''Date'', PStr d), (KS ''Time'', PStr t), (KS ''ID'', PStr seId)])"

lemma devDataDict_ok:
  assumes "vals \<noteq> []" and "length names \<le> length vals + 2"
  shows "devDataDict lt seId names vals =
    Inr (dupdate (stamped lt seId (vals ! 0) @ map (\<lambda>i. (KS (names ! i), vals ! (i - 2))) [3..<length names]) [])"
proof -
  have "putItems names vals [3..<length names] d =
      Inr (dupdate (map (\<lambda>i. (KS (names ! i), vals ! (i - 2))) [3..<length names]) d)" for d
    using assms(2) by (intro putItems_ok) (auto simp: list_all_iff)
  then show ?thesis
    using assms(1) by (auto simp: devDataDict_def py_index_def stamped_def dupdate_append Let_def split: prod.split)
qed

lemma map_of_rev_nth:
  assumes "distinct names" and "3 \<le> i" and "i < length names"
  shows "map_of (rev (map (\<lambda>i. (KS (names ! i), f i)) [3..<length names])) (KS (names ! i)) = Some (f i)"
proof -
  let ?xs = "map (\<lambda>i. (KS (names ! i), f i)) [3..<length names]"
  have "inj_on (\<lambda>i. KS (names ! i)) {3..<length names}"
    using assms(1) by (auto simp: inj_on_def nth_eq_iff_index_eq)
  then have "distinct (map fst (rev ?xs))"
    by (simp add: rev_map [symmetric] comp_def distinct_map)
  moreover have "(KS (names ! i), f i) \<in> set (rev ?xs)" using assms by auto
  ultimately show ?thesis by (simp add: map_of_eq_Some_iff)
qed

lemma devDataDict_get:
  assumes "devDataDict lt seId names vals = Inr d" and "vals \<noteq> []" and "length names \<le> length vals + 2"
    and "distinct names" and "3 \<le> i" and "i < length names"
  shows "dget d (KS (names ! i)) = Some (vals ! (i - 2))"
proof -
  have d: "d = dupdate (stamped lt seId (vals ! 0) @ map (\<lambda>i. (KS (names ! i), vals ! (i - 2))) [3..<length names]) []"
    using assms(1) devDataDict_ok [OF assms(2,3), of lt seId] by simp
  show ?thesis
    using map_of_rev_nth [OF assms(4-6), of "\<lambda>i. vals ! (i - 2)"] unfolding d
    by (simp add: dget_dupdate map_add_def)
qed

text \<open>The fields of the tables are all four bytes long.\<close>

lemma fmt_field:
  assumes "j < length s" and "length d = length s * 4"
  shows "split_fields LE (fmt s) d ! j = dec_any LE (fmt_char (s ! j)) (slice (4 * j) (4 * j + 4) d)"
proof -
  have "fsize (fmt s ! j) = 4" and "fmt s ! j = fmt_char (s ! j)"
    using assms(1) by (simp_all add: fmt_def)
  moreover have "calcsize (take j (fmt s)) = 4 * j"
    using assms(1) calcsize_fmt [of "take j s"] by (simp add: fmt_def take_map)
  ultimately show ?thesis using assms(1) by (simp add: nth_split_fields slice_def)
qed

lemma table_item:
  assumes parse: "rbind (selectFields (fmt s) (slice 0 (length s * 4) devData) idx) (devDataDict lt seId names) = Inr d"
    and idx: "list_all (\<lambda>i. i < length s) idx" "length names = length idx + 2" and names: "distinct names"
    and i: "3 \<le> i" "i < length names"
  shows "dget d (KS (names ! i)) =
    Some (dec_any LE (fmt_char (s ! (idx ! (i - 2)))) (slice (4 * (idx ! (i - 2))) (4 * (idx ! (i - 2)) + 4) devData))"
proof -
  let ?d = "slice 0 (length s * 4) devData" and ?j = "idx ! (i - 2)"
  have ne: "idx \<noteq> []" using idx(2) i by auto
  have len: "length ?d = length s * 4"
    using parse selectFields_error [of ?d "fmt s" "hd idx" "tl idx"] ne
    by (cases "length ?d = length s * 4") (simp_all del: slice_length)
  have j: "?j < length s" using idx i by (auto simp: list_all_iff)
  have "devDataDict lt seId names (map (\<lambda>i. split_fields LE (fmt s) ?d ! i) idx) = Inr d"
    using parse len idx(1) by (simp add: selectFields_ok)
  from devDataDict_get [OF this _ _ names i] ne idx(2) i
  have "dget d (KS (names ! i)) = Some (split_fields LE (fmt s) ?d ! ?j)" by simp
  moreover have "slice (4 * ?j) (4 * ?j + 4) ?d = slice (4 * ?j) (4 * ?j + 4) devData"
    using j len by (simp add: slice_def drop_take min_def)
  ultimately show ?thesis using fmt_field [OF j len] by simp
qed

lemma inverter_item:
  assumes "parseInvData lt seId invItems devData = Inr d" and "3 \<le> i" and "i < length invItems"
  shows "dget d (KS (invItems ! i)) =
    (let j = invIdx ! (i - 2) in Some (dec_any LE (invInFmt ! j) (slice (4 * j) (4 * j + 4) devData)))"
proof -
  have d: "distinct invItems" by (simp add: invItems_def)
  let ?s = "''LLLffffffLLfLffLfffffLLffL''"
  have s: "length ?s = 26" by simp
  have "dget d (KS (invItems ! i)) = Some (dec_any LE (fmt_char (?s ! (invIdx ! (i - 2))))
      (slice (4 * (invIdx ! (i - 2))) (4 * (invIdx ! (i - 2)) + 4) devData))"
    using assms(1) idx_in_range(2) items_fit(2) d assms(2,3)
    by (intro table_item) (simp_all only: s parseInvData_def fmt_lens invInFmt_def, simp_all)
  moreover have "invIdx ! (i - 2) < 26"
    using idx_in_range(2) items_fit(2) assms(2,3) by (auto simp: list_all_iff)
  then have "fmt_char (?s ! (invIdx ! (i - 2))) = invInFmt ! (invIdx ! (i - 2))"
    by (simp only: invInFmt_def fmt_def nth_map s)
  ultimately show ?thesis by (simp only: Let_def)
qed

text \<open>
  The layout that the comment above the table documents: for every item its position, counted in
  four-byte words, and its type.
\<close>

definition inverter_doc :: "(string \<times> nat \<times> field) list" where
  "inverter_doc =
     [(''Uptime'', 1, FI CL), (''Interval'', 2, FI CL), (''Temp'', 3, FF), (''Eday'', 4, FF),
      (''Eac'', 5, FF), (''Vac'', 6, FF), (''Iac'', 7, FF), (''Freq'', 8, FF), (''Vdc'', 11, FF),
      (''Etot'', 13, FF), (''Pmax'', 18, FF), (''Pac'', 23, FF)]"

text \<open>
  C23.  Each item of an inverter block is the four bytes at the position that the comment above the
  table documents, read as an unsigned integer or a float, little endian: for every documented item
  the parsed dictionary holds that value under the item's name.
\<close>

theorem inverter_items:
  assumes "parseInvData lt seId invItems devData = Inr d"
  shows "list_all (\<lambda>(name, j, f). dget d (KS name) =
      Some (dec_any LE f (slice (4 * j) (4 * j + 4) devData))) inverter_doc"
proof -
  note item = inverter_item [OF assms]
  show ?thesis
    using item [of 3] item [of 4] item [of 5] item [of 6] item [of 7] item [of 8] item [of 9]
      item [of 10] item [of 11] item [of 12] item [of 13] item [of 14]
    unfolding inverter_doc_def by (simp add: invItems_def invIdx_def invInFmt_def Let_def)
qed

text \<open>
  Each item of a three-phase inverter block is likewise the four bytes at its position, read as
  the format of the table says.
\<close>

theorem inverter3ph_items:
  assumes "parseInv3PhData lt seId inv3PhItems devData = Inr d" and "3 \<le> i" and "i < length inv3PhItems"
  shows "dget d (KS (inv3PhItems ! i)) =
    (let j = i - 2 in Some (dec_any LE (inv3PhInFmt ! j) (slice (4 * j) (4 * j + 4) devData)))"
proof -
  have d: "distinct inv3PhItems" by (simp add: inv3PhItems_def)
  let ?s = "''LLLffffffffffffLLfLffLLLfffLfffL''"
  have s: "length ?s = 32" by simp
  have e: "inv3PhIdx = [0..<32]" by (simp add: inv3PhIdx_def upt_rec)
  have "length inv3PhItems = 34" using items_fit(3) by (simp add: e)
  then have lt: "i - 2 < 32" using assms(2,3) by linarith
  then have idx: "inv3PhIdx ! (i - 2) = i - 2" by (simp add: e)
  have "dget d (KS (inv3PhItems ! i)) = Some (dec_any LE (fmt_char (?s ! (inv3PhIdx ! (i - 2))))
      (slice (4 * (inv3PhIdx ! (i - 2))) (4 * (inv3PhIdx ! (i - 2)) + 4) devData))"
    using assms(1) idx_in_range(3) items_fit(3) d assms(2,3)
    by (intro table_item) (simp_all only: s parseInv3PhData_def fmt_lens inv3PhInFmt_def, simp_all)
  moreover have "fmt_char (?s ! (i - 2)) = inv3PhInFmt ! (i - 2)"
    using lt by (simp only: inv3PhInFmt_def fmt_def nth_map s)
  ultimately show ?thesis by (simp only: Let_def idx)
qed

subsection \<open>Lengths\<close>

lemma table_parse_iff:
  assumes "list_all (\<lambda>i. i < length s) idx" and "length names = length idx + 2" and "idx \<noteq> []"
  shows "(\<exists>d. rbind (selectFields (fmt s) (slice 0 (length s * 4) b) idx) (devDataDict lt seId names) = Inr d)
    \<longleftrightarrow> length s * 4 \<le> length b"
proof (cases "length s * 4 \<le> length b")
  case True
  then have "selectFields (fmt s) (slice 0 (length s * 4) b) idx
      = Inr (map (\<lambda>i. split_fields LE (fmt s) (slice 0 (length s * 4) b) ! i) idx)"
    using assms(1) by (intro selectFields_ok) simp_all
  then show ?thesis using True assms(2,3) by (simp add: devDataDict_ok)
next
  case False
  then have "length (slice 0 (length s * 4) b) \<noteq> calcsize (fmt s)" by simp
  with selectFields_error [OF this, of "hd idx" "tl idx"] assms(3) False show ?thesis by simp
qed

lemma parseInvData_iff: "(\<exists>d. parseInvData lt seId invItems b = Inr d) \<longleftrightarrow> 104 \<le> length b"
proof -
  let ?s = "''LLLffffffLLfLffLfffffLLffL''"
  have "list_all (\<lambda>i. i < length ?s) invIdx" "invIdx \<noteq> []" using idx_in_range(2) by (simp_all add: invIdx_def)
  from table_parse_iff [OF this(1) items_fit(2) this(2), of b lt seId] show ?thesis
    by (simp add: parseInvData_def fmt_lens invInFmt_def del: fmt_Cons)
qed

lemma parseInv3PhData_iff: "(\<exists>d. parseInv3PhData lt seId inv3PhItems b = Inr d) \<longleftrightarrow> 128 \<le> length b"
proof -
  let ?s = "''LLLffffffffffffLLfLffLLLfffLfffL''"
  have "list_all (\<lambda>i. i < length ?s) inv3PhIdx" "inv3PhIdx \<noteq> []" using idx_in_range(3) by (simp_all add: inv3PhIdx_def)
  from table_parse_iff [OF this(1) items_fit(3) this(2), of b lt seId] show ?thesis
    by (simp add: parseInv3PhData_def fmt_lens inv3PhInFmt_def del: fmt_Cons)
qed

lemma parseOptData_iff: "(\<exists>d. parseOptData lt seId optItems b = Inr d) \<longleftrightarrow> 36 \<le> length b"
proof (cases "36 \<le> length b")
  case True
  let ?b = "slice 0 36 b"
  have "selectFields optInFmt ?b optIdx = Inr (map (\<lambda>i. split_fields LE optInFmt ?b ! i) optIdx)"
    using True idx_in_range(4) by (intro selectFields_ok) (simp_all add: fmt_sizes fmt_lengths)
  then show ?thesis
    using True items_fit(4)
    by (simp add: parseOptData_def fmt_lens optIdx_def optInFmt_def dec_any_def py_index_def int_value_def devDataDict_ok)
next
  case False
  then show ?thesis
    using selectFields_error [of "slice 0 36 b" optInFmt]
    by (simp add: parseOptData_def fmt_lens fmt_sizes optIdx_def)
qed

lemma parseEventData_iff:
  assumes "\<And>ts. \<exists>t. lt ts = Inr t"
  shows "(\<exists>d. parseEventData lt seId eventItems b = Inr d) \<longleftrightarrow> length b = 28"
proof (cases "length b = 28")
  case True
  have fdt: "\<exists>s. formatDateTime lt ts = Inr s" for ts using assms [of ts] by auto
  let ?b = "slice 0 104 b"
  have "selectFields eventInFmt ?b eventIdx = Inr (map (\<lambda>i. split_fields LE eventInFmt ?b ! i) eventIdx)"
    using True idx_in_range(1) by (intro selectFields_ok) (simp_all add: fmt_sizes fmt_lengths)
  moreover obtain v0 v1 v2 v3 v4 where
    "map (\<lambda>i. split_fields LE eventInFmt ?b ! i) eventIdx = [PInt v0, PInt v1, PInt v2, PInt v3, PInt v4]"
    by (simp add: eventIdx_def eventInFmt_def dec_any_def)
  moreover obtain s2 s3 s4 where "formatDateTime lt v2 = Inr s2" "formatDateTime lt v3 = Inr s3" "formatDateTime lt v4 = Inr s4"
    using fdt by blast
  ultimately show ?thesis
    using True items_fit(1)
    by (simp add: parseEventData_def fmt_lens dateTimeAt_def py_index_def int_value_def devDataDict_ok eventIdx_def)
next
  case False
  then have "length (slice 0 104 b) \<noteq> 28" by simp
  then show ?thesis
    using selectFields_error [of "slice 0 104 b" eventInFmt] False
    by (simp add: parseEventData_def fmt_lens fmt_sizes eventIdx_def)
qed

text \<open>
  With a clock that never fails, an optimizer block is accepted exactly from 36 bytes on, an
  inverter block from 104, a three-phase inverter block from 128, but an event block only at exactly
  28 bytes: it is cut to the length of an inverter block instead of its own.
\<close>

theorem block_lengths:
  assumes "\<And>ts. \<exists>t. lt ts = Inr t"
  shows "((\<exists>d. parseOptData lt seId optItems b = Inr d) \<longleftrightarrow> 36 \<le> length b) \<and>
    ((\<exists>d. parseInvData lt seId invItems b = Inr d) \<longleftrightarrow> 104 \<le> length b) \<and>
    ((\<exists>d. parseInv3PhData lt seId inv3PhItems b = Inr d) \<longleftrightarrow> 128 \<le> length b) \<and>
    ((\<exists>d. parseEventData lt seId eventItems b = Inr d) \<longleftrightarrow> length b = 28)"
  using parseOptData_iff parseInvData_iff parseInv3PhData_iff parseEventData_iff [OF assms] by simp

subsection \<open>Packed optimizer measurements\<close>

text \<open>
  The layout of the comment in \<^verbatim>\<open>se/dataparams.py\<close>: time stamp and uptime, then a 10-bit panel
  voltage, a 10-bit output voltage and a 12-bit current packed into four bytes.
\<close>

definition packMeasurements :: "int \<Rightarrow> int \<Rightarrow> nat \<Rightarrow> nat \<Rightarrow> nat \<Rightarrow> bytes" where
  "packMeasurements timeStamp uptime vpan vopt imod =
     enc_field LE CL timeStamp @ enc_field LE CH uptime @
     [of_nat (vpan mod 256), of_nat (vpan div 256 + 4 * (vopt mod 64)),
      of_nat (vopt div 64 + 16 * (imod mod 16)), of_nat (imod div 16)]"

lemma or_shifted:
  fixes a b :: int
  assumes "0 \<le> a" "a < 2 ^ k"
  shows "a OR push_bit k b = a + b * 2 ^ k"
proof -
  have "take_bit k a = a" using assms by (simp add: take_bit_int_eq_self)
  then have low: "n < k" if "bit a n" for n using that by (metis bit_take_bit_iff)
  have "a AND push_bit k b = 0" by (intro bit_eqI) (auto simp: bit_and_iff bit_push_bit_iff dest: low)
  then show ?thesis by (simp add: disjunctive_add_eq_or [symmetric] push_bit_eq_mult)
qed

lemma masked_shifts:
  "push_bit 8 x AND 0x300 = push_bit 8 (x mod 4)"
  "push_bit 6 x AND 0x3c0 = push_bit 6 (x mod 16)"
  "x AND 0xf = x mod 16" for x :: int
proof -
  have m: "x AND 3 = x mod 4" "x AND 15 = x mod 16"
    by (simp_all flip: take_bit_eq_mod [of 2 x, simplified] take_bit_eq_mod [of 4 x, simplified]
        add: take_bit_eq_mask mask_eq_exp_minus_1)
  then show "x AND 0xf = x mod 16" by simp
  show "push_bit 8 x AND 0x300 = push_bit 8 (x mod 4)"
    using push_bit_and [of 8 x 3] by (simp add: m push_bit_eq_mult [of 8 3])
  show "push_bit 6 x AND 0x3c0 = push_bit 6 (x mod 16)"
    using push_bit_and [of 6 x 15] by (simp add: m push_bit_eq_mult [of 6 15])
qed

lemma uint_of_nat_byte: "n < 256 \<Longrightarrow> uint (of_nat n :: byte) = int n"
  by (simp add: uint_nat unat_of_nat)

lemma div_mod_int: "int (n mod k) + int (n div k) * int k = int n"
  by (simp only: of_nat_mult [symmetric] of_nat_add [symmetric] mod_div_mult_eq)

lemma fields_of_bytes:
  assumes "vpan < 1024" "vopt < 1024" "imod < 4096"
  defines "d6 \<equiv> uint (of_nat (vpan mod 256) :: byte)" and "d7 \<equiv> uint (of_nat (vpan div 256 + 4 * (vopt mod 64)) :: byte)"
    and "d8 \<equiv> uint (of_nat (vopt div 64 + 16 * (imod mod 16)) :: byte)" and "d9 \<equiv> uint (of_nat (imod div 16) :: byte)"
  shows "vpan_bits d6 d7 = int vpan" "vopt_bits d7 d8 = int vopt" "imod_bits d8 d9 = int imod"
proof -
  have hi: "vpan div 256 < 4" "vopt div 64 < 16" "imod div 16 < 256" using assms(1-3) by linarith+
  have "vopt mod 64 \<le> 63" "imod mod 16 \<le> 15"
    using mod_less_divisor [of 64 vopt] mod_less_divisor [of 16 imod] by linarith+
  with hi have "vpan div 256 + 4 * (vopt mod 64) < 256" "vopt div 64 + 16 * (imod mod 16) < 256" by linarith+
  with hi have d: "d6 = int (vpan mod 256)" "d7 = int (vpan div 256 + 4 * (vopt mod 64))"
    "d8 = int (vopt div 64 + 16 * (imod mod 16))" "d9 = int (imod div 16)"
    unfolding d6_def d7_def d8_def d9_def by (simp_all only: uint_of_nat_byte mod_less_divisor zero_less_numeral)
  have "(vpan div 256 + 4 * (vopt mod 64)) mod 4 = vpan div 256" "(vpan div 256 + 4 * (vopt mod 64)) div 4 = vopt mod 64"
    "(vopt div 64 + 16 * (imod mod 16)) mod 16 = vopt div 64" "(vopt div 64 + 16 * (imod mod 16)) div 16 = imod mod 16"
    using hi by simp_all
  then have q: "d7 mod 4 = int (vpan div 256)" "d7 div 4 = int (vopt mod 64)"
    "d8 mod 16 = int (vopt div 64)" "d8 div 16 = int (imod mod 16)"
    unfolding d by (metis of_nat_numeral zdiv_int zmod_int)+
  have "vpan_bits d6 d7 = int (vpan mod 256) + int (vpan div 256) * 256"
    unfolding vpan_bits_def masked_shifts q by (subst or_shifted) (simp_all add: d)
  then show "vpan_bits d6 d7 = int vpan" using div_mod_int [of vpan 256] by simp
  have "vopt_bits d7 d8 = int (vopt mod 64) + int (vopt div 64) * 64"
    unfolding vopt_bits_def masked_shifts drop_bit_eq_div q(3) using q(2) by (subst or_shifted) simp_all
  then show "vopt_bits d7 d8 = int vopt" using div_mod_int [of vopt 64] by simp
  have "imod_bits d8 d9 = int (imod mod 16) + int (imod div 16) * 16"
    unfolding imod_bits_def masked_shifts drop_bit_eq_div or.commute [of "push_bit 4 d9"]
    using q(4) by (subst or_shifted) (simp_all add: d)
  then show "imod_bits d8 d9 = int imod" using div_mod_int [of imod 16] by simp
qed

lemma byte_at_append: "byte_at (xs @ ys) (length xs + i) = byte_at ys i"
  by (simp add: byte_at_def py_index_def nth_append)

lemma scaled_exact:
  assumes "\<bar>n\<bar> < 2 ^ 53"
  shows "scaled eighth n = PFloat (Fin (of_int n / 8))" "scaled quarter n = PFloat (Fin (of_int n / 4))"
    "scaled (Fin 2) n = PFloat (Fin (of_int n * 2))"
  using fmul_pow2_exact [OF assms, of "- 3"] fmul_pow2_exact [OF assms, of "- 2"] fmul_pow2_exact [OF assms, of 1]
  by (simp_all add: scaled_def eighth_def quarter_def pow2_def)

lemma optElectrical_packed:
  assumes "in_range CL timeStamp" "in_range CH uptime" "vpan < 1024" "vopt < 1024" "imod < 4096"
  shows "optElectrical (packMeasurements timeStamp uptime vpan vopt imod @ rest) =
    Inr (timeStamp, uptime, PFloat (Fin (of_nat vpan / 8)), PFloat (Fin (of_nat vopt / 8)),
         scaled sixteenth_dA (int imod))"
proof -
  let ?h = "enc_field LE CL timeStamp @ enc_field LE CH uptime"
  let ?t = "[of_nat (vpan mod 256), of_nat (vpan div 256 + 4 * (vopt mod 64)),
      of_nat (vopt div 64 + 16 * (imod mod 16)), of_nat (imod div 16)] @ rest :: bytes"
  have data: "packMeasurements timeStamp uptime vpan vopt imod @ rest = ?h @ ?t"
    by (simp add: packMeasurements_def)
  have len: "length ?h = 6" by (simp add: fld.enc_length)
  have u: "unpack_ints LE [CL, CH] ?h = Inr [timeStamp, uptime]"
    using assms(1,2) unpack_pack [of LE "[CL, CH]" "[timeStamp, uptime]" ?h] by simp
  have s: "slice 0 6 (?h @ ?t) = ?h" using len by (simp add: slice_def)
  have at: "byte_at (?h @ ?t) (6 + i) = byte_at ?t i" for i
    using byte_at_append [of ?h ?t i] by (simp only: len)
  have b: "byte_at (?h @ ?t) 6 = Inr (uint (of_nat (vpan mod 256) :: byte))"
    "byte_at (?h @ ?t) 7 = Inr (uint (of_nat (vpan div 256 + 4 * (vopt mod 64)) :: byte))"
    "byte_at (?h @ ?t) 8 = Inr (uint (of_nat (vopt div 64 + 16 * (imod mod 16)) :: byte))"
    "byte_at (?h @ ?t) 9 = Inr (uint (of_nat (imod div 16) :: byte))"
    using at [of 0] at [of 1] at [of 2] at [of 3] by (simp_all add: byte_at_def py_index_def)
  have "scaled eighth (int vpan) = PFloat (Fin (of_nat vpan / 8))" "scaled eighth (int vopt) = PFloat (Fin (of_nat vopt / 8))"
    using assms(3,4) by (simp_all add: scaled_exact)
  then show ?thesis
    unfolding data optElectrical_def
    by (simp only: s u b rbind_Inr list.case fields_of_bytes [OF assms(3-5)])
qed

lemma packMeasurements_length [simp]: "length (packMeasurements timeStamp uptime vpan vopt imod) = 10"
  by (simp add: packMeasurements_def fld.enc_length)

lemma eday_bits:
  assumes "in_range CH eday"
  shows "enc_field LE CH eday = [word_of_int eday, word_of_int (eday div 256)]"
    and "push_bit 8 (uint (word_of_int (eday div 256) :: byte)) OR uint (word_of_int eday :: byte) = eday"
proof -
  show "enc_field LE CH eday = [word_of_int eday, word_of_int (eday div 256)]"
    by (simp add: enc_LE numeral_2_eq_2)
  have "eday div 256 < 256" "0 \<le> eday div 256" using assms by (auto simp: in_range_def)
  then have "eday div 256 mod 256 = eday div 256" by simp
  then show "push_bit 8 (uint (word_of_int (eday div 256) :: byte)) OR uint (word_of_int eday :: byte) = eday"
    unfolding or.commute [of "push_bit 8 _"] by (subst or_shifted) (simp_all add: uint_word_of_int)
qed

text \<open>
  C24.  The fields of the newer optimizer blocks are read from where the comment places them: from a
  block packed with a 10-bit panel voltage, a 10-bit output voltage, a 12-bit current, a 16-bit
  energy and a signed temperature the parser returns exactly an eighth of the voltages, a quarter
  of the energy, and the rounded product of the current with 0.00625.  The temperature is doubled, as
  the code has it; the comment guesses the factor to be 1.6.
\<close>

theorem new_optimizer_layout:
  assumes "in_range CL timeStamp" "in_range CH uptime" "vpan < 1024" "vopt < 1024" "imod < 4096"
    and "in_range CH eday" and "in_range Cb temp"
  shows "parseNewOptData lt seId optItems
      (packMeasurements timeStamp uptime vpan vopt imod @ enc_field LE CH eday @ enc_field LE Cb temp @ rest) =
    devDataDict lt seId optItems
      [PInt timeStamp, PInt 0, PInt uptime, PFloat (Fin (of_nat vpan / 8)), PFloat (Fin (of_nat vopt / 8)),
       scaled sixteenth_dA (int imod), PFloat (Fin (of_int eday / 4)), PFloat (Fin (of_int temp * 2))]"
proof -
  let ?p = "packMeasurements timeStamp uptime vpan vopt imod"
  let ?data = "?p @ enc_field LE CH eday @ enc_field LE Cb temp @ rest"
  have e: "byte_at ?data 10 = Inr (uint (word_of_int eday :: byte))"
    "byte_at ?data 11 = Inr (uint (word_of_int (eday div 256) :: byte))"
    by (simp_all add: eday_bits(1) [OF assms(6)] byte_at_def py_index_def nth_append)
  have "slice 12 13 ?data = enc_field LE Cb temp" by (simp add: slice_def fld.enc_length)
  moreover have "unpack_ints LE [Cb] (enc_field LE Cb temp) = Inr [temp]"
    using assms(7) unpack_pack [of LE "[Cb]" "[temp]"] by simp
  moreover have "\<bar>eday\<bar> < 2 ^ 53" "\<bar>temp\<bar> < 2 ^ 53" using assms(6,7) by (auto simp: in_range_def)
  ultimately show ?thesis
    unfolding parseNewOptData_def optElectrical_packed [OF assms(1-5)]
    by (simp add: e eday_bits(2) [OF assms(6)] scaled_exact py_index_def Let_def)
qed

text \<open>
  The blocks of the S440 optimizers carry the same bit fields, without energy and temperature,
  which are reported as zero.
\<close>

theorem s440_optimizer_layout:
  assumes "in_range CL timeStamp" "in_range CH uptime" "vpan < 1024" "vopt < 1024" "imod < 4096"
  shows "parseS440OptData lt seId optItems (packMeasurements timeStamp uptime vpan vopt imod @ rest) =
    devDataDict lt seId optItems
      [PInt timeStamp, PInt 0, PInt uptime, PFloat (Fin (of_nat vpan / 8)), PFloat (Fin (of_nat vopt / 8)),
       scaled sixteenth_dA (int imod), PInt 0, PInt 0]"
  by (simp add: parseS440OptData_def optElectrical_packed [OF assms])

subsection \<open>Identifiers and the corrected maximum power\<close>

text \<open>
  Two device numbers are shown with the same identifier exactly when they agree outside bit 23,
  the bit that is sometimes set.
\<close>

theorem parseId_eq_iff: "parseId x = parseId y \<longleftrightarrow> x AND 0xff7fffff = y AND 0xff7fffff"
proof -
  have "0 \<le> z AND 0xff7fffff" for z :: int by simp
  then show ?thesis by (simp add: parseId_def nat_eq_iff)
qed

lemma Pmax_item:
  assumes "parseInvData lt seId invItems b = Inr d"
  shows "dget d (KS ''Pmax'') = Some (PFloat (f32_of_int (dec_field LE CL (slice 72 76 b))))"
  using inverter_item [OF assms, of 13]
  by (simp add: invItems_def invIdx_def invInFmt_def dec_any_def Let_def)

text \<open>
  No inverter is stored with a maximum power below -3e38: after an inverter block has been
  parsed its dictionary is stored under its identifier, and the maximum power in it is NaN where
  the block has the byte-swapped "not a number" ff ff 7f ff.
\<close>

theorem inverter_Pmax_corrected:
  assumes "parseBlock lt 0x0010 seId blk whole acc cs = (cs', Inr acc')"
  shows "\<exists>d x. dget (invDict acc') (KS seId) = Some (PDict d) \<and> dget d (KS ''Pmax'') = Some (PFloat x) \<and>
    \<not> x < Fin (- 3 * 10 ^ 38) \<and> (if slice 72 76 blk = [0xff, 0xff, 0x7f, 0xff] then x = NaN else True)"
proof -
  obtain d d' where d: "parseInvData lt seId invItems blk = Inr d" and d': "fixPmax d = Inr d'"
    and acc: "acc' = acc\<lparr>invDict := dput (KS seId) (PDict d') (invDict acc)\<rparr>"
    using assms by (auto simp: parseBlock_def res_simps)
  let ?x = "f32_of_int (dec_field LE CL (slice 72 76 blk))"
  have f: "d' = (if ?x < Fin (- 3 * 10 ^ 38) then dput (KS ''Pmax'') (PFloat NaN) d else d)"
    using d' Pmax_item [OF d] by (auto simp: fixPmax_def dlookup_def not_reported_def split: if_splits)
  have nan: "?x < Fin (- 3 * 10 ^ 38)" if "slice 72 76 blk = [0xff, 0xff, 0x7f, 0xff]"
  proof -
    have "dec_field LE CL [0xff, 0xff, 0x7f, 0xff] = 0xff7fffff" by (simp add: dec_field_def ordered_def)
    then show ?thesis using that f32_examples(3) by simp
  qed
  show ?thesis
    using nan Pmax_item [OF d] by (auto simp: acc f)
qed

subsection \<open>Concrete blocks\<close>

theorem parseDeviceData_blocks_witness:
  "parseDeviceData utc_1970_01_01 [0, 3, 1, 0, 0, 0, 2, 0, 7, 7] initial_classes
     = (initial_classes, Inl StructError)"
proof -
  have "list_all block_in_range [(0x0300, 1, [7, 7])]" by (simp add: in_range_def)
  from parseDeviceData_blocks [OF this, of utc_1970_01_01 initial_classes]
  have "parseDeviceData utc_1970_01_01 (concat (map blockBytes [(0x0300, 1, [7, 7])])) initial_classes
      = (initial_classes, Inl StructError)"
    by (simp add: parseBlock_def parseEventData_def selectFields_error fmt_sizes fmt_lens eventIdx_def)
  moreover have "concat (map blockBytes [(0x0300, 1, [7, 7])]) = [0, 3, 1, 0, 0, 0, 2, 0, 7, 7]"
    by code_simp
  ultimately show ?thesis by (simp only:)
qed

theorem inverter_items_witness:
  "\<exists>d. parseInvData utc_1970_01_01 ''A'' invItems (replicate 104 0) = Inr d \<and>
     dget d (KS ''Eday'') = Some (PFloat (Fin 0))"
proof -
  obtain d where d: "parseInvData utc_1970_01_01 ''A'' invItems (replicate 104 0) = Inr d"
    using parseInvData_iff [of utc_1970_01_01 "''A''" "replicate 104 0"] by auto
  have "slice 16 20 (replicate 104 (0 :: byte)) = [0, 0, 0, 0]" by (simp add: slice_def numeral_eq_Suc)
  with inverter_items [OF d] d show ?thesis
    by (auto simp: inverter_doc_def dec_any_def dec_field_def ordered_def f32_of_int_def)
qed

theorem inverter3ph_items_witness:
  "\<exists>d. parseInv3PhData utc_1970_01_01 ''A'' inv3PhItems (replicate 128 0) = Inr d \<and>
     dget d (KS ''Vdc'') = Some (PFloat (Fin 0))"
proof -
  obtain d where d: "parseInv3PhData utc_1970_01_01 ''A'' inv3PhItems (replicate 128 0) = Inr d"
    using parseInv3PhData_iff [of utc_1970_01_01 "''A''" "replicate 128 0"] by auto
  have "slice 68 72 (replicate 128 (0 :: byte)) = [0, 0, 0, 0]" by (simp add: slice_def numeral_eq_Suc)
  with inverter3ph_items [OF d, of 19] d show ?thesis
    by (auto simp: inv3PhItems_def inv3PhInFmt_def dec_any_def dec_field_def ordered_def f32_of_int_def Let_def)
qed

text \<open>A clock that always shows the same time.\<close>

definition stopped_clock :: clock where
  "stopped_clock ts = Inr \<lparr>tm_year = 2000, tm_mon = 1, tm_mday = 1, tm_hour = 0, tm_min = 0, tm_sec = 0, tm_wday = 5\<rparr>"

theorem block_lengths_witness:
  "(\<exists>d. parseEventData stopped_clock ''A'' eventItems (replicate 28 0) = Inr d) \<and>
   \<not> (\<exists>d. parseEventData stopped_clock ''A'' eventItems (replicate 32 0) = Inr d)"
proof -
  have "\<exists>t. stopped_clock ts = Inr t" for ts by (simp add: stopped_clock_def)
  from block_lengths [OF this, where seId = "''A''"] show ?thesis by simp
qed

theorem new_optimizer_layout_witness:
  "parseNewOptData utc_1970_01_01 ''A'' optItems
     (packMeasurements 100 7 320 240 1600 @ enc_field LE CH 9 @ enc_field LE Cb (- 3) @ [])
   = devDataDict utc_1970_01_01 ''A'' optItems
      [PInt 100, PInt 0, PInt 7, PFloat (Fin 40), PFloat (Fin 30), scaled sixteenth_dA 1600,
       PFloat (Fin (9 / 4)), PFloat (Fin (- 6))]"
  by (subst new_optimizer_layout) (simp_all add: in_range_def)

theorem s440_optimizer_layout_witness:
  "parseS440OptData utc_1970_01_01 ''A'' optItems (packMeasurements 100 7 320 240 1600 @ [1, 2])
   = devDataDict utc_1970_01_01 ''A'' optItems
      [PInt 100, PInt 0, PInt 7, PFloat (Fin 40), PFloat (Fin 30), scaled sixteenth_dA 1600, PInt 0, PInt 0]"
  by (subst s440_optimizer_layout) (simp_all add: in_range_def)

theorem inverter_Pmax_corrected_witness:
  "\<exists>cs acc d. parseBlock utc_1970_01_01 0x0010 ''A'' (replicate 72 0 @ [0xff, 0xff, 0x7f, 0xff] @ replicate 28 0) []
      no_devs initial_classes = (cs, Inr acc) \<and>
    dget (invDict acc) (KS ''A'') = Some (PDict d) \<and> dget d (KS ''Pmax'') = Some (PFloat NaN)"
proof -
  let ?b = "replicate 72 0 @ [0xff, 0xff, 0x7f, 0xff] @ replicate 28 0 :: bytes"
  obtain d where d: "parseInvData utc_1970_01_01 ''A'' invItems ?b = Inr d"
    using parseInvData_iff [of utc_1970_01_01 "''A''" ?b] by auto
  have "\<exists>d'. fixPmax d = Inr d'"
    using Pmax_item [OF d] by (simp add: fixPmax_def dlookup_def not_reported_def)
  with d obtain cs acc where
    p: "parseBlock utc_1970_01_01 0x0010 ''A'' ?b [] no_devs initial_classes = (cs, Inr acc)"
    by (auto simp: parseBlock_def simp del: append.simps replicate.simps)
  have "slice 72 76 ?b = [0xff, 0xff, 0x7f, 0xff]" by (simp add: slice_def)
  with inverter_Pmax_corrected [OF p] p show ?thesis by (simp only: if_True refl simp_thms) blast
qed

end
