(* ===== verification/Data.thy ===== *)
theory Data
  imports Commands Payloads BlockProps
begin

text \<open>
  The dispatch of \<^verbatim>\<open>se/data.py\<close>: \<open>parseData\<close> chooses the parser of a payload by function code.
\<close>

subsection \<open>Dispatch\<close>

text \<open>
  \<^verbatim>\<open>''.join(x.encode('hex') for x in data)\<close>: the elements of a byte string are integers, so the
  first one raises.
\<close>

definition hexJoin :: "bytes \<Rightarrow> pyval res" where
  "hexJoin data = (if data = [] then Inr (PStr []) else Inl AttributeError)"

definition noArgFunctions :: "int list" where
  "noArgFunctions = [
     PROT_RESP_ACK, PROT_RESP_NACK, PROT_CMD_MISC_GET_VER,
     PROT_CMD_MISC_GET_TYPE, PROT_CMD_SERVER_GET_GMT,
     PROT_CMD_SERVER_GET_NAME, PROT_CMD_POLESTAR_GET_STATUS,
     PROT_CMD_POLESTAR_MASTER_GRANT, PROT_RESP_POLESTAR_MASTER_GRANT_ACK]"

definition parseData :: "clock \<Rightarrow> int \<Rightarrow> bytes \<Rightarrow> classes \<Rightarrow> classes \<times> pyval res" where
  "parseData lt function data cs =
     (if function \<in> set noArgFunctions then (cs, hexJoin data)
      else if function = PROT_CMD_SERVER_POST_DATA then parseDeviceData lt data cs
      else if function = PROT_RESP_POLESTAR_GET_STATUS then (cs, parseStatus data)
      else if function = PROT_CMD_PARAMS_GET_SINGLE \<or> function = PROT_CMD_UPGRADE_START then (cs, parseParam data)
      else if function = PROT_CMD_MISC_RESET \<or> function = PROT_RESP_PARAMS_SINGLE then (cs, parseValueType data)
      else if function = PROT_RESP_MISC_GET_VER then (cs, parseVersion data)
      else if function = PROT_CMD_PARAMS_SET_SINGLE then (cs, parseParamValue data)
      else if function = PROT_CMD_UPGRADE_WRITE then (cs, parseOffsetLength data)
      else if function = PROT_RESP_UPGRADE_SIZE then (cs, parseLong data)
      else if function = PROT_RESP_MISC_GET_TYPE then (cs, parseParam data)
      else if function = PROT_RESP_SERVER_GMT then (cs, parseTime data)
      else if function = PROT_RESP_POLESTAR_GET_ENERGY_STATISTICS_STATUS then (cs, parseEnergyStats lt data)
      else (cs, Inr (PStr (hex_encode data))))"

subsection \<open>Properties of the dispatch\<close>

lemmas prot_defs = PROT_CMD_SERVER_POST_DATA_def PROT_RESP_POLESTAR_GET_STATUS_def
  PROT_CMD_PARAMS_GET_SINGLE_def PROT_CMD_UPGRADE_START_def PROT_CMD_MISC_RESET_def
  PROT_RESP_PARAMS_SINGLE_def PROT_RESP_MISC_GET_VER_def PROT_CMD_PARAMS_SET_SINGLE_def
  PROT_CMD_UPGRADE_WRITE_def PROT_RESP_UPGRADE_SIZE_def PROT_RESP_MISC_GET_TYPE_def
  PROT_RESP_SERVER_GMT_def PROT_RESP_POLESTAR_GET_ENERGY_STATISTICS_STATUS_def
  PROT_RESP_ACK_def PROT_RESP_NACK_def PROT_CMD_MISC_GET_VER_def
  PROT_CMD_MISC_GET_TYPE_def PROT_CMD_SERVER_GET_GMT_def PROT_CMD_SERVER_GET_NAME_def
  PROT_CMD_POLESTAR_GET_STATUS_def PROT_CMD_POLESTAR_MASTER_GRANT_def
  PROT_RESP_POLESTAR_MASTER_GRANT_ACK_def

text \<open>
  C22.  Whatever message is parsed, and whether or not an exception ends the parse, the class-level
  layouts stay the tables of the source followed by fields for undeciphered bytes.
\<close>

theorem parseData_classes_ok:
  assumes "classes_ok cs"
  shows "classes_ok (fst (parseData lt function data cs))"
  using parseDeviceData_classes_ok [OF assms, of lt data] assms
  by (simp add: parseData_def)

theorem parseData_classes_ok_witness:
  "classes_ok (fst (parseData utc_1970_01_01 0x0500 [0x30, 0, 1, 0, 0, 0, 100, 0] initial_classes)) \<and>
   length (battery_defn (fst (parseData utc_1970_01_01 0x0500 [0x30, 0, 1, 0, 0, 0, 100, 0] initial_classes)))
     = Suc (length battery_table)"
proof -
  have hdr: "unpackHdr (slice 0 devHdrLen [0x30, 0, 1, 0, 0, 0, 100, 0]) = Inr (0x30, 1, 100)" by code_simp
  let ?f = "\<lambda>data. fst (newDevice utc_1970_01_01 data False initial_classes)"
  have "battery_defn (?f [0x30, 0, 1, 0, 0, 0, 100, 0]) = extended battery_table 100"
    using fst_deviceInit [of utc_1970_01_01 "''batteries''" Inr battery_hypotheses
        "[0x30, 0, 1, 0, 0, 0, 100, 0]" battery_table "[]"] hdr
    by (simp add: newDevice_known [OF hdr] batteryInit_def initial_classes_def split_beta)
  then have "length (battery_defn (?f [0x30, 0, 1, 0, 0, 0, 100, 0])) = Suc (length battery_table)"
    by (simp add: extended_def battery_layout)
  moreover have "fst (parseData utc_1970_01_01 0x0500 [0x30, 0, 1, 0, 0, 0, 100, 0] initial_classes)
      = ?f [0x30, 0, 1, 0, 0, 0, 100, 0]"
    using hdr
    by (simp add: parseData_def noArgFunctions_def prot_defs parseDeviceData_def parseBlocks.simps parseBlock_def
        devHdrLen_def slice_def split: prod.split sum.split)
  moreover have "classes_ok (fst (parseData utc_1970_01_01 0x0500 [0x30, 0, 1, 0, 0, 0, 100, 0] initial_classes))"
    by (rule parseData_classes_ok [OF classes_ok_initial])
  ultimately show ?thesis by (simp only: simp_thms)
qed

text \<open>The function codes with a parser of their own.\<close>

definition handledFunctions :: "int list" where
  "handledFunctions = noArgFunctions @ [
     PROT_CMD_SERVER_POST_DATA, PROT_RESP_POLESTAR_GET_STATUS, PROT_CMD_PARAMS_GET_SINGLE,
     PROT_CMD_UPGRADE_START, PROT_CMD_MISC_RESET, PROT_RESP_PARAMS_SINGLE, PROT_RESP_MISC_GET_VER,
     PROT_CMD_PARAMS_SET_SINGLE, PROT_CMD_UPGRADE_WRITE, PROT_RESP_UPGRADE_SIZE,
     PROT_RESP_MISC_GET_TYPE, PROT_RESP_SERVER_GMT, PROT_RESP_POLESTAR_GET_ENERGY_STATISTICS_STATUS]"

text \<open>
  The payload of a message with an unknown function code is never lost and never raises: it is
  returned as a hex string from which \<^verbatim>\<open>unhexlify\<close> restores it.
\<close>

theorem unknown_function_keeps_payload:
  assumes "function \<notin> set handledFunctions"
  shows "\<exists>s. parseData lt function data cs = (cs, Inr (PStr s)) \<and> unhexlify s = Inr data"
  using assms unhexlify_hex_encode [of data] by (simp add: parseData_def handledFunctions_def)

theorem unknown_function_keeps_payload_witness:
  "\<exists>s. parseData utc_1970_01_01 0x0503 [1, 2] initial_classes = (initial_classes, Inr (PStr s)) \<and>
     unhexlify s = Inr [1, 2]"
  by (rule unknown_function_keeps_payload) (simp add: handledFunctions_def noArgFunctions_def prot_defs)

end
