(* ===== verification/Crc.thy ===== *)
theory Crc
  imports Prelude
begin

text \<open>
  The checksum of \<^verbatim>\<open>se/msg.py\<close>: \<open>crcTable\<close> and \<open>calcCrc\<close> as the file has them, the bit-serial
  CRC-16 the comment above the table describes (poly 0x8005, init 0x5a5a, input and output
  reflected, no final xor), their equivalence, and the errors the checksum detects.
  The running value never leaves 16 bits, so it is a \<open>16 word\<close>.
\<close>

subsection \<open>The table and the table-driven loop\<close>

definition crcTable :: "16 word list" where
  "crcTable = [
     0x0000, 0xc0c1, 0xc181, 0x0140, 0xc301, 0x03c0, 0x0280, 0xc241,
     0xc601, 0x06c0, 0x0780, 0xc741, 0x0500, 0xc5c1, 0xc481, 0x0440,
     0xcc01, 0x0cc0, 0x0d80, 0xcd41, 0x0f00, 0xcfc1, 0xce81, 0x0e40,
     0x0a00, 0xcac1, 0xcb81, 0x0b40, 0xc901, 0x09c0, 0x0880, 0xc841,
     0xd801, 0x18c0, 0x1980, 0xd941, 0x1b00, 0xdbc1, 0xda81, 0x1a40,
     0x1e00, 0xdec1, 0xdf81, 0x1f40, 0xdd01, 0x1dc0, 0x1c80, 0xdc41,
     0x1400, 0xd4c1, 0xd581, 0x1540, 0xd701, 0x17c0, 0x1680, 0xd641,
     0xd201, 0x12c0, 0x1380, 0xd341, 0x1100, 0xd1c1, 0xd081, 0x1040,
     0xf001, 0x30c0, 0x3180, 0xf141, 0x3300, 0xf3c1, 0xf281, 0x3240,
     0x3600, 0xf6c1, 0xf781, 0x3740, 0xf501, 0x35c0, 0x3480, 0xf441,
     0x3c00, 0xfcc1, 0xfd81, 0x3d40, 0xff01, 0x3fc0, 0x3e80, 0xfe41,
     0xfa01, 0x3ac0, 0x3b80, 0xfb41, 0x3900, 0xf9c1, 0xf881, 0x3840,
     0x2800, 0xe8c1, 0xe981, 0x2940, 0xeb01, 0x2bc0, 0x2a80, 0xea41,
     0xee01, 0x2ec0, 0x2f80, 0xef41, 0x2d00, 0xedc1, 0xec81, 0x2c40,
     0xe401, 0x24c0, 0x2580, 0xe541, 0x2700, 0xe7c1, 0xe681, 0x2640,
     0x2200, 0xe2c1, 0xe381, 0x2340, 0xe101, 0x21c0, 0x2080, 0xe041,
     0xa001, 0x60c0, 0x6180, 0xa141, 0x6300, 0xa3c1, 0xa281, 0x6240,
     0x6600, 0xa6c1, 0xa781, 0x6740, 0xa501, 0x65c0, 0x6480, 0xa441,
     0x6c00, 0xacc1, 0xad81, 0x6d40, 0xaf01, 0x6fc0, 0x6e80, 0xae41,
     0xaa01, 0x6ac0, 0x6b80, 0xab41, 0x6900, 0xa9c1, 0xa881, 0x6840,
     0x7800, 0xb8c1, 0xb981, 0x7940, 0xbb01, 0x7bc0, 0x7a80, 0xba41,
     0xbe01, 0x7ec0, 0x7f80, 0xbf41, 0x7d00, 0xbdc1, 0xbc81, 0x7c40,
     0xb401, 0x74c0, 0x7580, 0xb541, 0x7700, 0xb7c1, 0xb681, 0x7640,
     0x7200, 0xb2c1, 0xb381, 0x7340, 0xb101, 0x71c0, 0x7080, 0xb041,
     0x5000, 0x90c1, 0x9181, 0x5140, 0x9301, 0x53c0, 0x5280, 0x9241,
     0x9601, 0x56c0, 0x5780, 0x9741, 0x5500, 0x95c1, 0x9481, 0x5440,
     0x9c01, 0x5cc0, 0x5d80, 0x9d41, 0x5f00, 0x9fc1, 0x9e81, 0x5e40,
     0x5a00, 0x9ac1, 0x9b81, 0x5b40, 0x9901, 0x59c0, 0x5880, 0x9841,
     0x8801, 0x48c0, 0x4980, 0x8941, 0x4b00, 0x8bc1, 0x8a81, 0x4a40,
     0x4e00, 0x8ec1, 0x8f81, 0x4f40, 0x8d01, 0x4dc0, 0x4c80, 0x8c41,
     0x4400, 0x84c1, 0x8581, 0x4540, 0x8701, 0x47c0, 0x4680, 0x8641,
     0x8201, 0x42c0, 0x4380, 0x8341, 0x4100, 0x81c1, 0x8081, 0x4040]"

definition crc_step :: "16 word \<Rightarrow> byte \<Rightarrow> 16 word" where
  "crc_step crc d = crcTable ! unat ((crc XOR ucast d) AND 0xff) XOR drop_bit 8 crc"

definition calcCrc :: "bytes \<Rightarrow> 16 word" where
  "calcCrc data = foldl crc_step 0x5a5a data"

subsection \<open>The bit-serial reference\<close>

text \<open>\<open>reflect16 w\<close> is \<open>w\<close> with its bits in the opposite order.\<close>

definition reflect16 :: "16 word \<Rightarrow> 16 word" where
  "reflect16 w = horner_sum of_bool 2 (rev (map (bit w) [0..<16]))"

definition crc_shift :: "16 word \<Rightarrow> 16 word" where
  "crc_shift r = (if bit r 0 then drop_bit 1 r XOR reflect16 0x8005 else drop_bit 1 r)"

definition crc_serial_step :: "16 word \<Rightarrow> byte \<Rightarrow> 16 word" where
  "crc_serial_step crc d = (crc_shift ^^ 8) (crc XOR ucast d)"

definition crc_serial :: "bytes \<Rightarrow> 16 word" where
  "crc_serial data = foldl crc_serial_step 0x5a5a data"

lemma reflect16_poly: "reflect16 0x8005 = 0xA001"
  by (simp add: reflect16_def upt_rec)

lemma crc_shift_eq: "crc_shift r = (if odd r then drop_bit 1 r XOR 0xA001 else drop_bit 1 r)"
  by (simp add: crc_shift_def reflect16_poly bit_0)

subsection \<open>Linear maps of words\<close>

locale xor_linear =
  fixes f :: "'a::len word \<Rightarrow> 'a word"
  assumes lin: "f (x XOR y) = f x XOR f y"
    and inj: "f x = f y \<Longrightarrow> x = y"
begin

lemma zero: "f 0 = 0"
  using lin [of 0 0] by simp

lemma pow_lin: "(f ^^ n) (x XOR y) = (f ^^ n) x XOR (f ^^ n) y"
  by (induction n) (simp_all add: lin)

lemma pow_inj: "(f ^^ n) x = (f ^^ n) y \<Longrightarrow> x = y"
  by (induction n) (auto dest: inj)

end

interpretation shift: xor_linear crc_shift
proof
  fix x y :: "16 word"
  show "crc_shift (x XOR y) = crc_shift x XOR crc_shift y"
    unfolding crc_shift_def by (auto simp: bit_xor_iff bit_eq_iff bit_drop_bit_eq)
  show "x = y" if h: "crc_shift x = crc_shift y"
  proof (rule bit_word_eqI)
    have top: "bit (crc_shift z) 15 \<longleftrightarrow> bit z 0" for z
      using bit_imp_le_length [of z 16]
      by (auto simp: crc_shift_def reflect16_poly bit_xor_iff bit_drop_bit_eq)
    then have b0: "bit x 0 = bit y 0" using h by metis
    have rest: "bit (drop_bit 1 x) n = bit (drop_bit 1 y) n" for n
      using arg_cong [OF h, of "\<lambda>z. bit z n"] b0 unfolding crc_shift_def
      by (auto simp: bit_xor_iff split: if_splits)
    show "bit x n = bit y n" for n
      using b0 rest [of "n - 1"] by (cases n) (auto simp: bit_drop_bit_eq)
  qed
qed

text \<open>Shifting out zero bits is a plain shift.\<close>

lemma crc_shift_zeros: "(\<And>i. i < n \<Longrightarrow> \<not> bit r i) \<Longrightarrow> (crc_shift ^^ n) r = drop_bit n r"
proof (induction n arbitrary: r)
  case (Suc n)
  have "crc_shift r = drop_bit 1 r"
    using Suc.prems [of 0] by (simp add: crc_shift_def)
  moreover have "(crc_shift ^^ n) (drop_bit 1 r) = drop_bit n (drop_bit 1 r)"
    using Suc.prems by (intro Suc.IH) (simp add: bit_drop_bit_eq)
  ultimately show ?case
    by (simp add: funpow_swap1 [symmetric] del: funpow.simps) (simp add: funpow_swap1)
qed simp

subsection \<open>The table holds the eight-step remainders\<close>

text \<open>
  By linearity the table is determined by its entries at the powers of two: it is built by
  doubling, each time with one more power added to every entry.
\<close>

definition dbl :: "16 word list \<Rightarrow> 16 word \<Rightarrow> 16 word list" where
  "dbl xs w = xs @ map (\<lambda>x. x XOR w) xs"

lemma crcTable_dbl:
  "crcTable = foldl dbl [0] (map (\<lambda>k. (crc_shift ^^ 8) (2 ^ k)) [0, 1, 2, 3, 4, 5, 6, 7])"
proof -
  have eight: "(f ^^ 8) x = f (f (f (f (f (f (f (f x)))))))" for f :: "16 word \<Rightarrow> 16 word" and x
    by (simp add: eval_nat_numeral)
  have "map (\<lambda>k. (crc_shift ^^ 8) (2 ^ k)) [0, 1, 2, 3, 4, 5, 6, 7]
      = [0xc0c1, 0xc181, 0xc301, 0xc601, 0xcc01, 0xd801, 0xf001, 0xa001]"
    by (simp add: crc_shift_eq eight)
  then show ?thesis by (simp add: crcTable_def dbl_def)
qed

definition tab_ok :: "nat \<Rightarrow> 16 word list \<Rightarrow> bool" where
  "tab_ok k xs \<longleftrightarrow> length xs = 2 ^ k \<and> (\<forall>i < 2 ^ k. xs ! i = (crc_shift ^^ 8) (of_nat i))"

lemma of_nat_add_pow2:
  assumes "i < 2 ^ k"
  shows "of_nat (2 ^ k + i) = (of_nat i :: 16 word) XOR 2 ^ k"
proof -
  have "(of_nat i :: 16 word) AND 2 ^ k = 0"
    using assms by (intro bit_word_eqI)
      (auto simp: bit_and_iff bit_exp_iff bit_of_nat_iff bit_nat_def)
  then show ?thesis
    by (simp add: disjunctive_xor_eq_or disjunctive_add_eq_or add.commute)
qed

lemma tab_ok_dbl: "tab_ok k xs \<Longrightarrow> tab_ok (Suc k) (dbl xs ((crc_shift ^^ 8) (2 ^ k)))"
proof -
  assume ok: "tab_ok k xs"
  have "dbl xs ((crc_shift ^^ 8) (2 ^ k)) ! i = (crc_shift ^^ 8) (of_nat i)" if "i < 2 ^ Suc k" for i
  proof (cases "i < 2 ^ k")
    case False
    define j where "j = i - 2 ^ k"
    have i: "i = 2 ^ k + j" and j: "j < 2 ^ k"
      using that False by (simp_all add: j_def)
    have "dbl xs ((crc_shift ^^ 8) (2 ^ k)) ! i = xs ! j XOR (crc_shift ^^ 8) (2 ^ k)"
      using ok j by (simp add: dbl_def nth_append tab_ok_def i)
    also have "\<dots> = (crc_shift ^^ 8) (of_nat j XOR 2 ^ k)"
      using ok j by (simp only: tab_ok_def shift.pow_lin)
    finally show ?thesis by (simp only: i of_nat_add_pow2 [OF j])
  qed (use ok in \<open>simp add: dbl_def nth_append tab_ok_def\<close>)
  then show ?thesis using ok by (simp add: tab_ok_def dbl_def)
qed

lemma tab_ok_foldl:
  "tab_ok k xs \<Longrightarrow> tab_ok (k + n) (foldl dbl xs (map (\<lambda>k. (crc_shift ^^ 8) (2 ^ k)) [k..<k + n]))"
  by (induction n) (auto dest: tab_ok_dbl)

lemma crcTable_ok: "tab_ok 8 crcTable"
proof -
  have "tab_ok 0 [0]" by (simp add: tab_ok_def shift.pow_lin [of 8 0 0, simplified])
  then have "tab_ok (0 + 8) (foldl dbl [0] (map (\<lambda>k. (crc_shift ^^ 8) (2 ^ k)) [0..<0 + 8]))"
    by (rule tab_ok_foldl)
  moreover have "[0..<0 + 8] = [0, 1, 2, 3, 4, 5, 6, 7 :: nat]"
    by (simp add: upt_rec)
  ultimately show ?thesis by (simp only: crcTable_dbl add_0)
qed

lemma crcTable_nth: "i < 256 \<Longrightarrow> crcTable ! i = (crc_shift ^^ 8) (of_nat i)"
  using crcTable_ok by (simp add: tab_ok_def)

subsection \<open>Table-driven and bit-serial steps agree\<close>

lemma crc_step_serial: "crc_step crc d = crc_serial_step crc d"
proof -
  let ?x = "crc XOR ucast d"
  define lo hi where "lo = ?x AND 0xff" and "hi = ?x AND NOT 0xff"
  have mask: "(0xff :: 16 word) = mask 8" by (simp add: mask_eq_exp_minus_1)
  have split: "?x = lo XOR hi"
    by (simp only: lo_def hi_def xor_and_mask)
  have "unat lo < 256"
    using word_and_le1 [of ?x "0xff"] by (simp add: lo_def word_le_nat_alt)
  then have low: "crcTable ! unat lo = (crc_shift ^^ 8) lo"
    by (simp add: crcTable_nth)
  have "(crc_shift ^^ 8) hi = drop_bit 8 hi"
    by (rule crc_shift_zeros) (simp add: hi_def mask bit_and_iff bit_not_iff bit_mask_iff)
  moreover have "drop_bit 8 hi = drop_bit 8 crc"
    by (intro bit_word_eqI)
      (auto simp: hi_def mask bit_and_iff bit_not_iff bit_mask_iff bit_drop_bit_eq bit_xor_iff bit_ucast_iff
        dest: bit_imp_le_length)
  ultimately have "(crc_shift ^^ 8) ?x = crcTable ! unat lo XOR drop_bit 8 crc"
    by (simp add: split shift.pow_lin low)
  then show ?thesis by (simp add: crc_step_def crc_serial_step_def lo_def)
qed

text \<open>
  C14.  The table-driven checksum is the bit-serial CRC-16 of the comment: polynomial 0x8005,
  initial value 0x5a5a, reflected input and output, no final xor.
\<close>

theorem calcCrc_is_serial_crc: "calcCrc data = crc_serial data"
proof -
  have "crc_step = crc_serial_step" by (intro ext) (rule crc_step_serial)
  then show ?thesis by (simp only: calcCrc_def crc_serial_def)
qed

subsection \<open>Detected errors\<close>

lemma crc_step_inj_state: "crc_step c d = crc_step c' d \<Longrightarrow> c = c'"
proof -
  assume "crc_step c d = crc_step c' d"
  then have "c XOR ucast d = c' XOR ucast d"
    by (auto simp: crc_step_serial crc_serial_step_def dest: shift.pow_inj)
  then show ?thesis by simp
qed

lemma foldl_crc_inj: "foldl crc_step c s = foldl crc_step c' s \<longleftrightarrow> c = c'"
  by (induction s arbitrary: c c') (auto dest: crc_step_inj_state)

text \<open>Two steps consume the two bytes as one 16-bit little-endian unit.\<close>

lemma crc_two_steps:
  "crc_step (crc_step c a) b = (crc_shift ^^ 16) (c XOR (ucast a XOR push_bit 8 (ucast b)))"
proof -
  have "(crc_shift ^^ 8) (push_bit 8 (ucast b)) = drop_bit 8 (push_bit 8 (ucast b :: 16 word))"
    by (rule crc_shift_zeros) (simp add: bit_push_bit_iff)
  also have "\<dots> = ucast b"
    by (intro bit_word_eqI)
      (auto simp: bit_drop_bit_eq bit_push_bit_iff bit_ucast_iff dest: bit_imp_le_length)
  finally have b: "ucast b = (crc_shift ^^ 8) (push_bit 8 (ucast b))" by simp
  have "crc_step (crc_step c a) b = (crc_shift ^^ 8) ((crc_shift ^^ 8) (c XOR ucast a) XOR ucast b)"
    by (simp add: crc_step_serial crc_serial_step_def)
  also have "\<dots> = (crc_shift ^^ 8) ((crc_shift ^^ 8) (c XOR ucast a XOR push_bit 8 (ucast b)))"
    by (subst b) (simp only: shift.pow_lin xor.assoc)
  also have "\<dots> = (crc_shift ^^ (8 + 8)) (c XOR ucast a XOR push_bit 8 (ucast b))"
    by (simp only: funpow_add comp_def)
  finally show ?thesis by (simp add: xor.assoc)
qed

lemma two_bytes_unit_inj:
  fixes a a' b b' :: byte
  assumes "ucast a XOR push_bit 8 (ucast b) = (ucast a' XOR push_bit 8 (ucast b') :: 16 word)"
  shows "a = a' \<and> b = b'"
proof -
  let ?u = "ucast a XOR push_bit 8 (ucast b) :: 16 word" and ?v = "ucast a' XOR push_bit 8 (ucast b') :: 16 word"
  have lo: "bit (ucast x XOR push_bit 8 (ucast y) :: 16 word) n \<longleftrightarrow> bit x n" if "n < 8" for x y :: byte and n
    using that by (auto simp: bit_xor_iff bit_push_bit_iff bit_ucast_iff)
  have hi: "bit (ucast x XOR push_bit 8 (ucast y) :: 16 word) (n + 8) \<longleftrightarrow> bit y n" if "n < 8" for x y :: byte and n
    using that by (auto simp: bit_xor_iff bit_push_bit_iff bit_ucast_iff dest: bit_imp_le_length)
  have "bit a n = bit a' n" if "n < 8" for n
    using lo [OF that] assms by metis
  moreover have "bit b n = bit b' n" if "n < 8" for n
    using hi [OF that] assms by metis
  ultimately show ?thesis by (auto intro!: bit_word_eqI)
qed

text \<open>
  A corruption confined to two adjacent bytes changes the checksum, wherever it stands.
\<close>

lemma calcCrc_adjacent: "calcCrc (p @ a # b # s) = calcCrc (p @ a' # b' # s) \<longleftrightarrow> a = a' \<and> b = b'"
proof
  assume "calcCrc (p @ a # b # s) = calcCrc (p @ a' # b' # s)"
  then have "(crc_shift ^^ 16) (foldl crc_step 0x5a5a p XOR (ucast a XOR push_bit 8 (ucast b)))
      = (crc_shift ^^ 16) (foldl crc_step 0x5a5a p XOR (ucast a' XOR push_bit 8 (ucast b')))"
    by (simp add: calcCrc_def foldl_crc_inj crc_two_steps)
  then have "ucast a XOR push_bit 8 (ucast b) = (ucast a' XOR push_bit 8 (ucast b') :: 16 word)"
    by (auto dest: shift.pow_inj)
  then show "a = a' \<and> b = b'" by (rule two_bytes_unit_inj)
qed simp

lemma calcCrc_one_byte: "calcCrc (p @ a # s) = calcCrc (p @ a' # s) \<longleftrightarrow> a = a'"
proof
  assume "calcCrc (p @ a # s) = calcCrc (p @ a' # s)"
  then have "crc_step (foldl crc_step 0x5a5a p) a = crc_step (foldl crc_step 0x5a5a p) a'"
    by (simp add: calcCrc_def foldl_crc_inj)
  then have "calcCrc (p @ a # 0 # []) = calcCrc (p @ a' # 0 # [])"
    by (simp add: calcCrc_def)
  then show "a = a'" by (simp add: calcCrc_adjacent)
qed simp

end
