(* ===== verification/Msg.thy ===== *)
theory Msg
  imports Crc PyStruct
begin

text \<open>
  The message format of \<^verbatim>\<open>se/msg.py\<close>: \<open>parseMsg\<close>, \<open>validateMsg\<close> and \<open>formatMsg\<close>.  A message is
  a 16-byte little-endian header (data length, its one's complement, sequence number, source and
  destination address, function code), the data, and a checksum over a big-endian copy of the
  last four header fields followed by the data.  Logging calls have no result and are left out.
\<close>

definition magic :: bytes where
  "magic = [0x12, 0x34, 0x56, 0x79]"

definition magicLen :: nat where "magicLen = length magic"
definition msgHdrLen :: nat where "msgHdrLen = 16"
definition checksumLen :: nat where "checksumLen = 2"

text \<open>The formats \<^verbatim>\<open>"<HHHLLH"\<close>, \<^verbatim>\<open>">HLLH"\<close> and \<^verbatim>\<open>"<H"\<close>.\<close>

definition hdrFmt :: "icode list" where "hdrFmt = [CH, CH, CH, CL, CL, CH]"
definition crcFmt :: "icode list" where "crcFmt = [CH, CL, CL, CH]"
definition sumFmt :: "icode list" where "sumFmt = [CH]"

lemmas msg_consts = magicLen_def msgHdrLen_def checksumLen_def hdrFmt_def crcFmt_def sumFmt_def

lemma magic_length [simp]: "length magic = 4" "magicLen = 4"
  by (simp_all add: magic_def magicLen_def)

text \<open>\<^verbatim>\<open>(msgSeq, fromAddr, toAddr, function, data)\<close>\<close>

type_synonym parsed = "int \<times> int \<times> int \<times> int \<times> bytes"

definition rejected :: parsed where
  "rejected = (0, 0, 0, 0, [])"

subsection \<open>Parsing\<close>

text \<open>parse the header and validate the message\<close>

definition validateMsg :: "bytes \<Rightarrow> parsed res" where
  "validateMsg msg =
     (if length msg < msgHdrLen + checksumLen then Inr rejected
      else rbind (unpack_ints LE hdrFmt (slice 0 msgHdrLen msg)) (\<lambda>hdr.
        case hdr of
          [dataLen, dataLenInv, msgSeq, fromAddr, toAddr, function] \<Rightarrow>
            if int msgHdrLen + dataLen + int checksumLen > int (length msg) then Inr rejected
            else if dataLen \<noteq> (NOT dataLenInv) AND 0xffff then Inr rejected
            else
              let n = nat dataLen; data = slice msgHdrLen (msgHdrLen + n) msg
              in rbind (unpack_ints LE sumFmt (slice (msgHdrLen + n) (msgHdrLen + n + checksumLen) msg))
                (\<lambda>ck. rbind (py_index ck 0) (\<lambda>checksum.
                  rbind (pack BE crcFmt [msgSeq, fromAddr, toAddr, function]) (\<lambda>hdrBytes.
                    let calcsum = uint (calcCrc (hdrBytes @ data))
                    in if calcsum \<noteq> checksum then Inr rejected
                       else Inr (msgSeq, fromAddr, toAddr, function, data))))
        | _ \<Rightarrow> Inl ValueError))"

definition parseMsg :: "bytes \<Rightarrow> parsed res" where
  "parseMsg msg =
     (if length msg < msgHdrLen + checksumLen then Inr rejected
      else rbind (validateMsg msg) (\<lambda>(msgSeq, fromAddr, toAddr, function, data).
        Inr (msgSeq, fromAddr, toAddr, function, data)))"

subsection \<open>Formatting\<close>

definition formatMsg :: "int \<Rightarrow> int \<Rightarrow> int \<Rightarrow> int \<Rightarrow> bytes \<Rightarrow> bytes res" where
  "formatMsg msgSeq fromAddr toAddr function data =
     rbind (pack BE crcFmt [msgSeq, fromAddr, toAddr, function]) (\<lambda>hdrBytes.
       let checksum = uint (calcCrc (hdrBytes @ data)); dataLen = int (length data)
       in rbind (pack LE hdrFmt [dataLen, (NOT dataLen) AND 0xffff, msgSeq, fromAddr, toAddr, function])
            (\<lambda>hdr. rbind (pack LE sumFmt [checksum]) (\<lambda>ck. Inr (hdr @ data @ ck))))"

subsection \<open>Basic facts\<close>

lemma complement16: "(NOT d) AND 0xffff = 0xffff - d" if "0 \<le> d" "d < 2 ^ 16" for d :: int
proof -
  have "(NOT d) AND 0xffff = take_bit 16 (NOT d)"
    by (simp add: take_bit_eq_mask mask_eq_exp_minus_1)
  also have "\<dots> = (NOT d) mod 65536"
    by (simp add: take_bit_eq_mod)
  also have "\<dots> = (- d - 1) mod 65536" by (simp add: not_int_def)
  also have "\<dots> = (65535 - d) mod 65536"
    using mod_add_self2 [of "- d - 1" 65536] by (simp add: algebra_simps)
  also have "\<dots> = 65535 - d" using that by simp
  finally show ?thesis by simp
qed

lemma calcCrc_range: "in_range CH (uint (calcCrc bs))"
  using unsigned_less [of "calcCrc bs"] by (simp add: in_range_def)

definition hdr_ok :: "int \<Rightarrow> int \<Rightarrow> int \<Rightarrow> int \<Rightarrow> bool" where
  "hdr_ok msgSeq fromAddr toAddr function \<longleftrightarrow>
     in_range CH msgSeq \<and> in_range CL fromAddr \<and> in_range CL toAddr \<and> in_range CH function"

lemma pack_crcFmt:
  "hdr_ok s f t fn \<Longrightarrow> pack BE crcFmt [s, f, t, fn] =
     Inr (enc_field BE CH s @ enc_field BE CL f @ enc_field BE CL t @ enc_field BE CH fn)"
  by (simp add: crcFmt_def hdr_ok_def)

lemma pack_crcFmt_error: "\<not> hdr_ok s f t fn \<Longrightarrow> pack BE crcFmt [s, f, t, fn] = Inl StructError"
  by (auto simp: crcFmt_def hdr_ok_def)

definition crcHdr :: "int \<Rightarrow> int \<Rightarrow> int \<Rightarrow> int \<Rightarrow> bytes" where
  "crcHdr s f t fn = enc_field BE CH s @ enc_field BE CL f @ enc_field BE CL t @ enc_field BE CH fn"

definition wireHdr :: "nat \<Rightarrow> int \<Rightarrow> int \<Rightarrow> int \<Rightarrow> int \<Rightarrow> bytes" where
  "wireHdr n s f t fn = enc_field LE CH (int n) @ enc_field LE CH (0xffff - int n) @ enc_field LE CH s
     @ enc_field LE CL f @ enc_field LE CL t @ enc_field LE CH fn"

definition wireSum :: "int \<Rightarrow> int \<Rightarrow> int \<Rightarrow> int \<Rightarrow> bytes \<Rightarrow> bytes" where
  "wireSum s f t fn data = enc_field LE CH (uint (calcCrc (crcHdr s f t fn @ data)))"

lemma wireHdr_length [simp]: "length (wireHdr n s f t fn) = 16"
  by (simp add: wireHdr_def fld.enc_length)

lemma wireSum_length [simp]: "length (wireSum s f t fn data) = 2"
  by (simp add: wireSum_def fld.enc_length)

lemma formatMsg_ok:
  assumes "hdr_ok s f t fn" and "length data < 2 ^ 16"
  shows "formatMsg s f t fn data = Inr (wireHdr (length data) s f t fn @ data @ wireSum s f t fn data)"
proof -
  have len: "0 \<le> int (length data)" "int (length data) < 2 ^ 16" using assms(2) by simp_all
  have inv: "(NOT (int (length data))) AND 0xffff = 0xffff - int (length data)"
    using len by (rule complement16)
  have "pack LE hdrFmt [int (length data), 0xffff - int (length data), s, f, t, fn]
      = Inr (wireHdr (length data) s f t fn)"
    using assms len by (simp add: hdrFmt_def wireHdr_def hdr_ok_def in_range_def)
  moreover have "pack LE sumFmt [uint (calcCrc (crcHdr s f t fn @ data))] = Inr (wireSum s f t fn data)"
    by (simp add: sumFmt_def calcCrc_range wireSum_def)
  ultimately show ?thesis
    using assms(1) by (simp add: formatMsg_def pack_crcFmt inv crcHdr_def Let_def)
qed

lemma formatMsg_error:
  "\<not> (hdr_ok s f t fn \<and> length data < 2 ^ 16) \<Longrightarrow> formatMsg s f t fn data = Inl StructError"
  by (cases "hdr_ok s f t fn")
    (simp_all add: formatMsg_def pack_crcFmt pack_crcFmt_error hdrFmt_def in_range_def Let_def)

lemma formatMsg_Inr:
  "formatMsg s f t fn data = Inr m \<Longrightarrow> hdr_ok s f t fn \<and> length data < 2 ^ 16
     \<and> m = wireHdr (length data) s f t fn @ data @ wireSum s f t fn data"
  by (cases "hdr_ok s f t fn \<and> length data < 2 ^ 16") (use formatMsg_ok formatMsg_error in auto)

text \<open>
  Formatting succeeds exactly for 16-bit sequence numbers and function codes, 32-bit addresses
  and fewer than 65536 bytes of data; otherwise it raises \<^verbatim>\<open>struct.error\<close>.
\<close>

theorem formatMsg_domain:
  "formatMsg s f t fn data =
     (if hdr_ok s f t fn \<and> length data < 2 ^ 16
      then Inr (wireHdr (length data) s f t fn @ data @ wireSum s f t fn data) else Inl StructError)"
by (simp add: formatMsg_ok formatMsg_error)

subsection \<open>The parser on explicit header bytes\<close>

lemma enc_BE: "enc_field BE c v = rev (enc_field LE c v)"
  by (simp add: enc_field_def ordered_def)

lemma enc_BE_dec_LE: "length bs = isize c \<Longrightarrow> enc_field BE c (dec_field LE c bs) = rev bs"
  by (simp add: enc_BE fld.enc_dec)

lemma dec_in_range: "length bs = isize c \<Longrightarrow> in_range c (dec_field en c bs)"
  by (rule fld.dec_ok)

abbreviation u16 :: "bytes \<Rightarrow> int" where "u16 \<equiv> dec_field LE CH"
abbreviation u32 :: "bytes \<Rightarrow> int" where "u32 \<equiv> dec_field LE CL"

lemma u16_bounds: "length bs = 2 \<Longrightarrow> 0 \<le> u16 bs \<and> u16 bs < 65536"
  using dec_in_range [of bs CH LE] by (simp add: in_range_def)

lemma validateMsg_explicit:
  assumes "2 \<le> length rest"
  shows "validateMsg ([b0, b1, b2, b3, b4, b5, b6, b7, b8, b9, b10, b11, b12, b13, b14, b15] @ rest) =
    (let n = nat (u16 [b0, b1])
     in if n + 2 > length rest \<or> u16 [b0, b1] \<noteq> 0xffff - u16 [b2, b3]
           \<or> uint (calcCrc ([b5, b4, b9, b8, b7, b6, b13, b12, b11, b10, b15, b14] @ take n rest))
             \<noteq> u16 (take 2 (drop n rest))
        then Inr rejected
        else Inr (u16 [b4, b5], u32 [b6, b7, b8, b9], u32 [b10, b11, b12, b13], u16 [b14, b15], take n rest))"
proof -
  let ?hb = "[b0, b1, b2, b3, b4, b5, b6, b7, b8, b9, b10, b11, b12, b13, b14, b15]"
  define n where "n = nat (u16 [b0, b1])"
  have n: "u16 [b0, b1] = int n" using u16_bounds [of "[b0, b1]"] by (simp add: n_def)
  have hdr: "unpack_ints LE hdrFmt ?hb =
      Inr [u16 [b0, b1], u16 [b2, b3], u16 [b4, b5], u32 [b6, b7, b8, b9], u32 [b10, b11, b12, b13], u16 [b14, b15]]"
    by (simp add: unpack_ints_def hdrFmt_def numeral_2_eq_2 numeral_eq_Suc)
  have inv: "(NOT (u16 [b2, b3])) AND 0xffff = 0xffff - u16 [b2, b3]"
    using u16_bounds [of "[b2, b3]"] by (intro complement16) simp_all
  have crc: "pack BE crcFmt [u16 [b4, b5], u32 [b6, b7, b8, b9], u32 [b10, b11, b12, b13], u16 [b14, b15]]
      = Inr [b5, b4, b9, b8, b7, b6, b13, b12, b11, b10, b15, b14]"
    by (simp add: crcFmt_def dec_in_range enc_BE_dec_LE)
  have ck: "unpack_ints LE sumFmt (take 2 (drop n rest)) = Inr [u16 (take 2 (drop n rest))]"
    if "n + 2 \<le> length rest"
    using that by (simp add: unpack_ints_def sumFmt_def)
  have s1: "slice 0 16 (?hb @ rest) = ?hb" by (simp add: slice_def)
  have s2: "slice 16 (16 + n) (?hb @ rest) = take n rest" by (simp add: slice_def)
  have s3: "slice (16 + n) (16 + n + 2) (?hb @ rest) = take 2 (drop n rest)"
    by (simp add: slice_def del: append.simps)
  note eval = validateMsg_def msg_consts(2,3) s1 s2 hdr [simplified] n inv crc py_index_def Let_def
  show ?thesis
  proof (cases "n + 2 \<le> length rest \<and> u16 [b2, b3] = 0xffff - int n")
    case True
    then have b2: "u16 [b2, b3] = 0xffff - int n" by blast
    from True show ?thesis
      using ck s3 by (simp add: eval [unfolded b2] b2 del: append.simps One_nat_def)
  next
    case False
    then show ?thesis
      using assms by (auto simp: eval simp del: append.simps One_nat_def)
  qed
qed

lemma split_header:
  assumes "16 \<le> length msg"
  obtains b0 b1 b2 b3 b4 b5 b6 b7 b8 b9 b10 b11 b12 b13 b14 b15 rest where
    "msg = [b0, b1, b2, b3, b4, b5, b6, b7, b8, b9, b10, b11, b12, b13, b14, b15] @ rest"
proof -
  have "length (take 16 msg) = 16" using assms by simp
  then obtain b0 b1 b2 b3 b4 b5 b6 b7 b8 b9 b10 b11 b12 b13 b14 b15 where
    "take 16 msg = [b0, b1, b2, b3, b4, b5, b6, b7, b8, b9, b10, b11, b12, b13, b14, b15]"
    by (simp only: numeral_eq_Suc pred_numeral_simps length_Suc_conv length_0_conv
        BitM.simps arith_simps) blast
  then show thesis using that append_take_drop_id [of 16 msg] by metis
qed

lemma split_msg:
  assumes "18 \<le> length msg"
  obtains b0 b1 b2 b3 b4 b5 b6 b7 b8 b9 b10 b11 b12 b13 b14 b15 rest where
    "msg = [b0, b1, b2, b3, b4, b5, b6, b7, b8, b9, b10, b11, b12, b13, b14, b15] @ rest" "2 \<le> length rest"
proof -
  obtain b0 b1 b2 b3 b4 b5 b6 b7 b8 b9 b10 b11 b12 b13 b14 b15 rest where
    "msg = [b0, b1, b2, b3, b4, b5, b6, b7, b8, b9, b10, b11, b12, b13, b14, b15] @ rest"
    by (rule split_header [of msg]) (use assms in simp_all)
  moreover from this have "2 \<le> length rest" using assms by simp
  ultimately show thesis by (rule that)
qed

text \<open>\<open>parseMsg\<close> repeats the length test of \<open>validateMsg\<close>.\<close>

lemma parseMsg_validateMsg: "parseMsg msg = validateMsg msg"
  by (cases "validateMsg msg") (auto simp: parseMsg_def validateMsg_def)

lemma wireHdr_explicit:
  "wireHdr n s f t fn @ xs = [b0, b1, b2, b3, b4, b5, b6, b7, b8, b9, b10, b11, b12, b13, b14, b15] @ ys
   \<longleftrightarrow> enc_field LE CH (int n) = [b0, b1] \<and> enc_field LE CH (0xffff - int n) = [b2, b3]
     \<and> enc_field LE CH s = [b4, b5] \<and> enc_field LE CL f = [b6, b7, b8, b9]
     \<and> enc_field LE CL t = [b10, b11, b12, b13] \<and> enc_field LE CH fn = [b14, b15] \<and> xs = ys"
proof -
  have two: "e @ r = a # b # c \<longleftrightarrow> e = [a, b] \<and> r = c" if "length e = 2" for e r c :: bytes and a b
    using that by (auto simp: length_Suc_conv numeral_2_eq_2)
  have four: "e @ r = a # b # c # d # q \<longleftrightarrow> e = [a, b, c, d] \<and> r = q" if "length e = 4" for e r q :: bytes and a b c d
    using that by (auto simp: length_Suc_conv numeral_eq_Suc)
  show ?thesis
    by (simp add: wireHdr_def fld.enc_length two four)
qed

subsection \<open>The parser accepts what the formatter produces\<close>

lemma parseMsg_short: "length msg < 18 \<Longrightarrow> parseMsg msg = Inr rejected"
  by (simp add: parseMsg_def msgHdrLen_def checksumLen_def)

lemma dec_of_enc: "enc_field en c v = bs \<Longrightarrow> in_range c v \<Longrightarrow> dec_field en c bs = v"
  using fld.dec_enc by blast

lemma parseMsg_wire:
  assumes "hdr_ok s f t fn" "length data < 2 ^ 16"
  shows "parseMsg (wireHdr (length data) s f t fn @ data @ wireSum s f t fn data @ extra) = Inr (s, f, t, fn, data)"
proof -
  let ?n = "length data"
  obtain b0 b1 b2 b3 b4 b5 b6 b7 b8 b9 b10 b11 b12 b13 b14 b15 rest where
    w: "wireHdr ?n s f t fn = [b0, b1, b2, b3, b4, b5, b6, b7, b8, b9, b10, b11, b12, b13, b14, b15] @ rest"
    by (rule split_header [of "wireHdr ?n s f t fn"]) simp_all
  then have "wireHdr ?n s f t fn @ [] = [b0, b1, b2, b3, b4, b5, b6, b7, b8, b9, b10, b11, b12, b13, b14, b15] @ rest"
    by simp
  note e = this [unfolded wireHdr_explicit]
  have d: "u16 [b0, b1] = int ?n" "u16 [b2, b3] = 0xffff - int ?n" "u16 [b4, b5] = s"
    "u32 [b6, b7, b8, b9] = f" "u32 [b10, b11, b12, b13] = t" "u16 [b14, b15] = fn"
    using e assms by (auto simp: hdr_ok_def in_range_def intro!: dec_of_enc)
  have crc: "[b5, b4, b9, b8, b7, b6, b13, b12, b11, b10, b15, b14] = crcHdr s f t fn"
    using e by (auto simp: crcHdr_def enc_BE)
  have ck: "u16 (wireSum s f t fn data) = uint (calcCrc (crcHdr s f t fn @ data))"
    unfolding wireSum_def by (intro fld.dec_enc calcCrc_range)
  have "wireHdr ?n s f t fn = [b0, b1, b2, b3, b4, b5, b6, b7, b8, b9, b10, b11, b12, b13, b14, b15]"
    using e w by auto
  then show ?thesis
    by (simp add: parseMsg_validateMsg validateMsg_explicit d crc ck Let_def del: append_Cons)
qed

lemma parseMsg_accepts:
  assumes "parseMsg msg = Inr (s, f, t, fn, data)" and "(s, f, t, fn, data) \<noteq> rejected"
  shows "hdr_ok s f t fn \<and> length data < 2 ^ 16 \<and>
    (\<exists>extra. msg = wireHdr (length data) s f t fn @ data @ wireSum s f t fn data @ extra)"
proof -
  have "18 \<le> length msg" using assms parseMsg_short by (metis Inr_inject not_le)
  then obtain b0 b1 b2 b3 b4 b5 b6 b7 b8 b9 b10 b11 b12 b13 b14 b15 rest where
    msg: "msg = [b0, b1, b2, b3, b4, b5, b6, b7, b8, b9, b10, b11, b12, b13, b14, b15] @ rest"
    and rest: "2 \<le> length rest"
    by (rule split_msg)
  define n where "n = nat (u16 [b0, b1])"
  have n: "u16 [b0, b1] = int n" "int n < 65536" using u16_bounds [of "[b0, b1]"] by (simp_all add: n_def)
  have a: "n + 2 \<le> length rest" "u16 [b2, b3] = 0xffff - int n"
    "uint (calcCrc ([b5, b4, b9, b8, b7, b6, b13, b12, b11, b10, b15, b14] @ take n rest)) = u16 (take 2 (drop n rest))"
    "s = u16 [b4, b5]" "f = u32 [b6, b7, b8, b9]" "t = u32 [b10, b11, b12, b13]" "fn = u16 [b14, b15]" "data = take n rest"
    using assms rest unfolding msg parseMsg_validateMsg validateMsg_explicit [OF rest] n
    by (auto simp: Let_def simp del: append.simps split: if_splits)
  have crc: "crcHdr s f t fn = [b5, b4, b9, b8, b7, b6, b13, b12, b11, b10, b15, b14]"
    by (simp add: crcHdr_def a enc_BE_dec_LE)
  have hdr: "wireHdr n s f t fn @ rest = msg"
    unfolding msg wireHdr_explicit a(4-7)
    using fld.enc_dec [of "[b0, b1]" CH LE] fld.enc_dec [of "[b2, b3]" CH LE] n(1) a(2) by (simp add: fld.enc_dec)
  have ck: "wireSum s f t fn data = take 2 (drop n rest)"
    unfolding wireSum_def crc a(8) a(3) using a(1) by (intro fld.enc_dec) simp
  have "rest = data @ take 2 (drop n rest) @ drop (n + 2) rest"
    by (simp only: a(8) append_assoc [symmetric] take_add [symmetric] append_take_drop_id)
  then have "rest = data @ wireSum s f t fn data @ drop (n + 2) rest"
    by (simp only: ck)
  moreover have "hdr_ok s f t fn" by (simp add: hdr_ok_def a dec_in_range)
  moreover have "length data = n" using a by simp
  ultimately show ?thesis using hdr n by auto
qed

text \<open>
  C4.  The parser accepts exactly what the formatter produces: apart from the all-zero tuple it
  returns for a rejected message, \<open>parseMsg\<close> returns a tuple if and only if the input is the message
  \<open>formatMsg\<close> builds from that tuple, followed by any number of extra bytes.
\<close>

theorem parseMsg_iff_formatMsg:
  assumes "(msgSeq, fromAddr, toAddr, function, data) \<noteq> rejected"
  shows "parseMsg msg = Inr (msgSeq, fromAddr, toAddr, function, data) \<longleftrightarrow>
    (\<exists>m extra. formatMsg msgSeq fromAddr toAddr function data = Inr m \<and> msg = m @ extra)"
proof
  assume "parseMsg msg = Inr (msgSeq, fromAddr, toAddr, function, data)"
  from parseMsg_accepts [OF this assms]
  show "\<exists>m extra. formatMsg msgSeq fromAddr toAddr function data = Inr m \<and> msg = m @ extra"
    by (auto simp: formatMsg_ok)
next
  assume "\<exists>m extra. formatMsg msgSeq fromAddr toAddr function data = Inr m \<and> msg = m @ extra"
  then show "parseMsg msg = Inr (msgSeq, fromAddr, toAddr, function, data)"
    by (auto dest!: formatMsg_Inr simp: parseMsg_wire)
qed

text \<open>
  Parsing never raises: whatever the bytes, the result is a tuple.
\<close>

theorem parseMsg_total: "\<exists>p. parseMsg msg = Inr p"
proof (cases "length msg < 18")
  case False
  then show ?thesis
    by (simp only: not_less) (erule split_msg,
      simp add: parseMsg_validateMsg validateMsg_explicit Let_def rejected_def del: append_Cons)
qed (simp add: parseMsg_short rejected_def)

subsection \<open>Corrupted messages are rejected\<close>

lemma calcCrc_update: "i < length xs \<Longrightarrow> calcCrc (xs[i := x]) = calcCrc xs \<longleftrightarrow> x = xs ! i"
  using calcCrc_one_byte [of "take i xs" x "drop (Suc i) xs" "xs ! i"]
  by (simp add: upd_conv_take_nth_drop id_take_nth_drop [symmetric])

lemma u16_update: "length bs = 2 \<Longrightarrow> i < 2 \<Longrightarrow> u16 (bs[i := x]) = u16 bs \<longleftrightarrow> x = bs ! i"
  by (subst fld.dec_inj) (auto simp: list_eq_iff_nth_eq nth_list_update)

lemma less_16_cases:
  "i < (16 :: nat) \<Longrightarrow> i \<in> {0, 1, 2, 3, 4, 5, 6, 7, 8, 9, 10, 11, 12, 13, 14, 15}"
  unfolding insert_iff empty_iff simp_thms by presburger

lemma wire_explicit:
  assumes "formatMsg s f t fn data = Inr m"
  obtains b0 b1 b2 b3 b4 b5 b6 b7 b8 b9 b10 b11 b12 b13 b14 b15 rest where
    "m = [b0, b1, b2, b3, b4, b5, b6, b7, b8, b9, b10, b11, b12, b13, b14, b15] @ rest"
    "u16 [b0, b1] = int (length data)" "u16 [b2, b3] = 0xffff - int (length data)"
    "length rest = length data + 2" "take (length data) rest = data"
    "uint (calcCrc ([b5, b4, b9, b8, b7, b6, b13, b12, b11, b10, b15, b14] @ data))
       = u16 (drop (length data) rest)"
proof -
  note w = formatMsg_Inr [OF assms]
  then have "18 \<le> length m" by simp
  then obtain b0 b1 b2 b3 b4 b5 b6 b7 b8 b9 b10 b11 b12 b13 b14 b15 rest where
    m: "m = [b0, b1, b2, b3, b4, b5, b6, b7, b8, b9, b10, b11, b12, b13, b14, b15] @ rest"
    by (rule split_msg)
  note e = conjunct2 [OF w, THEN conjunct2, unfolded m, symmetric, unfolded wireHdr_explicit]
  have rest: "rest = data @ wireSum s f t fn data" using e by simp
  have "u16 [b0, b1] = int (length data)" "u16 [b2, b3] = 0xffff - int (length data)"
    using e w by (auto simp: hdr_ok_def in_range_def intro!: dec_of_enc)
  moreover have "[b5, b4, b9, b8, b7, b6, b13, b12, b11, b10, b15, b14] = crcHdr s f t fn"
    using e by (auto simp: crcHdr_def enc_BE)
  moreover have "u16 (wireSum s f t fn data) = uint (calcCrc (crcHdr s f t fn @ data))"
    unfolding wireSum_def by (intro fld.dec_enc calcCrc_range)
  ultimately show thesis
    using m rest by (intro that [OF m]) simp_all
qed

lemma header_corruption_rejected:
  assumes m: "formatMsg s f t fn data = Inr m" and i: "i < 16" and x: "x \<noteq> m ! i"
  shows "parseMsg (m[i := x]) = Inr rejected"
proof -
  obtain b0 b1 b2 b3 b4 b5 b6 b7 b8 b9 b10 b11 b12 b13 b14 b15 rest where
    w: "m = [b0, b1, b2, b3, b4, b5, b6, b7, b8, b9, b10, b11, b12, b13, b14, b15] @ rest"
    and len: "u16 [b0, b1] = int (length data)" "u16 [b2, b3] = 0xffff - int (length data)"
    and rest: "length rest = length data + 2" "take (length data) rest = data"
    and ck: "uint (calcCrc ([b5, b4, b9, b8, b7, b6, b13, b12, b11, b10, b15, b14] @ data)) = u16 (drop (length data) rest)"
    using m by (rule wire_explicit)
  let ?C = "[b5, b4, b9, b8, b7, b6, b13, b12, b11, b10, b15, b14] @ data"
  have crc: "uint (calcCrc (?C[k := x])) \<noteq> u16 (drop (length data) rest)" if "k < 12" "x \<noteq> ?C ! k" for k
    using that calcCrc_update [of k ?C x]
    by (simp flip: ck word_uint_eq_iff del: append_Cons)
  have upd: "u16 [x, b1] \<noteq> u16 [b0, b1]" if "x \<noteq> b0" 
    using that u16_update [of "[b0, b1]" 0 x] by simp
  have upd1: "u16 [b0, x] \<noteq> u16 [b0, b1]" if "x \<noteq> b1"
    using that u16_update [of "[b0, b1]" 1 x] by simp
  have upd2: "u16 [x, b3] \<noteq> u16 [b2, b3]" if "x \<noteq> b2"
    using that u16_update [of "[b2, b3]" 0 x] by simp
  have upd3: "u16 [b2, x] \<noteq> u16 [b2, b3]" if "x \<noteq> b3"
    using that u16_update [of "[b2, b3]" 1 x] by simp
  have ge2: "2 \<le> length rest" using rest by simp
  note ev = validateMsg_explicit [OF ge2, unfolded append_Cons append_Nil] parseMsg_validateMsg Let_def
  show ?thesis
    using less_16_cases [OF i, unfolded insert_iff empty_iff] x upd upd1 upd2 upd3 crc [of 0] crc [of 1] crc [of 2] crc [of 3] crc [of 4]
      crc [of 5] crc [of 6] crc [of 7] crc [of 8] crc [of 9] crc [of 10] crc [of 11]
    unfolding w
    by (elim disjE FalseE) (simp_all add: ev len rest)
qed

lemma body_corruption_rejected:
  assumes m: "formatMsg s f t fn data = Inr m" and m': "m' = take 16 m @ rest'"
    and rest: "length rest' = length data + 2"
    and differ: "calcCrc (crcHdr s f t fn @ take (length data) rest') \<noteq> calcCrc (crcHdr s f t fn @ data)
      \<and> drop (length data) rest' = wireSum s f t fn data
      \<or> take (length data) rest' = data \<and> drop (length data) rest' \<noteq> wireSum s f t fn data"
  shows "parseMsg m' = Inr rejected"
proof -
  note w = formatMsg_Inr [OF m]
  then have "18 \<le> length m" by simp
  then obtain b0 b1 b2 b3 b4 b5 b6 b7 b8 b9 b10 b11 b12 b13 b14 b15 r where
    mm: "m = [b0, b1, b2, b3, b4, b5, b6, b7, b8, b9, b10, b11, b12, b13, b14, b15] @ r"
    by (rule split_msg)
  note e = conjunct2 [OF w, THEN conjunct2, unfolded mm, symmetric, unfolded wireHdr_explicit]
  have len: "u16 [b0, b1] = int (length data)"
    using e w by (auto simp: in_range_def intro!: dec_of_enc)
  have C: "[b5, b4, b9, b8, b7, b6, b13, b12, b11, b10, b15, b14] = crcHdr s f t fn"
    using e by (auto simp: crcHdr_def enc_BE)
  have t: "take 16 m = [b0, b1, b2, b3, b4, b5, b6, b7, b8, b9, b10, b11, b12, b13, b14, b15]"
    unfolding mm by simp
  have ck: "u16 (wireSum s f t fn data) = uint (calcCrc (crcHdr s f t fn @ data))"
    unfolding wireSum_def by (intro fld.dec_enc calcCrc_range)
  have tail: "take 2 (drop (length data) rest') = drop (length data) rest'" using rest by simp
  have "uint (calcCrc (crcHdr s f t fn @ take (length data) rest')) \<noteq> u16 (drop (length data) rest')"
    using differ
  proof
    assume "take (length data) rest' = data \<and> drop (length data) rest' \<noteq> wireSum s f t fn data"
    moreover from this have "u16 (drop (length data) rest') \<noteq> u16 (wireSum s f t fn data)"
      using rest by (subst fld.dec_inj) simp_all
    ultimately show ?thesis by (simp add: ck)
  qed (simp add: ck flip: word_uint_eq_iff)
  then show ?thesis
    using rest unfolding m' t
    by (simp add: parseMsg_validateMsg validateMsg_explicit len C tail Let_def del: append_Cons)
qed

lemma list_update_beyond: "length xs \<le> i \<Longrightarrow> (xs @ ys)[i := x] = xs @ ys[i - length xs := x]"
  by (simp add: list_update_append)

text \<open>
  C26.  Changing any single byte of a formatted message, in the header, the data or the checksum,
  makes the parser reject it.
\<close>

theorem parseMsg_detects_byte:
  assumes "formatMsg msgSeq fromAddr toAddr function data = Inr m"
    and "i < length m" and "x \<noteq> m ! i"
  shows "parseMsg (m[i := x]) = Inr rejected"
proof (cases "i < 16")
  case False
  let ?h = "wireHdr (length data) msgSeq fromAddr toAddr function"
    and ?c = "wireSum msgSeq fromAddr toAddr function data" and ?C = "crcHdr msgSeq fromAddr toAddr function"
  define j where "j = i - 16"
  have m: "m = ?h @ data @ ?c" using formatMsg_Inr [OF assms(1)] by blast
  have i: "i = 16 + j" using False by (simp add: j_def)
  have u: "m[i := x] = take 16 m @ (data @ ?c)[j := x]" by (simp add: m i list_update_append)
  show ?thesis
  proof (rule body_corruption_rejected [OF assms(1) u])
    show "calcCrc (?C @ take (length data) ((data @ ?c)[j := x])) \<noteq> calcCrc (?C @ data)
        \<and> drop (length data) ((data @ ?c)[j := x]) = ?c
      \<or> take (length data) ((data @ ?c)[j := x]) = data \<and> drop (length data) ((data @ ?c)[j := x]) \<noteq> ?c"
    proof (cases "j < length data")
      case True
      then have "?C @ data[j := x] = (?C @ data)[length ?C + j := x]" by (simp add: list_update_append)
      moreover have "x \<noteq> (?C @ data) ! (length ?C + j)" using assms(3) True by (simp add: m i nth_append)
      ultimately show ?thesis
        using True calcCrc_update [of "length ?C + j" "?C @ data" x] by (simp add: list_update_append)
    next
      case False
      then have "?c[j - length data := x] \<noteq> ?c"
        using assms(2,3) by (auto simp: m i nth_append list_update_same_conv)
      then show ?thesis using False by (simp add: list_update_append)
    qed
  qed simp
qed (use assms in \<open>simp add: header_corruption_rejected\<close>)

text \<open>
  Changing any two adjacent bytes of the data of a formatted message makes the parser reject
  it, whatever they are replaced by.
\<close>

theorem parseMsg_detects_data_burst:
  assumes "formatMsg msgSeq fromAddr toAddr function data = Inr m"
    and "Suc i < length data" and "(x, y) \<noteq> (data ! i, data ! Suc i)"
  shows "parseMsg (m[msgHdrLen + i := x, msgHdrLen + Suc i := y]) = Inr rejected"
proof -
  let ?c = "wireSum msgSeq fromAddr toAddr function data" and ?C = "crcHdr msgSeq fromAddr toAddr function"
  let ?d = "data[i := x, Suc i := y]"
  have m: "m = wireHdr (length data) msgSeq fromAddr toAddr function @ data @ ?c"
    using formatMsg_Inr [OF assms(1)] by blast
  have u: "m[msgHdrLen + i := x, msgHdrLen + Suc i := y] = take 16 m @ ?d @ ?c"
    using assms(2) by (simp add: m msgHdrLen_def list_update_append)
  have d: "data = take i data @ data ! i # data ! Suc i # drop (Suc (Suc i)) data"
    using assms(2) by (metis Cons_nth_drop_Suc Suc_lessD append_take_drop_id)
  have "length (take i data) = i" using assms(2) by simp
  then have d': "?d = take i data @ x # y # drop (Suc (Suc i)) data"
    by (subst d) (simp add: list_update_append)
  have "calcCrc (?C @ ?d) \<noteq> calcCrc (?C @ data)"
    using assms(3) calcCrc_adjacent [of "?C @ take i data" x y "drop (Suc (Suc i)) data" "data ! i" "data ! Suc i"]
    unfolding d' using d by (metis append_assoc prod.inject)
  then show ?thesis
    by (intro body_corruption_rejected [OF assms(1) u]) simp_all
qed

subsection \<open>A concrete message\<close>

lemma formatMsg_example:
  "formatMsg 1 2 3 0x80 [0x41, 0x42] =
     Inr [2, 0, 253, 255, 1, 0, 2, 0, 0, 0, 3, 0, 0, 0, 128, 0, 65, 66, 108, 104]"
  by code_simp

theorem parseMsg_iff_formatMsg_witness:
  "parseMsg ([2, 0, 253, 255, 1, 0, 2, 0, 0, 0, 3, 0, 0, 0, 128, 0, 65, 66, 108, 104] @ [7, 7])
     = Inr (1, 2, 3, 0x80, [0x41, 0x42])"
proof -
  have "(1, 2, 3, 0x80, [0x41, 0x42]) \<noteq> rejected" by (simp add: rejected_def)
  from parseMsg_iff_formatMsg [OF this] show ?thesis using formatMsg_example by blast
qed

theorem parseMsg_detects_byte_witness:
  "parseMsg [2, 0, 253, 255, 1, 0, 2, 0, 0, 0, 3, 0, 0, 0, 129, 0, 65, 66, 108, 104] = Inr rejected"
  using parseMsg_detects_byte [OF formatMsg_example, of 14 129] by simp

theorem parseMsg_detects_data_burst_witness:
  "parseMsg [2, 0, 253, 255, 1, 0, 2, 0, 0, 0, 3, 0, 0, 0, 128, 0, 66, 65, 108, 104] = Inr rejected"
  using parseMsg_detects_data_burst [OF formatMsg_example, of 0 66 65] by (simp add: msgHdrLen_def)

end
