(* ===== verification/Env.thy ===== *)
theory Env
  imports PyStr
begin

text \<open>
  Command line validation, from \<^verbatim>\<open>se/env.py\<close>: the validators of commands, slave ids and ports,
  and the checks that derive the run mode.  The options themselves are in \<open>Options\<close>, the logging
  set-up in \<open>Logging\<close>; the enumeration of the serial ports is left out: \<open>getArgs\<close> takes the parsed
  arguments and the names of the ports; \<^verbatim>\<open>parser.error\<close>, which exits, is the left result.
\<close>

subsection \<open>Validators\<close>

text \<open>\<^verbatim>\<open>s.split(c)\<close> for a one-character separator\<close>

fun split_on :: "char \<Rightarrow> string \<Rightarrow> string list" where
  "split_on c [] = [[]]"
| "split_on c (x # xs) =
     (if x = c then [] # split_on c xs
      else case split_on c xs of p # ps \<Rightarrow> (x # p) # ps | [] \<Rightarrow> [[x]])"

definition hex_digits :: "string \<Rightarrow> bool" where
  "hex_digits s \<longleftrightarrow> s \<noteq> [] \<and> list_all (\<lambda>c. hexval c \<noteq> None) s"

definition dec_digits :: "string \<Rightarrow> bool" where
  "dec_digits s \<longleftrightarrow> s \<noteq> [] \<and> list_all (\<lambda>c. case hexval c of Some d \<Rightarrow> d < 10 | None \<Rightarrow> False) s"

text \<open>\<^verbatim>\<open>$\<close> also matches before a newline that ends the string.\<close>

definition chomp :: "string \<Rightarrow> string" where
  "chomp s = (if s \<noteq> [] \<and> last s = CHR 0x0A then butlast s else s)"

fun param_ok :: "string \<Rightarrow> bool" where
  "param_ok [] = False"
| "param_ok (c # s) = (c \<in> set ''bhlBHL'' \<and> hex_digits s)"

definition command_ok :: "string \<Rightarrow> bool" where
  "command_ok c = (case split_on (CHR '','') (chomp c) of
       f # ps \<Rightarrow> hex_digits f \<and> list_all param_ok ps
     | [] \<Rightarrow> False)"

fun check_all :: "(string \<Rightarrow> bool) \<Rightarrow> string \<Rightarrow> string list \<Rightarrow> string + string list" where
  "check_all ok msg [] = Inr []"
| "check_all ok msg (x # xs) =
     (if ok x then (case check_all ok msg xs of Inl e \<Rightarrow> Inl e | Inr ys \<Rightarrow> Inr (x # ys))
      else Inl (msg @ x))"

definition validated_commands :: "string \<Rightarrow> string + string list list" where
  "validated_commands s =
     (case check_all command_ok ''Invalid command: '' (split_on (CHR ''/'') s) of
        Inl e \<Rightarrow> Inl e | Inr cs \<Rightarrow> Inr (map (split_on (CHR '','')) cs))"

definition validated_slaves :: "string \<Rightarrow> string + string list" where
  "validated_slaves s = check_all (\<lambda>x. hex_digits (chomp x)) ''Invalid slave ID: '' (split_on (CHR '','') s)"

definition int_of_dec :: "string \<Rightarrow> nat" where
  "int_of_dec s = value_of 10 (map (\<lambda>c. the (hexval c)) s)"

definition validated_ports :: "string \<Rightarrow> string + nat list" where
  "validated_ports s =
     (case check_all (\<lambda>x. dec_digits (chomp x)) ''Invalid port number: '' (split_on (CHR '','') s) of
        Inl e \<Rightarrow> Inl e | Inr ps \<Rightarrow> Inr (map (\<lambda>p. int_of_dec (chomp p)) ps))"

subsection \<open>Run mode\<close>

record run_mode =
  serialDevice :: bool
  networkDevice :: bool
  serialType :: "string option"
  passiveMode :: bool
  masterMode :: bool
  following :: bool

record arguments =
  commands :: "string list list"
  follow :: bool
  arg_following :: bool
  master :: bool
  slaves :: "string list"
  arg_type :: "string option"
  datasource :: string

text \<open>
  The argument namespace has no attribute \<^verbatim>\<open>following\<close> until it is set for a serial device; nothing
  reads it.  The run mode gets \<^verbatim>\<open>args.follow\<close>.
\<close>

definition source_checks :: "string list \<Rightarrow> arguments \<Rightarrow> string + (arguments \<times> bool \<times> bool \<times> bool)" where
  "source_checks ports args =
     (let args1 = (if datasource args = ''-'' then args\<lparr>datasource := ''stdin''\<rparr> else args);
          serial = (datasource args \<noteq> ''-'' \<and> datasource args \<noteq> ''stdin'' \<and> datasource args \<in> set ports)
      in if arg_type args1 = Some ''n''
         then if datasource args1 \<noteq> ''stdin''
              then Inl ''Input file cannot be specified for network mode''
              else Inr (args1\<lparr>datasource := ''network''\<rparr>, serial, True, False)
         else Inr (args1, serial, False, True))"

definition serial_checks ::
    "arguments \<Rightarrow> bool \<Rightarrow> bool \<Rightarrow> string + (arguments \<times> bool)" where
  "serial_checks args serial passive =
     (if serial then
        let args1 = args\<lparr>arg_following := True\<rparr>
        in if arg_type args1 = Some ''2'' then Inr (args1, False)
           else if arg_type args1 \<noteq> Some ''4''
             then Inl ''Input device type 2 or 4 must be specified for serial device''
             else Inr (args1, passive)
      else if arg_type args = Some ''2'' \<or> arg_type args = Some ''4''
        then Inl (datasource args @ '' is not a valid serial device'' @ [CHR 0x0A] @
                  ''Input device types 2 and 4 are only valid for a serial device'')
        else Inr (args, passive))"

definition master_checks :: "arguments \<Rightarrow> bool \<Rightarrow> string + bool" where
  "master_checks args passive =
     (if master args then
        if arg_type args \<noteq> Some ''4'' then Inl ''Master mode only allowed with RS485 serial device''
        else if length (slaves args) < 1
          then Inl ''At least one slave address must be specified for master mode''
          else Inr False
      else Inr True)"

definition command_checks :: "arguments \<Rightarrow> bool \<Rightarrow> string + bool" where
  "command_checks args passive =
     (if commands args \<noteq> [] then
        if length (slaves args) \<noteq> 1
        then Inl ''Exactly one slave address must be specified for command mode''
        else Inr False
      else Inr passive)"

definition getArgs :: "string list \<Rightarrow> arguments \<Rightarrow> string + (arguments \<times> run_mode)" where
  "getArgs ports args =
     (case source_checks ports args of Inl e \<Rightarrow> Inl e | Inr (args1, serial, network, passive) \<Rightarrow>
     (case serial_checks args1 serial passive of Inl e \<Rightarrow> Inl e | Inr (args2, passive2) \<Rightarrow>
     (case master_checks args2 passive2 of Inl e \<Rightarrow> Inl e | Inr passive3 \<Rightarrow>
     (case command_checks args2 passive3 of Inl e \<Rightarrow> Inl e | Inr passive4 \<Rightarrow>
        Inr (args2, \<lparr>serialDevice = serial, networkDevice = network, serialType = arg_type args2,
                     passiveMode = passive4, masterMode = master args2, following = follow args2\<rparr>)))))"

subsection \<open>What a run mode says\<close>

definition same_request :: "arguments \<Rightarrow> arguments \<Rightarrow> bool" where
  "same_request a b \<longleftrightarrow> commands a = commands b \<and> follow a = follow b \<and> master a = master b \<and>
     slaves a = slaves b \<and> arg_type a = arg_type b"

lemma source_checks_Inr:
  "source_checks ports args = Inr (a, serial, network, passive) \<Longrightarrow>
     same_request a args \<and> network = (arg_type args = Some ''n'')"
  by (simp add: source_checks_def same_request_def Let_def split: if_splits) auto

lemma serial_checks_Inr:
  "serial_checks args serial passive = Inr (a, p) \<Longrightarrow>
     same_request a args \<and> serial = (arg_type args = Some ''2'' \<or> arg_type args = Some ''4'')"
  by (simp add: serial_checks_def same_request_def Let_def split: if_splits) auto

lemma master_checks_Inr:
  "master_checks args passive = Inr p \<Longrightarrow>
     p = (\<not> master args) \<and> (if master args then arg_type args = Some ''4'' \<and> slaves args \<noteq> [] else True)"
  by (auto simp: master_checks_def split: if_splits)

lemma command_checks_Inr:
  "command_checks args passive = Inr p \<Longrightarrow>
     p = (passive \<and> commands args = []) \<and> (if commands args = [] then True else length (slaves args) = 1)"
  by (auto simp: command_checks_def split: if_splits)

text \<open>
  C8.  Every accepted command line gives a run mode that is passive exactly when neither master mode
  nor a command is asked for (so the active modes set for a network or an RS232 source earlier in
  the function are lost); a master has an RS485 serial device and a slave, commands have exactly one
  slave, and the mode follows the file only if that was asked for.
\<close>

theorem getArgs_mode:
  assumes "getArgs ports args = Inr (args', m)"
  shows "(passiveMode m \<longleftrightarrow> \<not> master args \<and> commands args = []) \<and>
    (networkDevice m \<longleftrightarrow> arg_type args = Some ''n'') \<and>
    (serialDevice m \<longleftrightarrow> arg_type args = Some ''2'' \<or> arg_type args = Some ''4'') \<and>
    (if masterMode m then serialDevice m \<and> serialType m = Some ''4'' \<and> slaves args' \<noteq> [] else True) \<and>
    (if commands args = [] then True else length (slaves args') = 1) \<and>
    (following m \<longleftrightarrow> follow args)"
proof -
  obtain a serial network pasv a2 p2 p3 p4 where
    c: "source_checks ports args = Inr (a, serial, network, pasv)" "serial_checks a serial pasv = Inr (a2, p2)"
      "master_checks a2 p2 = Inr p3" "command_checks a2 p3 = Inr p4"
    and m: "args' = a2" "m = \<lparr>serialDevice = serial, networkDevice = network, serialType = arg_type a2,
              passiveMode = p4, masterMode = master a2, following = follow a2\<rparr>"
    using assms by (auto simp: getArgs_def split: sum.splits)
  show ?thesis
    using source_checks_Inr [OF c(1)] serial_checks_Inr [OF c(2)] master_checks_Inr [OF c(3)] command_checks_Inr [OF c(4)]
    by (simp add: m same_request_def) auto
qed

theorem getArgs_mode_witness:
  "\<exists>m. getArgs [] \<lparr>commands = [], follow = False, arg_following = False, master = False, slaves = [],
        arg_type = Some ''n'', datasource = ''stdin''\<rparr> =
      Inr (\<lparr>commands = [], follow = False, arg_following = False, master = False, slaves = [],
        arg_type = Some ''n'', datasource = ''network''\<rparr>, m) \<and> networkDevice m \<and> passiveMode m"
proof -
  let ?a = "\<lparr>commands = [], follow = False, arg_following = False, master = False, slaves = [],
      arg_type = Some ''n'', datasource = ''stdin''\<rparr>"
  let ?b = "\<lparr>commands = [], follow = False, arg_following = False, master = False, slaves = [],
      arg_type = Some ''n'', datasource = ''network''\<rparr>"
  obtain m where m: "getArgs [] ?a = Inr (?b, m)"
    by (simp add: getArgs_def source_checks_def serial_checks_def master_checks_def command_checks_def)
  from getArgs_mode [OF this] m show ?thesis by auto
qed

subsection \<open>Accepted commands\<close>

lemma split_on_nonempty [simp]: "split_on c s \<noteq> []"
  by (induction s) (auto split: list.split)

lemma join_split_on: "join [c] (split_on c s) = s"
proof (induction s)
  case (Cons x xs)
  obtain p ps where p: "split_on c xs = p # ps" by (cases "split_on c xs") auto
  show ?case
  proof (cases "x = c")
    case True
    then show ?thesis using Cons p by simp
  next
    case False
    then show ?thesis using Cons p by (cases ps) auto
  qed
qed simp

lemma check_all_ok: "list_all ok xs \<Longrightarrow> check_all ok msg xs = Inr xs"
  by (induction xs) simp_all

lemma check_all_error: "\<not> list_all ok xs \<Longrightarrow> \<exists>e. check_all ok msg xs = Inl e"
  by (induction xs) (auto split: sum.split)

text \<open>
  The command validator accepts a string exactly when every command between slashes is a
  hexadecimal function code followed by parameters of a format letter and hexadecimal digits, and
  the lists it returns spell the string again.
\<close>

theorem validated_commands_spec:
  "(case validated_commands s of
      Inl e \<Rightarrow> \<not> list_all command_ok (split_on (CHR ''/'') s)
    | Inr cs \<Rightarrow> list_all command_ok (split_on (CHR ''/'') s) \<and> join ''/'' (map (join '','') cs) = s)"
proof (cases "list_all command_ok (split_on (CHR ''/'') s)")
  case True
  then show ?thesis by (simp add: validated_commands_def check_all_ok comp_def join_split_on)
next
  case False
  then obtain e where "check_all command_ok ''Invalid command: '' (split_on (CHR ''/'') s) = Inl e"
    using check_all_error by blast
  then show ?thesis using False by (simp add: validated_commands_def)
qed

end
