(* ===== verification/MsgIO.thy ===== *)
theory MsgIO
  imports Msg Env PyVal
begin

text \<open>
  Reading and sending messages, from \<^verbatim>\<open>se/msg.py\<close>: \<open>readMsg\<close>, \<open>readBytes\<close>, \<open>sendMsg\<close> and
  \<open>recordMsg\<close>, with \<open>setState\<close> of \<^verbatim>\<open>se/logutils.py\<close>.

  The data source is a record: the bytes a read finds now, the chunks that appear each time the
  reader has slept (a file that grows), and whether the source fails with an exception once what is
  there has been read (a device that is unplugged, a socket that times out).  A source that blocks
  until data arrives, such as a serial port or a socket, has everything it will ever deliver in the
  first component.  The other parts of the world are the record file (if any), the bytes written to
  the source, the message counters, and the state variables with their time stamps.
\<close>

subsection \<open>The world\<close>

record infile =
  avail :: bytes
  later :: "bytes list"
  fails :: bool

record world =
  w_file :: infile
  w_sent :: bytes
  w_rec :: "bytes option"
  w_state :: "(string \<times> (rat \<times> pyval)) list"
  w_clock :: "nat \<Rightarrow> rat"
  w_ticks :: nat
  dataInSeq :: nat
  dataOutSeq :: nat

text \<open>\<^verbatim>\<open>state[item] = [time.time(), value]\<close>\<close>

definition setState :: "string \<Rightarrow> pyval \<Rightarrow> world \<Rightarrow> world" where
  "setState name v w =
     w\<lparr>w_state := dput name (w_clock w (w_ticks w), v) (w_state w), w_ticks := Suc (w_ticks w)\<rparr>"

definition recordMsg :: "bytes \<Rightarrow> world \<Rightarrow> world" where
  "recordMsg msg w = w\<lparr>w_rec := map_option (\<lambda>r. r @ msg) (w_rec w)\<rparr>"

subsection \<open>Reading\<close>

definition file_read :: "nat \<Rightarrow> infile \<Rightarrow> (bytes \<times> infile) res" where
  "file_read n f =
     (if fails f \<and> avail f = [] then Inl OSError
      else Inr (take n (avail f), f\<lparr>avail := drop n (avail f)\<rparr>))"

text \<open>
  \<^verbatim>\<open>while not inBuf: time.sleep(sleepInterval); inBuf = inFile.read(length)\<close>.  Without further data
  the loop does not end: the result is \<open>None\<close>.
\<close>

function follow_wait :: "nat \<Rightarrow> infile \<Rightarrow> (bytes \<times> infile) res option" where
  "follow_wait n f =
     (case later f of
        [] \<Rightarrow> if fails f then Some (Inl OSError) else None
      | c # cs \<Rightarrow>
          (let f1 = f\<lparr>avail := avail f @ c, later := cs\<rparr>
           in case file_read n f1 of
                Inl e \<Rightarrow> Some (Inl e)
              | Inr (buf, f2) \<Rightarrow> if buf = [] then follow_wait n f2 else Some (Inr (buf, f2))))"
  by pat_completeness auto
termination
  by (relation "measure (\<lambda>(n, f). length (later f))") (auto simp: file_read_def split: if_splits)

declare follow_wait.simps [simp del]

text \<open>
  After the buffer has been recorded its last byte is noted; for an empty buffer that raises, and
  every exception is treated as the end of the file.
\<close>

definition noteBytes :: "bytes \<Rightarrow> world \<Rightarrow> bytes \<times> world" where
  "noteBytes inBuf w =
     (let w1 = recordMsg inBuf w
      in if inBuf = [] then ([], w1)
         else (inBuf, setState ''lastByteRead'' (PStr (hex2 (last inBuf))) w1))"

definition readBytes :: "run_mode \<Rightarrow> nat \<Rightarrow> world \<Rightarrow> (bytes \<times> world) option" where
  "readBytes mode n w =
     (let w1 = setState ''readLength'' (PInt (int n)) w
      in case file_read n (w_file w1) of
           Inl e \<Rightarrow> Some ([], w1)
         | Inr (inBuf, f) \<Rightarrow>
             let w2 = w1\<lparr>w_file := f\<rparr>
             in if inBuf = [] \<and> following mode then
                  (case follow_wait n f of
                     None \<Rightarrow> None
                   | Some (Inl e) \<Rightarrow> Some ([], w2)
                   | Some (Inr (inBuf', f')) \<Rightarrow> Some (noteBytes inBuf' (w2\<lparr>w_file := f'\<rparr>)))
                else Some (noteBytes inBuf w2))"

subsection \<open>What a read does to the world\<close>

text \<open>The bytes still to come, and how many there are.\<close>

definition pending :: "infile \<Rightarrow> bytes" where
  "pending f = avail f @ concat (later f)"

lemma file_read_pending:
  "file_read n f = Inr (buf, f') \<Longrightarrow> buf @ pending f' = pending f \<and> later f' = later f \<and> fails f' = fails f"
  by (auto simp: file_read_def pending_def split: if_splits)

lemma follow_wait_pending:
  "follow_wait n f = Some (Inr (buf, f')) \<Longrightarrow> buf @ pending f' = pending f \<and> fails f' = fails f \<and> buf \<noteq> []"
proof (induction n f rule: follow_wait.induct)
  case (1 n f)
  obtain c cs where l: "later f = c # cs"
    using 1(2) by (cases "later f") (auto simp: follow_wait.simps [of n f] split: if_splits)
  let ?f1 = "f\<lparr>avail := avail f @ c, later := cs\<rparr>"
  have p: "pending ?f1 = pending f" by (simp add: pending_def l)
  obtain b f2 where r: "file_read n ?f1 = Inr (b, f2)"
    using 1(2) by (auto simp: follow_wait.simps [of n f] l Let_def split: sum.splits)
  note q = file_read_pending [OF r]
  show ?case
  proof (cases "b = []")
    case True
    have "follow_wait n f = follow_wait n f2"
      using r True by (subst follow_wait.simps) (simp only: l list.case Let_def sum.case prod.case refl if_True)
    then have "follow_wait n f2 = Some (Inr (buf, f'))" using 1(2) by simp
    with 1(1) [OF l refl r refl True] q p True show ?thesis by simp
  next
    case False
    then have "follow_wait n f = Some (Inr (b, f2))"
      using r by (subst follow_wait.simps) (simp only: l list.case Let_def r sum.case prod.case if_False)
    then show ?thesis using 1(2) q p False by simp
  qed
qed

text \<open>
  A byte source, as the message reader relies on it: what a read returns is the front of what was
  pending, it is appended to the record, and an empty result is an end of file.
\<close>

locale byte_source =
  fixes rd :: "nat \<Rightarrow> 'w \<Rightarrow> (bytes \<times> 'w) option"
    and left :: "'w \<Rightarrow> bytes"
    and rec :: "'w \<Rightarrow> bytes option"
  assumes rd_left: "rd n w = Some (b, w') \<Longrightarrow> b \<noteq> [] \<Longrightarrow> left w = b @ left w'"
    and rd_empty: "rd n w = Some ([], w') \<Longrightarrow> left w = left w'"
    and rd_rec: "rd n w = Some (b, w') \<Longrightarrow> rec w' = map_option (\<lambda>r. r @ b) (rec w)"
begin

lemma rd_append: "rd n w = Some (b, w') \<Longrightarrow> left w = b @ left w'"
  using rd_left rd_empty by (cases "b = []") auto

lemma rd_less: "rd n w = Some (b, w') \<Longrightarrow> b \<noteq> [] \<Longrightarrow> length (left w') < length (left w)"
  by (frule rd_append) simp

text \<open>A sequence of reads takes consecutive pieces, and records all of them.\<close>

fun reads :: "nat list \<Rightarrow> 'w \<Rightarrow> (bytes \<times> 'w) option" where
  "reads [] w = Some ([], w)"
| "reads (n # ns) w = (case rd n w of None \<Rightarrow> None
     | Some (b, w1) \<Rightarrow> (case reads ns w1 of None \<Rightarrow> None | Some (bs, w2) \<Rightarrow> Some (b @ bs, w2)))"

lemma reads_append: "reads ns w = Some (bs, w') \<Longrightarrow> left w = bs @ left w'"
proof (induction ns arbitrary: w bs)
  case (Cons n ns)
  then obtain b w1 bs' where r: "rd n w = Some (b, w1)" "reads ns w1 = Some (bs', w')" "bs = b @ bs'"
    by (auto split: option.splits)
  then show ?case using rd_append [OF r(1)] Cons.IH [OF r(2)] by simp
qed simp

lemma reads_rec: "reads ns w = Some (bs, w') \<Longrightarrow> rec w' = map_option (\<lambda>r. r @ bs) (rec w)"
proof (induction ns arbitrary: w bs)
  case (Cons n ns)
  then show ?case
    by (auto dest!: rd_rec Cons.IH split: option.splits simp: option.map_comp comp_def)
qed (simp add: option.map_ident)

end

lemma setState_fields [simp]:
  "w_file (setState x v w) = w_file w" "w_rec (setState x v w) = w_rec w" "w_sent (setState x v w) = w_sent w"
  "dataInSeq (setState x v w) = dataInSeq w" "dataOutSeq (setState x v w) = dataOutSeq w"
  by (simp_all add: setState_def)

lemma recordMsg_fields [simp]:
  "w_file (recordMsg m w) = w_file w" "w_rec (recordMsg m w) = map_option (\<lambda>r. r @ m) (w_rec w)"
  "w_sent (recordMsg m w) = w_sent w" "dataInSeq (recordMsg m w) = dataInSeq w"
  "dataOutSeq (recordMsg m w) = dataOutSeq w"
  by (simp_all add: recordMsg_def)

lemma noteBytes_spec:
  assumes "noteBytes b w = (b', w')"
  shows "b' = b \<and> w_file w' = w_file w \<and> w_rec w' = map_option (\<lambda>r. r @ b) (w_rec w)"
  using assms by (auto simp: noteBytes_def Let_def option.map_ident split: if_splits)

lemma map_option_append_Nil [simp]: "map_option (\<lambda>r. r @ []) x = x"
  by (simp add: option.map_ident)

lemma readBytes_spec:
  assumes "readBytes mode n w = Some (b, w')"
  shows "pending (w_file w) = b @ pending (w_file w') \<and> w_rec w' = map_option (\<lambda>r. r @ b) (w_rec w)"
proof (cases "file_read n (w_file w)")
  case (Inl e)
  then show ?thesis using assms by (auto simp: readBytes_def option.map_ident)
next
  case (Inr r)
  obtain buf f where r: "r = (buf, f)" by (cases r)
  note q = file_read_pending [OF Inr [unfolded r]]
  show ?thesis
  proof (cases "buf = [] \<and> following mode")
    case True
    let ?w = "setState ''readLength'' (PInt (int n)) w\<lparr>w_file := f\<rparr>"
    have e: "(case follow_wait n f of None \<Rightarrow> None | Some (Inl e) \<Rightarrow> Some ([], ?w)
        | Some (Inr (inBuf', f')) \<Rightarrow> Some (noteBytes inBuf' (?w\<lparr>w_file := f'\<rparr>))) = Some (b, w')"
      using assms Inr r True by (simp add: readBytes_def Let_def)
    show ?thesis
    proof (cases "follow_wait n f")
      case (Some v)
      show ?thesis
      proof (cases v)
        case (Inl x)
        then show ?thesis using e Some q True by (auto simp: option.map_ident)
      next
        case (Inr y)
        obtain b' f' where y: "y = (b', f')" by (cases y)
        have "noteBytes b' (?w\<lparr>w_file := f'\<rparr>) = (b, w')" using e Some Inr y by simp
        from noteBytes_spec [OF this] follow_wait_pending [OF Some [unfolded Inr y]] q True
        show ?thesis by simp
      qed
    qed (use e in simp)
  next
    case False
    then have "noteBytes buf (setState ''readLength'' (PInt (int n)) w\<lparr>w_file := f\<rparr>) = (b, w')"
      using assms Inr r by (auto simp: readBytes_def Let_def)
    from noteBytes_spec [OF this] q show ?thesis by simp
  qed
qed

interpretation src: byte_source "readBytes mode" "\<lambda>w. pending (w_file w)" w_rec for mode
  by unfold_locales (auto dest: readBytes_spec)

subsection \<open>Reading and sending a message\<close>

text \<open>
  \<^verbatim>\<open>while msg[-magicLen:] != magic\<close>.  At the end of the file the magic number is appended, which ends
  the loop.  \<open>None\<close>: the read never returns.
\<close>

function scanMsg :: "run_mode \<Rightarrow> bytes \<Rightarrow> world \<Rightarrow> (bytes \<times> bool \<times> world) option" where
  "scanMsg mode msg w =
     (if last_n magicLen msg = magic then Some (msg, False, w)
      else case readBytes mode 1 w of
          None \<Rightarrow> None
        | Some (nextByte, w') \<Rightarrow>
            if nextByte = [] then Some (msg @ magic, True, w') else scanMsg mode (msg @ nextByte) w')"
  by pat_completeness auto
termination
  by (relation "measure (\<lambda>(mode, msg, w). length (pending (w_file w)))") (auto dest: src.rd_less)

declare scanMsg.simps [simp del]

definition activeRead :: "run_mode \<Rightarrow> bool" where
  "activeRead mode \<longleftrightarrow> \<not> passiveMode mode \<and> serialType mode \<noteq> Some ''4''"

text \<open>Active mode: the magic number, the header, and as much data as the header announces.\<close>

definition readActive :: "run_mode \<Rightarrow> world \<Rightarrow> ((bytes \<times> bool) res \<times> world) option" where
  "readActive mode w =
     (case readBytes mode (magicLen + msgHdrLen) w of
        None \<Rightarrow> None
      | Some (msg, w1) \<Rightarrow>
          if msg = [] then Some (Inr ([], True), w1)
          else case unpack_ints LE hdrFmt (drop magicLen msg) of
              Inl e \<Rightarrow> Some (Inl e, w1)
            | Inr hdr \<Rightarrow>
                (case readBytes mode (nat (hdr ! 0) + checksumLen) w1 of
                   None \<Rightarrow> None
                 | Some (msg2, w2) \<Rightarrow> Some (Inr (drop magicLen (msg @ msg2), False), w2)))"

definition readMsg :: "run_mode \<Rightarrow> world \<Rightarrow> ((bytes \<times> bool) res \<times> world) option" where
  "readMsg mode w =
     (let w1 = setState ''serialType'' (case serialType mode of Some s \<Rightarrow> PStr s | None \<Rightarrow> PNone)
                 (setState ''passiveMode'' (PBool (passiveMode mode)) w);
          w2 = w1\<lparr>dataInSeq := dataInSeq w1 + 1\<rparr>
      in if activeRead mode then readActive mode w2
         else (case scanMsg mode [] w2 of
             None \<Rightarrow> None
           | Some (msg, eof, w3) \<Rightarrow> Some (Inr (drop_last_n magicLen msg, eof), w3)))"

definition sendMsg :: "bytes \<Rightarrow> world \<Rightarrow> world" where
  "sendMsg msg w =
     recordMsg (magic @ msg) (w\<lparr>dataOutSeq := dataOutSeq w + 1, w_sent := w_sent w @ magic @ msg\<rparr>)"

end
