(* ===== verification/Framing.thy ===== *)
theory Framing
  imports MsgIO
begin

text \<open>
  How the passive reader of \<^verbatim>\<open>se/msg.py\<close> cuts a byte stream into messages: the specification
  \<open>frames\<close> splits a stream at the magic numbers, and the reader implements it.
\<close>

subsection \<open>Splitting a stream at the magic number\<close>

fun split_magic :: "bytes \<Rightarrow> bytes \<Rightarrow> bytes list" where
  "split_magic acc [] = [acc]"
| "split_magic acc (x # xs) =
     (let a = acc @ [x]
      in if last_n magicLen a = magic then drop_last_n magicLen a # split_magic [] xs else split_magic a xs)"

definition frames :: "bytes \<Rightarrow> bytes list" where
  "frames s = split_magic [] s"

fun unframe :: "bytes list \<Rightarrow> bytes" where
  "unframe [] = []"
| "unframe [f] = f"
| "unframe (f # fs) = f @ magic @ unframe fs"

fun has_magic :: "bytes \<Rightarrow> bool" where
  "has_magic [] = False"
| "has_magic (x # xs) = (take magicLen (x # xs) = magic \<or> has_magic xs)"

lemma last_n_magic: "last_n magicLen a = magic \<longleftrightarrow> (\<exists>p. a = p @ magic)"
proof
  assume h: "last_n magicLen a = magic"
  have "length (last_n magicLen a) = 4" using h by simp
  then have "4 \<le> length a" by (simp add: last_n_def)
  then show "\<exists>p. a = p @ magic" using last_n_split [of magic 4 a] h by simp
qed auto

lemma has_magic_append: "has_magic (p @ magic @ s)"
proof (induction p)
  case Nil
  have "magic = 0x12 # tl magic" by (simp add: magic_def)
  then show ?case by (metis append_Cons append_eq_conv_conj has_magic.simps(2) append_Nil magic_length)
qed simp

lemma has_magic_iff: "has_magic s \<longleftrightarrow> (\<exists>p q. s = p @ magic @ q)"
proof
  show "has_magic s \<Longrightarrow> \<exists>p q. s = p @ magic @ q"
  proof (induction s)
    case (Cons x s)
    show ?case
    proof (cases "take magicLen (x # s) = magic")
      case True
      then have "x # s = [] @ magic @ drop magicLen (x # s)" by (metis append_Nil append_take_drop_id)
      then show ?thesis by blast
    next
      case False
      then obtain p q where "s = p @ magic @ q" using Cons by auto
      then have "x # s = (x # p) @ magic @ q" by simp
      then show ?thesis by blast
    qed
  qed simp
qed (use has_magic_append in blast)

lemma has_magic_prefix: "has_magic p \<Longrightarrow> has_magic (p @ s)"
  unfolding has_magic_iff by (metis append_assoc)

lemma has_magic_snoc: "has_magic (a @ [x]) \<longleftrightarrow> has_magic a \<or> last_n magicLen (a @ [x]) = magic"
proof
  assume "has_magic (a @ [x])"
  then obtain p q where pq: "a @ [x] = p @ magic @ q" unfolding has_magic_iff by blast
  show "has_magic a \<or> last_n magicLen (a @ [x]) = magic"
  proof (cases q rule: rev_cases)
    case Nil
    then show ?thesis using pq last_n_magic by simp
  next
    case (snoc q' y)
    then have "a = p @ magic @ q'" using pq by simp
    then show ?thesis unfolding has_magic_iff by blast
  qed
next
  assume "has_magic a \<or> last_n magicLen (a @ [x]) = magic"
  then show "has_magic (a @ [x])"
    using has_magic_prefix has_magic_append [of _ "[]"] unfolding last_n_magic by fastforce
qed

text \<open>The magic number does not overlap itself: its last byte occurs in it only once.\<close>

lemma no_early_magic: "x \<noteq> 0x79 \<Longrightarrow> last_n magicLen (a @ [x]) \<noteq> magic"
  unfolding last_n_magic by (auto simp: magic_def)

lemma split_magic_block:
  assumes "\<not> has_magic (acc @ m)"
  shows "split_magic acc (m @ magic @ rest) = (acc @ m) # split_magic [] rest"
  using assms
proof (induction m arbitrary: acc)
  case Nil
  have "split_magic acc (magic @ rest) = acc # split_magic [] rest"
  proof -
    have m: "magic = [0x12, 0x34, 0x56, 0x79]" by (rule magic_def)
    have last: "last_n magicLen (acc @ [0x12, 0x34, 0x56, 0x79]) = magic" "drop_last_n magicLen (acc @ magic) = acc"
      unfolding m [symmetric] by simp_all
    have step: "split_magic a (x # xs) = split_magic (a @ [x]) xs" if "x \<noteq> 0x79" for a x xs
      using no_early_magic [OF that, of a] by (simp add: Let_def)
    show ?thesis
      unfolding m using last by (simp add: step Let_def m del: split_magic.simps(2)) (simp add: Let_def m)
  qed
  then show ?case by simp
next
  case (Cons x m)
  then have "\<not> has_magic (acc @ [x])" using has_magic_prefix [of "acc @ [x]" m] by auto
  then show ?case using Cons.IH [of "acc @ [x]"] Cons.prems by (simp add: has_magic_snoc Let_def)
qed

lemma split_magic_last: "\<not> has_magic (acc @ m) \<Longrightarrow> split_magic acc m = [acc @ m]"
proof (induction m arbitrary: acc)
  case (Cons x m)
  then have "\<not> has_magic (acc @ [x])" using has_magic_prefix [of "acc @ [x]" m] by auto
  then show ?case using Cons.IH [of "acc @ [x]"] Cons.prems by (simp add: has_magic_snoc Let_def)
qed simp

lemma split_magic_nonempty [simp]: "split_magic acc s \<noteq> []"
  by (induction acc s rule: split_magic.induct) (simp_all add: Let_def)

lemma unframe_Cons: "fs \<noteq> [] \<Longrightarrow> unframe (f # fs) = f @ magic @ unframe fs"
  by (cases fs) simp_all

lemma unframe_split: "unframe (split_magic acc s) = acc @ s"
proof (induction acc s rule: split_magic.induct)
  case (2 acc x xs)
  show ?case
  proof (cases "last_n magicLen (acc @ [x]) = magic")
    case True
    then obtain p where "acc @ [x] = p @ magic" using last_n_magic by blast
    then show ?thesis using 2(1) [OF refl] True by (simp add: Let_def unframe_Cons)
  next
    case False
    then show ?thesis using 2(2) [OF refl] by (simp add: Let_def)
  qed
qed simp

lemma split_magic_free:
  "\<not> has_magic acc \<Longrightarrow> list_all (\<lambda>f. \<not> has_magic f) (split_magic acc s)"
proof (induction acc s rule: split_magic.induct)
  case (2 acc x xs)
  show ?case
  proof (cases "last_n magicLen (acc @ [x]) = magic")
    case True
    then obtain p where p: "acc @ [x] = p @ magic" using last_n_magic by blast
    then have "acc = p @ butlast magic" by (metis butlast_append butlast_snoc magic_def list.distinct(1))
    then have "\<not> has_magic p" using 2(3) has_magic_prefix by blast
    then show ?thesis using 2(1) [OF refl True] True p by (simp add: Let_def)
  next
    case False
    then show ?thesis using 2(2) [OF refl False] 2(3) by (simp add: Let_def has_magic_snoc)
  qed
qed simp

text \<open>
  Splitting and joining at the magic number are inverse: the frames of a stream, joined by the
  magic number, are the stream, no frame contains the magic number, and any list of byte strings
  that do not contain it is recovered from its joined form.
\<close>

theorem frames_unframe:
  "unframe (frames s) = s \<and> list_all (\<lambda>f. \<not> has_magic f) (frames s) \<and>
   (if fs \<noteq> [] \<and> list_all (\<lambda>f. \<not> has_magic f) fs then frames (unframe fs) = fs else True)"
proof -
  have "list_all (\<lambda>f. \<not> has_magic f) fs \<Longrightarrow> split_magic [] (unframe fs) = fs" if "fs \<noteq> []" for fs
    using that
  proof (induction fs)
    case (Cons f fs)
    then show ?case
      by (cases "fs = []") (simp_all add: split_magic_last split_magic_block unframe_Cons)
  qed simp
  then show ?thesis
    using unframe_split [of "[]" s] split_magic_free [of "[]" s] by (simp add: frames_def)
qed

subsection \<open>Single bytes\<close>

text \<open>
  \<open>steady\<close>: every pending byte will be read (the source blocks for its data, or the reader waits
  for the file to grow).  \<open>ends\<close>: after the last byte a read reports the end of the file.
\<close>

definition steady :: "run_mode \<Rightarrow> infile \<Rightarrow> bool" where
  "steady mode f \<longleftrightarrow> later f = [] \<or> following mode \<and> \<not> fails f"

definition ends :: "run_mode \<Rightarrow> infile \<Rightarrow> bool" where
  "ends mode f \<longleftrightarrow> later f = [] \<and> (\<not> following mode \<or> fails f)"

lemma ends_steady: "ends mode f \<Longrightarrow> steady mode f"
  by (simp add: ends_def steady_def)

lemma follow_wait_one:
  "avail f = [] \<Longrightarrow> \<not> fails f \<Longrightarrow> concat (later f) = x # xs \<Longrightarrow>
     \<exists>f'. follow_wait 1 f = Some (Inr ([x], f')) \<and> pending f' = xs \<and> fails f' = fails f"
proof (induction "later f" arbitrary: f)
  case (Cons c cs)
  note l = Cons(2) [symmetric]
  show ?case
  proof (cases c)
    case Nil
    let ?f = "f\<lparr>later := cs, avail := []\<rparr>"
    have "\<exists>f'. follow_wait 1 ?f = Some (Inr ([x], f')) \<and> pending f' = xs \<and> fails f' = fails ?f"
      using Cons(3-5) l Nil by (intro Cons(1)) simp_all
    moreover have "follow_wait 1 f = follow_wait 1 ?f"
      using Cons(3,4) l Nil by (subst follow_wait.simps) (simp add: file_read_def Let_def)
    ultimately show ?thesis by simp
  next
    case (Cons y ys)
    then show ?thesis
      using \<open>avail f = []\<close> \<open>\<not> fails f\<close> \<open>concat (later f) = x # xs\<close> l
      by (subst follow_wait.simps) (simp add: file_read_def Let_def pending_def)
  qed
qed simp

lemma readBytes_one:
  assumes "steady mode (w_file w)" and "pending (w_file w) = x # xs"
  shows "\<exists>w'. readBytes mode 1 w = Some ([x], w') \<and> pending (w_file w') = xs \<and>
    (if steady mode (w_file w) then steady mode (w_file w') else True) \<and>
    (if ends mode (w_file w) then ends mode (w_file w') else True)"
proof (cases "avail (w_file w)")
  case Nil
  then have f: "following mode" "\<not> fails (w_file w)" "concat (later (w_file w)) = x # xs"
    using assms by (auto simp: steady_def pending_def)
  have r: "file_read 1 (w_file w) = Inr ([], w_file w)"
    using Nil f by (simp add: file_read_def)
  obtain f' where f': "follow_wait 1 (w_file w) = Some (Inr ([x], f'))" "pending f' = xs" "fails f' = fails (w_file w)"
    using follow_wait_one [OF Nil f(2,3)] by blast
  have "steady mode f'" "ends mode (w_file w) = False" using f f'(3) by (auto simp: steady_def ends_def)
  then show ?thesis using r f' f(1) by (simp add: readBytes_def noteBytes_def Let_def)
next
  case (Cons y ys)
  then have "y = x" "ys @ concat (later (w_file w)) = xs" using assms(2) by (simp_all add: pending_def)
  then show ?thesis using Cons
    by (simp add: readBytes_def file_read_def noteBytes_def Let_def pending_def steady_def ends_def)
qed

lemma readBytes_eof:
  assumes "ends mode (w_file w)" and "pending (w_file w) = []"
  shows "\<exists>w'. readBytes mode n w = Some ([], w') \<and> pending (w_file w') = [] \<and> ends mode (w_file w')"
proof -
  have e: "avail (w_file w) = []" "later (w_file w) = []" using assms by (simp_all add: pending_def ends_def)
  show ?thesis
  proof (cases "fails (w_file w)")
    case True
    then show ?thesis using e assms by (simp add: readBytes_def file_read_def)
  next
    case False
    then have "\<not> following mode" using assms(1) by (simp add: ends_def)
    then show ?thesis using e False assms
      by (simp add: readBytes_def file_read_def noteBytes_def Let_def pending_def ends_def)
  qed
qed

subsection \<open>The reader implements the splitting\<close>

text \<open>A frame that ends in a magic number: the reader returns it and goes on after it.\<close>

lemma scanMsg_frame:
  fixes w :: world
  assumes "steady mode (w_file w)" and "last_n magicLen acc \<noteq> magic"
    and "split_magic acc (pending (w_file w)) = f # fs" and "fs \<noteq> []"
  shows "\<exists>w'. scanMsg mode acc w = Some (f @ magic, False, w') \<and> frames (pending (w_file w')) = fs \<and>
    steady mode (w_file w') \<and> (if ends mode (w_file w) then ends mode (w_file w') else True)"
  using assms
proof (induction "pending (w_file w)" arbitrary: acc w)
  case (Cons x xs)
  note p = Cons(2) [symmetric]
  obtain w1 where r: "readBytes mode 1 w = Some ([x], w1)" "pending (w_file w1) = xs" "steady mode (w_file w1)"
    and e: "if ends mode (w_file w) then ends mode (w_file w1) else True"
    using readBytes_one [OF Cons(3) p] Cons(3) by auto
  have step: "scanMsg mode acc w = scanMsg mode (acc @ [x]) w1"
    using Cons(4) r(1) by (subst scanMsg.simps) simp
  show ?case
  proof (cases "last_n magicLen (acc @ [x]) = magic")
    case True
    then obtain q where q: "acc @ [x] = q @ magic" using last_n_magic by blast
    then have "f = q" "fs = split_magic [] xs" using Cons(5) True p by (simp_all add: Let_def)
    moreover have "scanMsg mode (acc @ [x]) w1 = Some (q @ magic, False, w1)"
      using True q by (subst scanMsg.simps) simp
    ultimately show ?thesis using step r e by (simp add: frames_def)
  next
    case False
    have "\<exists>w'. scanMsg mode (acc @ [x]) w1 = Some (f @ magic, False, w') \<and> frames (pending (w_file w')) = fs \<and>
        steady mode (w_file w') \<and> (if ends mode (w_file w1) then ends mode (w_file w') else True)"
      using r(2,3) False Cons(5,6) p by (intro Cons(1)) (simp_all add: Let_def)
    then show ?thesis using step e by (auto split: if_splits)
  qed
qed simp

text \<open>The last frame ends with the file.\<close>

lemma scanMsg_last:
  fixes w :: world
  assumes "ends mode (w_file w)" and "last_n magicLen acc \<noteq> magic"
    and "split_magic acc (pending (w_file w)) = [f]"
  shows "\<exists>w'. scanMsg mode acc w = Some (f @ magic, True, w') \<and> pending (w_file w') = []"
  using assms
proof (induction "pending (w_file w)" arbitrary: acc w)
  case Nil
  then show ?case
    using readBytes_eof [OF Nil(2), of 1] by (subst scanMsg.simps) auto
next
  case (Cons x xs)
  note p = Cons(2) [symmetric]
  obtain w1 where r: "readBytes mode 1 w = Some ([x], w1)" "pending (w_file w1) = xs" "ends mode (w_file w1)"
    using readBytes_one [OF ends_steady [OF Cons(3)] p] Cons(3) by auto
  have step: "scanMsg mode acc w = scanMsg mode (acc @ [x]) w1"
    using Cons(4) r(1) by (subst scanMsg.simps) simp
  have nm: "last_n magicLen (acc @ [x]) \<noteq> magic"
    using Cons(5) p by (auto simp: Let_def)
  have "\<exists>w'. scanMsg mode (acc @ [x]) w1 = Some (f @ magic, True, w') \<and> pending (w_file w') = []"
    using r(2,3) nm Cons(5) p by (intro Cons(1)) (simp_all add: Let_def)
  then show ?case using step by simp
qed

text \<open>While nothing more arrives in a followed file, the reader waits for ever.\<close>

lemma follow_wait_none: "avail f = [] \<Longrightarrow> \<not> fails f \<Longrightarrow> concat (later f) = [] \<Longrightarrow> follow_wait n f = None"
proof (induction "later f" arbitrary: f)
  case Nil
  then show ?case by (subst follow_wait.simps) simp
next
  case (Cons c cs)
  note l = Cons(2) [symmetric]
  have "follow_wait n (f\<lparr>later := cs, avail := []\<rparr>) = None"
    using Cons(3-5) l by (intro Cons(1)) simp_all
  then show ?case
    using Cons(3-5) l by (subst follow_wait.simps) (simp add: file_read_def Let_def)
qed

lemma file_read_empty: "avail f = [] \<Longrightarrow> \<not> fails f \<Longrightarrow> file_read n f = Inr ([], f)"
  by (cases f) (simp add: file_read_def)

lemma readBytes_waits:
  assumes "following mode" "\<not> fails (w_file w)" "pending (w_file w) = []"
  shows "readBytes mode n w = None"
  using assms follow_wait_none [of "w_file w" n]
  by (simp add: readBytes_def file_read_empty pending_def Let_def)

lemma readBytes_one_mode:
  assumes "following mode" "\<not> fails (w_file w)" "pending (w_file w) = x # xs"
  shows "\<exists>w'. readBytes mode 1 w = Some ([x], w') \<and> pending (w_file w') = xs \<and> \<not> fails (w_file w')"
proof (cases "avail (w_file w)")
  case Nil
  with follow_wait_one [of "w_file w" x xs] assms show ?thesis
    by (auto simp: readBytes_def file_read_empty noteBytes_def Let_def pending_def)
next
  case (Cons y ys)
  with assms show ?thesis
    by (simp add: readBytes_def file_read_def noteBytes_def Let_def pending_def)
qed

lemma scanMsg_waits:
  fixes w :: world
  assumes "following mode" "\<not> fails (w_file w)" and "last_n magicLen acc \<noteq> magic"
    and "split_magic acc (pending (w_file w)) = [f]"
  shows "scanMsg mode acc w = None"
  using assms(2-4)
proof (induction "pending (w_file w)" arbitrary: acc w)
  case Nil
  then show ?case
    using readBytes_waits [OF assms(1) Nil(2), of 1] by (subst scanMsg.simps) simp
next
  case (Cons x xs)
  note p = Cons(2) [symmetric]
  obtain w1 where r: "readBytes mode 1 w = Some ([x], w1)" "pending (w_file w1) = xs" "\<not> fails (w_file w1)"
    using readBytes_one_mode [OF assms(1) Cons(3) p] by blast
  have nm: "last_n magicLen (acc @ [x]) \<noteq> magic" using Cons(5) p by (auto simp: Let_def)
  then have "scanMsg mode (acc @ [x]) w1 = None"
    using r(2,3) Cons(5) p by (intro Cons(1)) (simp_all add: Let_def)
  then show ?case using Cons(4) r(1) by (subst scanMsg.simps) simp
qed

abbreviation counted :: "run_mode \<Rightarrow> world \<Rightarrow> world" where
  "counted mode w \<equiv> (let w1 = setState ''serialType'' (case serialType mode of Some s \<Rightarrow> PStr s | None \<Rightarrow> PNone)
                 (setState ''passiveMode'' (PBool (passiveMode mode)) w)
     in w1\<lparr>dataInSeq := dataInSeq w1 + 1\<rparr>)"

lemma readMsg_passive:
  "\<not> activeRead mode \<Longrightarrow> readMsg mode w = (case scanMsg mode [] (counted mode w) of
       None \<Rightarrow> None | Some (msg, eof, w3) \<Rightarrow> Some (Inr (drop_last_n magicLen msg, eof), w3))"
  by (simp add: readMsg_def Let_def)

lemma empty_not_magic [simp]: "last_n n [] \<noteq> magic"
  by (simp add: last_n_def magic_def)

lemma readMsg_ends:
  assumes "\<not> activeRead mode" and "ends mode (w_file w)"
  shows "case frames (pending (w_file w)) of
      [] \<Rightarrow> False
    | f # fs \<Rightarrow> \<exists>w'. readMsg mode w = Some (Inr (f, fs = []), w') \<and>
        (if fs = [] then pending (w_file w') = [] else frames (pending (w_file w')) = fs \<and> ends mode (w_file w'))"
proof -
  let ?w = "counted mode w"
  have f: "w_file ?w = w_file w" by (simp add: Let_def)
  obtain f fs where fs: "split_magic [] (pending (w_file ?w)) = f # fs"
    by (cases "split_magic [] (pending (w_file ?w))") auto
  have e: "ends mode (w_file ?w)" using assms(2) f by simp
  show ?thesis
  proof (cases "fs = []")
    case True
    then show ?thesis
      using scanMsg_last [OF e, of "[]" f] fs f by (auto simp: readMsg_passive [OF assms(1)] frames_def)
  next
    case False
    then show ?thesis
      using scanMsg_frame [OF ends_steady [OF e] _ fs False] e fs f
      by (auto simp: readMsg_passive [OF assms(1)] frames_def)
  qed
qed

text \<open>
  C5.  The passive reader cuts the byte stream at the magic numbers: of a source that ends, each
  call returns the next frame of what is left, and reports the end of the file exactly with the
  last frame; in particular it always returns.
\<close>

theorem readMsg_frames:
  assumes "\<not> activeRead mode" and "ends mode (w_file w)"
  shows "case frames (pending (w_file w)) of
      [] \<Rightarrow> False
    | f # fs \<Rightarrow> \<exists>w'. readMsg mode w = Some (Inr (f, fs = []), w') \<and>
        (if fs = [] then pending (w_file w') = [] else frames (pending (w_file w')) = fs \<and> ends mode (w_file w'))"
  using assms by (rule readMsg_ends)

text \<open>
  C25.  Following a file that grows, the passive reader returns every frame that a magic number
  closes, and it waits for ever for a frame that no magic number closes.
\<close>

theorem readMsg_following:
  assumes "\<not> activeRead mode" and "following mode" and "\<not> fails (w_file w)"
  shows "case frames (pending (w_file w)) of
      [] \<Rightarrow> False
    | f # fs \<Rightarrow> (if fs = [] then readMsg mode w = None
        else \<exists>w'. readMsg mode w = Some (Inr (f, False), w') \<and> frames (pending (w_file w')) = fs)"
proof -
  let ?w = "counted mode w"
  have f: "w_file ?w = w_file w" by (simp add: Let_def)
  obtain f fs where fs: "split_magic [] (pending (w_file ?w)) = f # fs"
    by (cases "split_magic [] (pending (w_file ?w))") auto
  have s: "steady mode (w_file ?w)" and nf: "\<not> fails (w_file ?w)" using assms(2,3) f by (simp_all add: steady_def)
  show ?thesis
  proof (cases "fs = []")
    case True
    then show ?thesis
      using scanMsg_waits [OF assms(2) nf, of "[]" f] fs f by (simp add: readMsg_passive [OF assms(1)] frames_def)
  next
    case False
    then show ?thesis
      using scanMsg_frame [OF s _ fs False] fs f by (auto simp: readMsg_passive [OF assms(1)] frames_def)
  qed
qed

subsection \<open>The record file\<close>

text \<open>\<open>moves w w'\<close>: some bytes have been taken from the source, and exactly they were recorded.\<close>

definition moves :: "world \<Rightarrow> world \<Rightarrow> bool" where
  "moves w w' \<longleftrightarrow> (\<exists>bs. pending (w_file w) = bs @ pending (w_file w') \<and> w_rec w' = map_option (\<lambda>r. r @ bs) (w_rec w))"

lemma moves_refl: "moves w w"
  by (auto simp: moves_def option.map_ident)

lemma moves_trans: "moves a b \<Longrightarrow> moves b c \<Longrightarrow> moves a c"
  by (auto simp: moves_def option.map_comp comp_def)

lemma moves_readBytes: "readBytes mode n w = Some (b, w') \<Longrightarrow> moves w w'"
  using src.rd_append src.rd_rec unfolding moves_def by blast

lemma moves_scanMsg: "scanMsg mode acc w = Some (m, eof, w') \<Longrightarrow> moves w w'"
proof (induction mode acc w rule: scanMsg.induct)
  case (1 mode acc w)
  show ?case
  proof (cases "last_n magicLen acc = magic")
    case True
    then show ?thesis using 1(2) by (subst (asm) scanMsg.simps) (simp add: moves_refl)
  next
    case False
    then obtain b w1 where r: "readBytes mode 1 w = Some (b, w1)"
      using 1(2) by (subst (asm) scanMsg.simps) (auto split: option.splits)
    show ?thesis
    proof (cases "b = []")
      case True
      then show ?thesis using 1(2) False r moves_readBytes [OF r] by (subst (asm) scanMsg.simps) simp
    next
      case b: False
      then have "scanMsg mode (acc @ b) w1 = Some (m, eof, w')"
        using 1(2) False r by (subst (asm) scanMsg.simps) simp
      then show ?thesis using 1(1) [OF False r refl b] moves_readBytes [OF r] moves_trans by blast
    qed
  qed
qed

lemma moves_readActive:
  assumes "readActive mode w = Some (r, w')"
  shows "moves w w'"
proof (cases "readBytes mode (magicLen + msgHdrLen) w")
  case (Some v)
  obtain msg w1 where v: "v = (msg, w1)" by (cases v)
  note m1 = moves_readBytes [OF Some [unfolded v]]
  note rd = Some [unfolded v] Some [unfolded v magic_length(2)]
  show ?thesis
  proof (cases "msg = [] \<or> (\<exists>e. unpack_ints LE hdrFmt (drop magicLen msg) = Inl e)")
    case True
    then show ?thesis using assms m1 by (auto simp: readActive_def rd simp del: magic_length split: if_splits)
  next
    case False
    then obtain hdr where h: "msg \<noteq> []" "unpack_ints LE hdrFmt (drop magicLen msg) = Inr hdr"
      by (cases "unpack_ints LE hdrFmt (drop magicLen msg)") auto
    then obtain msg2 where "readBytes mode (nat (hdr ! 0) + checksumLen) w1 = Some (msg2, w')"
      using assms by (auto simp: readActive_def rd simp del: magic_length split: option.splits)
    then show ?thesis using m1 moves_readBytes moves_trans by blast
  qed
qed (use assms in \<open>simp add: readActive_def\<close>)

lemma moves_counted: "moves (counted mode w) w' \<Longrightarrow> moves w w'"
  by (simp add: moves_def Let_def)

text \<open>
  C16.  Whatever the mode and whether the read succeeds or raises, a call of the reader takes some
  bytes from the front of the source and appends exactly these bytes to the record file.
\<close>

theorem readMsg_records:
  assumes "readMsg mode w = Some (r, w')"
  shows "\<exists>bs. pending (w_file w) = bs @ pending (w_file w') \<and> w_rec w' = map_option (\<lambda>r. r @ bs) (w_rec w)"
proof (cases "activeRead mode")
  case True
  then have "readActive mode (counted mode w) = Some (r, w')" using assms by (simp add: readMsg_def Let_def)
  then have "moves w w'" by (rule moves_counted [OF moves_readActive])
  then show ?thesis by (simp add: moves_def)
next
  case False
  then obtain m eof where "scanMsg mode [] (counted mode w) = Some (m, eof, w')"
    using assms by (auto simp: readMsg_passive split: option.splits)
  then have "moves w w'" by (rule moves_counted [OF moves_scanMsg])
  then show ?thesis by (simp add: moves_def)
qed

subsection \<open>Sending\<close>

lemma sendMsg_sent: "w_sent (fold sendMsg ms w) = w_sent w @ concat (map (\<lambda>m. magic @ m) ms)"
  by (induction ms arbitrary: w) (simp_all add: sendMsg_def)

lemma unframe_send: "unframe (f # ms) = f @ concat (map (\<lambda>m. magic @ m) ms)"
  by (induction ms arbitrary: f) simp_all

lemma frames_of_sent: "list_all (\<lambda>f. \<not> has_magic f) ms \<Longrightarrow> frames (concat (map (\<lambda>m. magic @ m) ms)) = [] # ms"
proof (induction ms)
  case (Cons m ms)
  have free: "list_all (\<lambda>f. \<not> has_magic f) (m # ms) \<Longrightarrow>
      split_magic [] (m @ concat (map (\<lambda>m. magic @ m) ms)) = m # ms" for m ms
  proof (induction ms arbitrary: m)
    case Nil
    then show ?case by (simp add: split_magic_last)
  next
    case (Cons n ns)
    then show ?case using split_magic_block [of "[]" m "n @ concat (map (\<lambda>m. magic @ m) ns)"] by simp
  qed
  have "split_magic [] ([] @ magic @ m @ concat (map (\<lambda>m. magic @ m) ms))
      = [] # split_magic [] (m @ concat (map (\<lambda>m. magic @ m) ms))"
    using split_magic_block [of "[]" "[]"] by simp
  then show ?case using free [OF Cons.prems] by (simp add: frames_def)
qed (simp add: frames_def)

text \<open>
  C15.  Messages that do not contain the magic number are recovered from the wire: after sending them
  one after the other the written bytes, cut as the reader cuts them, are an empty first frame
  followed by exactly these messages, and the same bytes were appended to the record file.
\<close>

theorem sent_messages_are_frames:
  assumes "list_all (\<lambda>m. \<not> has_magic m) ms" and "w_sent w = []" and "w_rec w = Some []"
  shows "frames (w_sent (fold sendMsg ms w)) = [] # ms \<and>
    w_rec (fold sendMsg ms w) = Some (w_sent (fold sendMsg ms w))"
proof -
  have "w_rec (fold sendMsg ms w) = map_option (\<lambda>r. r @ concat (map (\<lambda>m. magic @ m) ms)) (w_rec w)" for w
    by (induction ms arbitrary: w) (simp_all add: sendMsg_def option.map_comp comp_def option.map_ident)
  then show ?thesis using assms by (simp add: sendMsg_sent frames_of_sent)
qed

subsection \<open>The active reader\<close>

lemma readBytes_exact:
  assumes "later (w_file w) = []" and "avail (w_file w) = bs @ rest" and "length bs = n" and "bs \<noteq> []"
  shows "\<exists>w'. readBytes mode n w = Some (bs, w') \<and> avail (w_file w') = rest \<and> later (w_file w') = []"
  using assms by (simp add: readBytes_def file_read_def noteBytes_def Let_def)

lemma unpack_wireHdr:
  assumes "hdr_ok s f t fn" and "n < 2 ^ 16"
  shows "unpack_ints LE hdrFmt (wireHdr n s f t fn) = Inr [int n, 0xffff - int n, s, f, t, fn]"
proof -
  have "pack LE hdrFmt [int n, 0xffff - int n, s, f, t, fn] = Inr (wireHdr n s f t fn)"
    using assms by (simp add: hdrFmt_def wireHdr_def hdr_ok_def in_range_def)
  then show ?thesis by (rule unpack_pack)
qed

text \<open>
  From a source that blocks until its data is there the active reader takes exactly one message:
  four bytes and a message built by \<open>formatMsg\<close> give that message, and the source is left right
  after it.  The four bytes are not looked at: they need not be the magic number.
\<close>

theorem readMsg_active:
  assumes "activeRead mode" and "later (w_file w) = []"
    and "formatMsg msgSeq fromAddr toAddr function data = Inr m"
    and "avail (w_file w) = start @ m @ rest" and "length start = magicLen"
  shows "\<exists>w'. readMsg mode w = Some (Inr (m, False), w') \<and> pending (w_file w') = rest"
proof -
  let ?h = "wireHdr (length data) msgSeq fromAddr toAddr function"
    and ?b = "data @ wireSum msgSeq fromAddr toAddr function data"
  let ?w = "counted mode w"
  have w: "w_file ?w = w_file w" by (simp add: Let_def)
  have ok: "hdr_ok msgSeq fromAddr toAddr function" "length data < 2 ^ 16" and m: "m = ?h @ ?b"
    using formatMsg_Inr [OF assms(3)] by simp_all
  have ne: "start @ ?h \<noteq> []" using assms(5) by auto
  have "avail (w_file ?w) = (start @ ?h) @ (?b @ rest)" "later (w_file ?w) = []"
    using assms(2,4) by (simp_all only: w m append_assoc)
  moreover have "length (start @ ?h) = magicLen + msgHdrLen" using assms(5) by (simp add: msgHdrLen_def)
  ultimately obtain w1 where r1: "readBytes mode (magicLen + msgHdrLen) ?w = Some (start @ ?h, w1)"
    "avail (w_file w1) = ?b @ rest" "later (w_file w1) = []"
    using readBytes_exact ne by blast
  moreover have "length ?b = length data + checksumLen" "?b \<noteq> []"
    using arg_cong [of ?b "[]" length] by (auto simp: checksumLen_def)
  ultimately obtain w2 where r2: "readBytes mode (length data + checksumLen) w1 = Some (?b, w2)"
    "avail (w_file w2) = rest" "later (w_file w2) = []"
    using readBytes_exact by blast
  have d: "drop magicLen (start @ xs) = xs" for xs :: bytes using assms(5) by simp
  from ne have "readActive mode ?w = Some (Inr (m, False), w2)"
    unfolding readActive_def r1(1) option.case prod.case if_False append_assoc d unpack_wireHdr [OF ok] sum.case m
    by (simp add: r2(1) d del: magic_length)
  then have "readMsg mode w = Some (Inr (m, False), w2)" using assms(1) by (simp add: readMsg_def Let_def)
  then show ?thesis using r2(2,3) by (auto simp: pending_def)
qed

subsection \<open>Concrete streams\<close>

definition file_mode :: run_mode where
  "file_mode = \<lparr>serialDevice = False, networkDevice = False, serialType = None, passiveMode = True,
                masterMode = False, following = False\<rparr>"

definition start_world :: "bytes \<Rightarrow> bytes list \<Rightarrow> world" where
  "start_world bs chunks = \<lparr>w_file = \<lparr>avail = bs, later = chunks, fails = False\<rparr>, w_sent = [], w_rec = Some [], w_state = [],
     w_clock = rat_of_nat, w_ticks = 0, dataInSeq = 0, dataOutSeq = 0\<rparr>"

lemma frames_example: "frames [1, 2, 0x12, 0x34, 0x56, 0x79, 3] = [[1, 2], [3]]"
  by (simp add: frames_def Let_def last_n_def drop_last_n_def magic_def)

theorem readMsg_frames_witness:
  "\<exists>w'. readMsg file_mode (start_world [1, 2, 0x12, 0x34, 0x56, 0x79, 3] []) = Some (Inr ([1, 2], False), w') \<and>
     frames (pending (w_file w')) = [[3]]"
proof -
  have "\<not> activeRead file_mode" "ends file_mode (w_file (start_world [1, 2, 0x12, 0x34, 0x56, 0x79, 3] []))"
    by (simp_all add: activeRead_def file_mode_def ends_def start_world_def)
  from readMsg_frames [OF this] show ?thesis
    by (auto simp: start_world_def pending_def frames_example)
qed

theorem readMsg_following_witness:
  "readMsg (file_mode\<lparr>following := True\<rparr>) (start_world [1, 2] [[], [3]]) = None"
proof -
  have "\<not> activeRead (file_mode\<lparr>following := True\<rparr>)" "following (file_mode\<lparr>following := True\<rparr>)"
    "\<not> fails (w_file (start_world [1, 2] [[], [3]]))"
    by (simp_all add: activeRead_def file_mode_def start_world_def)
  from readMsg_following [OF this] show ?thesis
    by (simp add: start_world_def pending_def frames_def Let_def last_n_def magic_def)
qed

theorem readMsg_records_witness:
  "\<exists>w' bs. readMsg file_mode (start_world [1, 2, 0x12, 0x34, 0x56, 0x79, 3] []) = Some (Inr ([1, 2], False), w') \<and>
     [1, 2, 0x12, 0x34, 0x56, 0x79, 3] = bs @ pending (w_file w') \<and> w_rec w' = Some bs"
proof -
  let ?w = "start_world [1, 2, 0x12, 0x34, 0x56, 0x79, 3] []"
  have "steady file_mode (w_file (counted file_mode ?w))" and
    "split_magic [] (pending (w_file (counted file_mode ?w))) = [1, 2] # [[3]]"
    using frames_example by (simp_all add: steady_def start_world_def pending_def frames_def Let_def)
  from scanMsg_frame [OF this(1) _ this(2)] obtain w' where
    r: "readMsg file_mode ?w = Some (Inr ([1, 2], False), w')"
    by (auto simp: readMsg_passive activeRead_def file_mode_def drop_last_n_def)
  from readMsg_records [OF r] r show ?thesis by (auto simp: start_world_def pending_def)
qed

theorem sent_messages_are_frames_witness:
  "frames (w_sent (fold sendMsg [[1, 2], [3]] (start_world [] []))) = [[], [1, 2], [3]]"
proof -
  have "list_all (\<lambda>m. \<not> has_magic m) [[1, 2], [3]]" by (simp add: magic_def)
  from sent_messages_are_frames [OF this, of "start_world [] []"] show ?thesis by (simp add: start_world_def)
qed

theorem readMsg_active_witness:
  "\<exists>w'. readMsg (file_mode\<lparr>passiveMode := False\<rparr>) (start_world ([9, 9, 9, 9] @
       [2, 0, 253, 255, 1, 0, 2, 0, 0, 0, 3, 0, 0, 0, 128, 0, 65, 66, 108, 104] @ [5]) []) =
     Some (Inr ([2, 0, 253, 255, 1, 0, 2, 0, 0, 0, 3, 0, 0, 0, 128, 0, 65, 66, 108, 104], False), w') \<and>
     pending (w_file w') = [5]"
proof -
  let ?mode = "file_mode\<lparr>passiveMode := False\<rparr>" and ?start = "[9, 9, 9, 9] :: bytes"
  have "activeRead ?mode" by (simp add: activeRead_def file_mode_def)
  moreover have "length ?start = magicLen" by simp
  ultimately show ?thesis
    using readMsg_active [OF _ _ formatMsg_example, of ?mode _ ?start "[5]"] by (simp add: start_world_def)
qed

end
