(* ===== verification/Json.thy ===== *)
theory Json
  imports PyVal "HOL-Library.List_Lexorder" "HOL-Library.Char_ord"
begin

text \<open>
  \<^verbatim>\<open>json.dumps(value, sort_keys=True)\<close>, which \<^verbatim>\<open>writeData\<close> of \<^verbatim>\<open>se/data.py\<close> uses: sorted keys,
  non-ASCII text escaped, floats printed with the fewest digits that read back as the same double.
\<close>

subsection \<open>The order of dictionary keys\<close>

text \<open>
  Strings compare by code points, which is the order of their UTF-8 bytes.  Integer and string keys
  do not compare in Python; the order puts the integers first.
\<close>

fun key_rank :: "pykey \<Rightarrow> int + string" where
  "key_rank (KI i) = Inl i"
| "key_rank (KS s) = Inr s"

fun rank_le :: "int + string \<Rightarrow> int + string \<Rightarrow> bool" where
  "rank_le (Inl i) (Inl j) = (i \<le> j)"
| "rank_le (Inl i) (Inr t) = True"
| "rank_le (Inr s) (Inl j) = False"
| "rank_le (Inr s) (Inr t) = (s \<le> t)"

instantiation pykey :: linorder
begin

definition less_eq_pykey :: "pykey \<Rightarrow> pykey \<Rightarrow> bool" where
  "less_eq_pykey a b = rank_le (key_rank a) (key_rank b)"

definition less_pykey :: "pykey \<Rightarrow> pykey \<Rightarrow> bool" where
  "less_pykey a b = (rank_le (key_rank a) (key_rank b) \<and> \<not> rank_le (key_rank b) (key_rank a))"

instance
proof
  fix a b c :: pykey
  show "a < b \<longleftrightarrow> a \<le> b \<and> \<not> b \<le> a" by (simp add: less_eq_pykey_def less_pykey_def)
  show "a \<le> a" by (cases a) (simp_all add: less_eq_pykey_def)
  show "a \<le> b \<Longrightarrow> b \<le> c \<Longrightarrow> a \<le> c" by (cases a; cases b; cases c) (auto simp: less_eq_pykey_def)
  show "a \<le> b \<Longrightarrow> b \<le> a \<Longrightarrow> a = b" by (cases a; cases b) (auto simp: less_eq_pykey_def)
  show "a \<le> b \<or> b \<le> a" by (cases a; cases b) (auto simp: less_eq_pykey_def)
qed

end

subsection \<open>Strings\<close>

text \<open>The code points of well-formed UTF-8.\<close>

fun code_points :: "nat list \<Rightarrow> nat list" where
  "code_points [] = []"
| "code_points (a # bs) =
     (if a < 0x80 then a # code_points bs
      else if a < 0xe0 then
        (case bs of b # r \<Rightarrow> ((a mod 32) * 64 + b mod 64) # code_points r | _ \<Rightarrow> [0xfffd])
      else if a < 0xf0 then
        (case bs of b # c # r \<Rightarrow> ((a mod 16) * 4096 + (b mod 64) * 64 + c mod 64) # code_points r | _ \<Rightarrow> [0xfffd])
      else
        (case bs of b # c # d # r \<Rightarrow>
           ((a mod 8) * 262144 + (b mod 64) * 4096 + (c mod 64) * 64 + d mod 64) # code_points r
         | _ \<Rightarrow> [0xfffd]))"

definition bslash :: char where "bslash = CHR 0x5C"
definition dquote :: char where "dquote = CHR 0x22"

definition u_escape :: "nat \<Rightarrow> string" where
  "u_escape n = bslash # CHR ''u'' # map hexdig [n div 4096 mod 16, n div 256 mod 16, n div 16 mod 16, n mod 16]"

definition json_char :: "nat \<Rightarrow> string" where
  "json_char n =
     (if n = 0x22 then [bslash, dquote]
      else if n = 0x5c then [bslash, bslash]
      else if n = 0x0a then [bslash, CHR ''n'']
      else if n = 0x0d then [bslash, CHR ''r'']
      else if n = 0x09 then [bslash, CHR ''t'']
      else if n = 0x08 then [bslash, CHR ''b'']
      else if n = 0x0c then [bslash, CHR ''f'']
      else if 0x20 \<le> n \<and> n \<le> 0x7e then [char_of n]
      else if n < 0x10000 then u_escape n
      else (let m = n - 0x10000 in u_escape (0xd800 + m div 1024 mod 1024) @ u_escape (0xdc00 + m mod 1024)))"

definition json_string :: "string \<Rightarrow> string" where
  "json_string s = dquote # concat (map json_char (code_points (map of_char s))) @ [dquote]"

subsection \<open>Floats\<close>

definition pow10 :: "int \<Rightarrow> rat" where
  "pow10 k = (if 0 \<le> k then 10 ^ nat k else 1 / 10 ^ nat (- k))"

text \<open>The exponent \<open>e\<close> with \<open>10 ^ e \<le> q < 10 ^ (e + 1)\<close>, for positive \<open>q\<close>.\<close>

definition ilog10 :: "rat \<Rightarrow> int" where
  "ilog10 q = (let (n, d) = quotient_of q;
                   e = int (length (digits_of 10 (nat n))) - int (length (digits_of 10 (nat d)))
               in if q < pow10 e then e - 1 else e)"

text \<open>The decimal with \<open>n\<close> digits next to \<open>q\<close> that rounds to \<open>q\<close>, if there is one.\<close>

definition decimal :: "rat \<Rightarrow> nat \<Rightarrow> int option" where
  "decimal q n =
     (let k = ilog10 q - int n + 1; x = q * pow10 (- k); lo = \<lfloor>x\<rfloor>; hi = lo + 1;
          ok = (\<lambda>d. fl (of_int d * pow10 k) = Fin q); r = x - of_int lo
      in if ok lo \<and> (r < 1 / 2 \<or> r = 1 / 2 \<and> even lo \<or> \<not> ok hi) then Some lo
         else if ok hi then Some hi else None)"

fun shortest :: "rat \<Rightarrow> nat list \<Rightarrow> int \<times> nat" where
  "shortest q [] = (round_half_even (q * pow10 (16 - ilog10 q)), 17)"
| "shortest q (n # ns) = (case decimal q n of Some d \<Rightarrow> (d, n) | None \<Rightarrow> shortest q ns)"

text \<open>
  Digits \<open>ds\<close> with the decimal point after \<open>p\<close> of them, in fixed notation when \<open>-4 < p \<le> m\<close>; \<open>repr\<close>
  has \<open>m = 16\<close>.
\<close>

definition layout :: "int \<Rightarrow> string \<Rightarrow> int \<Rightarrow> string" where
  "layout m ds p =
     (if - 4 < p \<and> p \<le> m then
        if p \<le> 0 then ''0.'' @ replicate (nat (- p)) (CHR ''0'') @ ds
        else if int (length ds) \<le> p then ds @ replicate (nat p - length ds) (CHR ''0'') @ ''.0''
        else take (nat p) ds @ ''.'' @ drop (nat p) ds
      else
        (let e = p - 1
         in take 1 ds @ (if length ds = 1 then '''' else ''.'' @ drop 1 ds) @ ''e'' @
            (if e < 0 then ''-'' else ''+'') @ zpad 2 (dec_str (nat \<bar>e\<bar>))))"

definition strip_zeros :: "string \<Rightarrow> string" where
  "strip_zeros s = rev (dropWhile (\<lambda>c. c = CHR ''0'') (rev s))"

definition pos_repr :: "rat \<Rightarrow> string" where
  "pos_repr q =
     (let (d, n) = shortest q [1..<18]; s = dec_str (nat d); p = ilog10 q + 1 + (int (length s) - int n)
      in layout 16 (strip_zeros s) p)"

definition float_repr :: "pyfloat \<Rightarrow> string" where
  "float_repr x = (case x of
       NaN \<Rightarrow> ''NaN''
     | Infty neg \<Rightarrow> (if neg then ''-Infinity'' else ''Infinity'')
     | NegZero \<Rightarrow> ''-0.0''
     | Fin q \<Rightarrow> if q = 0 then ''0.0'' else if q < 0 then CHR ''-'' # pos_repr (- q) else pos_repr q)"

subsection \<open>Values\<close>

definition json_key :: "pykey \<Rightarrow> string" where
  "json_key k = (case k of KS s \<Rightarrow> json_string s | KI i \<Rightarrow> dquote # int_str i @ [dquote])"

fun is_KI :: "pykey \<Rightarrow> bool" where
  "is_KI (KI i) = True"
| "is_KI (KS s) = False"

definition mixed_keys :: "pydict \<Rightarrow> bool" where
  "mixed_keys d \<longleftrightarrow> list_ex (\<lambda>kv. is_KI (fst kv)) d \<and> list_ex (\<lambda>kv. \<not> is_KI (fst kv)) d"

lemma rmap_cong [fundef_cong]:
  "xs = ys \<Longrightarrow> (\<And>x. x \<in> set ys \<Longrightarrow> f x = g x) \<Longrightarrow> rmap f xs = rmap g ys"
proof (induction xs arbitrary: ys)
  case (Cons x xs)
  have "rmap f xs = rmap g xs" using Cons by auto
  then show ?case using Cons.prems by auto
qed simp

lemma member_smaller: "kv \<in> set (d :: pydict) \<Longrightarrow> size (snd kv) < size (PDict d)"
  by (induction d) (auto simp: less_Suc_eq_le prod.size_gen split: prod.split)

function dumps :: "pyval \<Rightarrow> string res" where
  "dumps PNone = Inr ''null''"
| "dumps (PBool b) = Inr (if b then ''true'' else ''false'')"
| "dumps (PInt i) = Inr (int_str i)"
| "dumps (PFloat x) = Inr (float_repr x)"
| "dumps (PStr s) = Inr (json_string s)"
| "dumps (PBytes b) = Inl TypeError"
| "dumps (PDict d) =
     (if mixed_keys d then Inl TypeError
      else rbind (rmap (\<lambda>kv. rbind (dumps (snd kv)) (\<lambda>s. Inr (json_key (fst kv) @ '': '' @ s))) (sort_key fst d))
        (\<lambda>ps. Inr (''{'' @ join '', '' ps @ ''}'')))"
  by pat_completeness auto
termination by (relation "measure size") (auto dest: member_smaller)

text \<open>Byte strings and mixed keys are the only values without a text.\<close>

fun writable :: "pyval \<Rightarrow> bool" where
  "writable (PBytes b) \<longleftrightarrow> False"
| "writable (PDict d) \<longleftrightarrow> \<not> mixed_keys d \<and> list_all (\<lambda>kv. writable (snd kv)) d"
| "writable v \<longleftrightarrow> True"

lemma dumps_writable: "writable v \<Longrightarrow> \<exists>s. dumps v = Inr s"
proof (induction v rule: dumps.induct)
  case (7 d)
  then have mixed: "\<not> mixed_keys d" by simp
  let ?text = "\<lambda>kv. case dumps (snd kv) of Inr s \<Rightarrow> json_key (fst kv) @ '': '' @ s"
  have "rbind (dumps (snd kv)) (\<lambda>s. Inr (json_key (fst kv) @ '': '' @ s)) = Inr (?text kv)" if "kv \<in> set (sort_key fst d)" for kv
  proof -
    have "writable (snd kv)" using 7(2) that by (simp add: list_all_iff)
    from 7(1) [OF mixed that this] obtain s where "dumps (snd kv) = Inr s" ..
    then show ?thesis by simp
  qed
  then have "rmap (\<lambda>kv. rbind (dumps (snd kv)) (\<lambda>s. Inr (json_key (fst kv) @ '': '' @ s))) (sort_key fst d) =
      Inr (map ?text (sort_key fst d))"
    by (rule rmap_Inr)
  then show ?case using mixed by simp
qed simp_all

subsection \<open>The text is one printable line\<close>

definition printable :: "string \<Rightarrow> bool" where
  "printable s \<longleftrightarrow> list_all (\<lambda>c. 0x20 \<le> (of_char c :: nat) \<and> (of_char c :: nat) \<le> 0x7e) s"

lemma printable_simps [simp]:
  "printable []" "printable (c # s) \<longleftrightarrow> 0x20 \<le> (of_char c :: nat) \<and> (of_char c :: nat) \<le> 0x7e \<and> printable s"
  "printable (s @ t) \<longleftrightarrow> printable s \<and> printable t" "printable (rev s) \<longleftrightarrow> printable s"
  "printable (replicate n c) \<longleftrightarrow> n = 0 \<or> 0x20 \<le> (of_char c :: nat) \<and> (of_char c :: nat) \<le> 0x7e"
  by (auto simp: printable_def list_all_iff)

lemma printable_take [simp]: "printable s \<Longrightarrow> printable (take n s)" "printable s \<Longrightarrow> printable (drop n s)"
  "printable s \<Longrightarrow> printable (dropWhile P s)"
  by (auto simp: printable_def list_all_iff dest: in_set_takeD in_set_dropD set_dropWhileD)

lemma printable_hexdig: "n < 16 \<Longrightarrow> 0x20 \<le> (of_char (hexdig n) :: nat) \<and> (of_char (hexdig n) :: nat) \<le> 0x7e"
  by (simp add: hexdig_def)

lemma printable_hexdigs: "(\<And>d. d \<in> set ds \<Longrightarrow> d < 16) \<Longrightarrow> printable (map hexdig ds)"
  using printable_hexdig by (auto simp: printable_def list_all_iff)

lemma printable_dec_str [simp]: "printable (dec_str n)"
  unfolding dec_str_def using digits_of_less [of 10] by (intro printable_hexdigs) fastforce

lemma printable_zpad [simp]: "printable s \<Longrightarrow> printable (zpad n s)"
  by (simp add: zpad_def)

lemma printable_int_str [simp]: "printable (int_str i)"
  by (simp add: int_str_def)

lemma printable_u_escape [simp]: "printable (u_escape n)"
proof -
  have "printable (map hexdig [n div 4096 mod 16, n div 256 mod 16, n div 16 mod 16, n mod 16])"
    by (rule printable_hexdigs) auto
  then show ?thesis by (simp add: u_escape_def bslash_def)
qed

lemma printable_json_char [simp]: "printable (json_char n)"
  by (simp add: json_char_def bslash_def dquote_def Let_def)

lemma printable_concat: "(\<And>x. x \<in> set xs \<Longrightarrow> printable x) \<Longrightarrow> printable (concat xs)"
  by (induction xs) auto

lemma printable_json_string [simp]: "printable (json_string s)"
  by (auto simp: json_string_def dquote_def intro!: printable_concat)

lemma printable_layout: "printable s \<Longrightarrow> printable (layout m s p)"
  by (simp add: layout_def Let_def)

lemma printable_float_repr [simp]: "printable (float_repr x)"
  by (cases x) (auto simp: float_repr_def pos_repr_def strip_zeros_def Let_def intro!: printable_layout split: prod.split)

lemma printable_json_key [simp]: "printable (json_key k)"
  by (cases k) (simp_all add: json_key_def dquote_def)

lemma printable_join: "printable sep \<Longrightarrow> (\<And>x. x \<in> set xs \<Longrightarrow> printable x) \<Longrightarrow> printable (join sep xs)"
  by (induction sep xs rule: join.induct) auto

lemma rmap_printable:
  assumes "\<And>x. x \<in> set xs \<Longrightarrow> (case f x of Inr s \<Rightarrow> printable s | Inl e \<Rightarrow> e = TypeError)"
  shows "case rmap f xs of Inr ss \<Rightarrow> list_all printable ss | Inl e \<Rightarrow> e = TypeError"
  using assms
proof (induction xs)
  case (Cons x xs)
  then have "case f x of Inr s \<Rightarrow> printable s | Inl e \<Rightarrow> e = TypeError"
    "case rmap f xs of Inr ss \<Rightarrow> list_all printable ss | Inl e \<Rightarrow> e = TypeError"
    by simp_all
  then show ?case by (cases "f x"; cases "rmap f xs") simp_all
qed simp

text \<open>
  The JSON text of any value is one line of printable ASCII characters, so that writing it with
  a latin-1 encoding and a newline never fails and never breaks the line structure of the output;
  the only exception is the \<^verbatim>\<open>TypeError\<close> for byte strings and mixed keys.
\<close>

theorem dumps_one_line: "case dumps v of Inr s \<Rightarrow> printable s | Inl e \<Rightarrow> e = TypeError"
proof (induction v rule: dumps.induct)
  case (7 d)
  show ?case
  proof (cases "mixed_keys d")
    case False
    let ?f = "\<lambda>kv. rbind (dumps (snd kv)) (\<lambda>s. Inr (json_key (fst kv) @ '': '' @ s))"
    have "case ?f kv of Inr s \<Rightarrow> printable s | Inl e \<Rightarrow> e = TypeError" if "kv \<in> set (sort_key fst d)" for kv
      using 7 [OF False that] by (cases "dumps (snd kv)") simp_all
    then have "case rmap ?f (sort_key fst d) of Inr ss \<Rightarrow> list_all printable ss | Inl e \<Rightarrow> e = TypeError"
      by (rule rmap_printable)
    then show ?thesis
      using False by (cases "rmap ?f (sort_key fst d)") (auto simp: list_all_iff intro!: printable_join)
  qed simp
qed (simp_all add: split: bool.split)

end
