(* ===== verification/PyInt.thy ===== *)
theory PyInt
  imports Env
begin

text \<open>
  Python's \<^verbatim>\<open>int(s)\<close> and \<^verbatim>\<open>int(s, 16)\<close>: optional white space at both ends, a sign, for base 16
  the prefix \<^verbatim>\<open>0x\<close>, and digits that single underscores may separate; anything else raises
  \<^verbatim>\<open>ValueError\<close>.  Digits and spaces outside ASCII are left out.  The lemmas cover the strings the
  program itself writes and the ones its argument validators accept.
\<close>

subsection \<open>Reading a numeral\<close>

definition is_space :: "char \<Rightarrow> bool" where
  "is_space c = (let n = of_char c :: nat in 9 \<le> n \<and> n \<le> 13 \<or> 28 \<le> n \<and> n \<le> 32)"

definition digit_in :: "nat \<Rightarrow> char \<Rightarrow> nat option" where
  "digit_in b c = (case hexval c of Some d \<Rightarrow> if d < b then Some d else None | None \<Rightarrow> None)"

fun read_digits :: "nat \<Rightarrow> string \<Rightarrow> nat list option" where
  "read_digits b [] = None"
| "read_digits b [c] = map_option (\<lambda>d. [d]) (digit_in b c)"
| "read_digits b (c # c' # cs) =
     (case digit_in b c of
        None \<Rightarrow> None
      | Some d \<Rightarrow> map_option ((#) d) (if c' = CHR ''_'' then read_digits b cs else read_digits b (c' # cs)))"

fun read_sign :: "string \<Rightarrow> int \<times> string" where
  "read_sign [] = (1, [])"
| "read_sign (c # cs) =
     (if c = CHR ''-'' then (- 1, cs) else if c = CHR ''+'' then (1, cs) else (1, c # cs))"

fun read_prefix :: "nat \<Rightarrow> string \<Rightarrow> string" where
  "read_prefix b (z # x # cs) =
     (if b = 16 \<and> z = CHR ''0'' \<and> (x = CHR ''x'' \<or> x = CHR ''X'')
      then (case cs of c # cs' \<Rightarrow> if c = CHR ''_'' then cs' else cs | [] \<Rightarrow> cs) else z # x # cs)"
| "read_prefix b s = s"

definition py_int :: "nat \<Rightarrow> string \<Rightarrow> int res" where
  "py_int b s =
     (let (sign, t) = read_sign (strip_chars is_space s)
      in case read_digits b (read_prefix b t) of
           Some ds \<Rightarrow> Inr (sign * int (value_of b ds))
         | None \<Rightarrow> Inl ValueError)"

subsection \<open>Digits without decoration\<close>

lemma not_digit [simp]:
  "digit_in b (CHR ''-'') = None" "digit_in b (CHR ''+'') = None" "digit_in b (CHR ''_'') = None"
  "digit_in b (CHR ''x'') = None" "digit_in b (CHR ''X'') = None"
  by (simp_all add: digit_in_def hexval_def)

lemma digit_in_Some: "digit_in b c = Some d \<longleftrightarrow> hexval c = Some d \<and> d < b"
  by (auto simp: digit_in_def split: option.splits if_splits)

lemma digit_not_space: "digit_in b c = Some d \<Longrightarrow> \<not> is_space c"
  by (auto simp: digit_in_Some hexval_def is_space_def Let_def split: if_splits)

definition plain_digits :: "nat \<Rightarrow> string \<Rightarrow> bool" where
  "plain_digits b s \<longleftrightarrow> s \<noteq> [] \<and> list_all (\<lambda>c. digit_in b c \<noteq> None) s"

lemma read_digits_plain:
  "plain_digits b s \<Longrightarrow> read_digits b s = Some (map (\<lambda>c. the (digit_in b c)) s)"
  by (induction b s rule: read_digits.induct) (auto simp: plain_digits_def)

lemma digit_values: "plain_digits b s \<Longrightarrow> map (\<lambda>c. the (digit_in b c)) s = map (\<lambda>c. the (hexval c)) s"
  by (force simp: plain_digits_def list_all_iff digit_in_def split: option.splits)

lemma read_prefix_plain: "plain_digits b s \<Longrightarrow> read_prefix b s = s"
  by (cases "(b, s)" rule: read_prefix.cases) (auto simp: plain_digits_def)

lemma read_sign_plain: "plain_digits b s \<Longrightarrow> read_sign s = (1, s)"
  by (cases s) (auto simp: plain_digits_def)

lemma strip_newline:
  assumes "list_all (\<lambda>c. \<not> is_space c) s" and "s \<noteq> []"
  shows "strip_chars is_space (s @ [CHR 0x0A]) = s"
proof -
  obtain c cs where s: "s = c # cs" using assms(2) by (cases s) auto
  obtain d ds where r: "rev s = d # ds" using assms(2) by (cases "rev s") auto
  have "d \<in> set s" using r by (metis list.set_intros(1) set_rev)
  then have d: "\<not> is_space d" using assms(1) by (simp add: list_all_iff)
  have nl: "is_space (CHR 0x0A)" by (simp add: is_space_def)
  have "dropWhile is_space (s @ [CHR 0x0A]) = s @ [CHR 0x0A]" using assms(1) by (simp add: s)
  moreover have "dropWhile is_space (rev s) = rev s" using d by (simp add: r)
  ultimately show ?thesis using nl by (simp add: strip_chars_def)
qed

text \<open>Digits alone or followed by a newline denote the number one reads from the digits.\<close>

lemma py_int_plain:
  assumes "plain_digits b s"
  shows "py_int b s = Inr (int (value_of b (map (\<lambda>c. the (hexval c)) s)))"
    and "py_int b (s @ [CHR 0x0A]) = Inr (int (value_of b (map (\<lambda>c. the (hexval c)) s)))"
proof -
  have sp: "list_all (\<lambda>c. \<not> is_space c) s" "s \<noteq> []"
    using assms digit_not_space by (fastforce simp: plain_digits_def list_all_iff)+
  then have "strip_chars is_space s = s"
    by (intro strip_chars_none) (auto simp: list_all_iff)
  then show "py_int b s = Inr (int (value_of b (map (\<lambda>c. the (hexval c)) s)))"
    using assms by (simp add: py_int_def read_sign_plain read_prefix_plain read_digits_plain digit_values)
  show "py_int b (s @ [CHR 0x0A]) = Inr (int (value_of b (map (\<lambda>c. the (hexval c)) s)))"
    using assms by (simp add: py_int_def strip_newline [OF sp] read_sign_plain read_prefix_plain read_digits_plain digit_values)
qed

lemma dec_str_plain: "plain_digits 10 (dec_str n)"
proof -
  have "d < 10" if "d \<in> set (digits_of 10 n)" for d using digits_of_less [of 10 d n] that by simp
  then show ?thesis
    by (force simp: plain_digits_def dec_str_def list_all_iff digit_in_def)
qed

lemma dec_str_value: "value_of 10 (map (\<lambda>c. the (hexval c)) (dec_str n)) = n"
proof -
  have d: "d < 10" if "d \<in> set (digits_of 10 n)" for d using digits_of_less [of 10 d n] that by simp
  have "map (\<lambda>c. the (hexval c)) (dec_str n) = map (\<lambda>d. d) (digits_of 10 n)"
    unfolding dec_str_def map_map comp_def by (rule map_cong) (use d in \<open>force+\<close>)
  then show ?thesis using value_digits_of [of 10 n] by simp
qed

text \<open>\<^verbatim>\<open>int\<close> inverts \<^verbatim>\<open>str\<close>, with or without a newline at the end.\<close>

lemma py_int_dec_str [simp]:
  "py_int 10 (dec_str n) = Inr (int n)" "py_int 10 (dec_str n @ [CHR 0x0A]) = Inr (int n)"
  using py_int_plain [OF dec_str_plain] by (simp_all add: dec_str_value)

lemma hex_digits_plain: "hex_digits s \<longleftrightarrow> plain_digits 16 s"
proof -
  have "hexval c \<noteq> None \<longleftrightarrow> digit_in 16 c \<noteq> None" for c
    by (auto simp: digit_in_Some hexval_def Let_def split: if_splits)
  then show ?thesis by (simp add: hex_digits_def plain_digits_def)
qed

text \<open>What the validators accept as hexadecimal, a newline at the end included, is a number.\<close>

lemma py_int_hex_digits:
  assumes "hex_digits (chomp s)"
  shows "\<exists>n. py_int 16 s = Inr (int n)"
proof (cases "s \<noteq> [] \<and> last s = CHR 0x0A")
  case True
  then have "s = chomp s @ [CHR 0x0A]" by (metis append_butlast_last_id chomp_def)
  then show ?thesis using py_int_plain(2) assms by (metis hex_digits_plain)
next
  case False
  then have "chomp s = s" by (auto simp: chomp_def)
  then show ?thesis using py_int_plain(1) assms by (metis hex_digits_plain)
qed

end
