(* ===== verification/Effects.thy ===== *)
theory Effects
  imports Prelude
begin

text \<open>
  Code that reads and changes a state and may raise: a function from the state to a result and the
  state left behind, also when an exception ends it.  \<open>sbind\<close> runs two pieces of code one after the
  other.
\<close>

named_theorems eff_simps \<open>running stateful code\<close>

type_synonym ('s, 'a) eff = "'s \<Rightarrow> 'a res \<times> 's"

definition ret :: "'a \<Rightarrow> ('s, 'a) eff" where
  "ret x s = (Inr x, s)"

definition lift :: "'a res \<Rightarrow> ('s, 'a) eff" where
  "lift r s = (r, s)"

definition modify :: "('s \<Rightarrow> 's) \<Rightarrow> ('s, unit) eff" where
  "modify f s = (Inr (), f s)"

definition sbind :: "('s, 'a) eff \<Rightarrow> ('a \<Rightarrow> ('s, 'b) eff) \<Rightarrow> ('s, 'b) eff" where
  "sbind m k s = (case m s of (Inl e, s') \<Rightarrow> (Inl e, s') | (Inr x, s') \<Rightarrow> k x s')"

lemma ret_run [simp]: "ret x s = (Inr x, s)"
  and lift_run [simp]: "lift r s = (r, s)"
  and modify_run [simp]: "modify f s = (Inr (), f s)"
  by (simp_all add: ret_def lift_def modify_def)

lemma sbind_Inr: "m s = (Inr x, s') \<Longrightarrow> sbind m k s = k x s'"
  by (simp add: sbind_def)

lemma sbind_Inl: "m s = (Inl e, s') \<Longrightarrow> sbind m k s = (Inl e, s')"
  by (simp add: sbind_def)

lemma sbind_ret [simp]: "sbind (ret x) k s = k x s"
  by (simp add: sbind_def)

lemma sbind_lift_Inr [simp]: "sbind (lift (Inr x)) k s = k x s"
  by (simp add: sbind_def)

lemma sbind_lift_Inl [simp]: "sbind (lift (Inl e)) k s = (Inl e, s)"
  by (simp add: sbind_def)

lemma sbind_modify [simp]: "sbind (modify f) k s = k () (f s)"
  by (simp add: sbind_def)

lemma sbind_assoc: "sbind (sbind m f) g = sbind m (\<lambda>x. sbind (f x) g)"
  by (auto simp: fun_eq_iff sbind_def split: prod.split sum.split)

lemma sbind_eq_Inr [eff_simps]:
  "sbind m k s = (Inr y, t) \<longleftrightarrow> (\<exists>x s'. m s = (Inr x, s') \<and> k x s' = (Inr y, t))"
  by (auto simp: sbind_def split: prod.split sum.split)

lemma sbind_eq_Inl [eff_simps]:
  "sbind m k s = (Inl e, t) \<longleftrightarrow> m s = (Inl e, t) \<or> (\<exists>x s'. m s = (Inr x, s') \<and> k x s' = (Inl e, t))"
  by (auto simp: sbind_def split: prod.split sum.split)

subsection \<open>What a piece of code preserves\<close>

text \<open>\<open>keeps g m\<close>: running \<open>m\<close> does not change the part \<open>g\<close> of the state.\<close>

definition keeps :: "('s \<Rightarrow> 'v) \<Rightarrow> ('s, 'a) eff \<Rightarrow> bool" where
  "keeps g m \<longleftrightarrow> (\<forall>s. g (snd (m s)) = g s)"

lemma keepsD: "keeps g m \<Longrightarrow> m s = (r, t) \<Longrightarrow> g t = g s"
  unfolding keeps_def by (metis snd_conv)

lemma keeps_ret [intro]: "keeps g (ret x)"
  and keeps_lift [intro]: "keeps g (lift r)"
  by (simp_all add: keeps_def)

lemma keeps_modify [intro]: "(\<And>s. g (f s) = g s) \<Longrightarrow> keeps g (modify f)"
  by (simp add: keeps_def)

lemma keeps_sbind [intro]: "keeps g m \<Longrightarrow> (\<And>x. keeps g (k x)) \<Longrightarrow> keeps g (sbind m k)"
proof -
  assume m: "keeps g m" and k: "\<And>x. keeps g (k x)"
  have "g (snd (sbind m k s)) = g s" for s
  proof (cases "m s")
    case (Pair r t)
    then show ?thesis using keepsD [OF m Pair] k
      by (cases r) (simp_all add: sbind_def keeps_def)
  qed
  then show ?thesis by (simp add: keeps_def)
qed

lemma keeps_if [intro]: "keeps g m \<Longrightarrow> keeps g n \<Longrightarrow> keeps g (if b then m else n)"
  by simp

text \<open>\<open>preserves P m\<close>: if \<open>P\<close> holds before \<open>m\<close>, it holds after it, an exception or not.\<close>

definition preserves :: "('s \<Rightarrow> bool) \<Rightarrow> ('s, 'a) eff \<Rightarrow> bool" where
  "preserves P m \<longleftrightarrow> (\<forall>s. P s \<longrightarrow> P (snd (m s)))"

lemma preservesD: "preserves P m \<Longrightarrow> m s = (r, t) \<Longrightarrow> P s \<Longrightarrow> P t"
  unfolding preserves_def by (metis snd_conv)

lemma preserves_keeps: "keeps P m \<Longrightarrow> preserves P m"
  by (simp add: preserves_def keeps_def)

lemma preserves_ret [intro]: "preserves P (ret x)"
  and preserves_lift [intro]: "preserves P (lift r)"
  by (simp_all add: preserves_def)

lemma preserves_modify [intro]: "(\<And>s. P s \<Longrightarrow> P (f s)) \<Longrightarrow> preserves P (modify f)"
  by (simp add: preserves_def)

lemma preserves_sbind [intro]: "preserves P m \<Longrightarrow> (\<And>x. preserves P (k x)) \<Longrightarrow> preserves P (sbind m k)"
proof -
  assume m: "preserves P m" and k: "\<And>x. preserves P (k x)"
  have "P (snd (sbind m k s))" if "P s" for s
  proof (cases "m s")
    case (Pair r t)
    then show ?thesis using preservesD [OF m Pair that] k
      by (cases r) (simp_all add: sbind_def preserves_def)
  qed
  then show ?thesis by (simp add: preserves_def)
qed

lemma preserves_if [intro]: "preserves P m \<Longrightarrow> preserves P n \<Longrightarrow> preserves P (if b then m else n)"
  by simp

text \<open>\<open>blind upd m\<close>: \<open>m\<close> neither looks at nor changes the part of the state that \<open>upd\<close> replaces.\<close>

definition blind :: "('v \<Rightarrow> 's \<Rightarrow> 's) \<Rightarrow> ('s, 'a) eff \<Rightarrow> bool" where
  "blind upd m \<longleftrightarrow> (\<forall>v s. m (upd v s) = (fst (m s), upd v (snd (m s))))"

lemma blindD: "blind upd m \<Longrightarrow> m (upd v s) = (fst (m s), upd v (snd (m s)))"
  by (simp add: blind_def)

lemma blind_ret [intro]: "blind upd (ret x)"
  and blind_lift [intro]: "blind upd (lift r)"
  by (simp_all add: blind_def)

lemma blind_modify [intro]: "(\<And>v s. f (upd v s) = upd v (f s)) \<Longrightarrow> blind upd (modify f)"
  by (simp add: blind_def)

lemma blind_sbind [intro]: "blind upd m \<Longrightarrow> (\<And>x. blind upd (k x)) \<Longrightarrow> blind upd (sbind m k)"
proof -
  assume m: "blind upd m" and k: "\<And>x. blind upd (k x)"
  have "sbind m k (upd v s) = (fst (sbind m k s), upd v (snd (sbind m k s)))" for v s
  proof (cases "m s")
    case (Pair r t)
    then show ?thesis using blindD [OF m, of v s] blindD [OF k, of _ v t]
      by (cases r) (simp_all add: sbind_def)
  qed
  then show ?thesis by (simp add: blind_def)
qed

lemma blind_if [intro]: "blind upd m \<Longrightarrow> blind upd n \<Longrightarrow> blind upd (if b then m else n)"
  by simp

end
