(* ===== verification/Monitor.thy ===== *)
theory Monitor
  imports Data Framing Json PyInt Effects
begin

text \<open>
  The monitor, \<^verbatim>\<open>semonitor.py\<close>: what happens to a message that has been read (\<open>processMsg\<close>), the
  reading loop (\<open>readData\<close>), the sequence numbers (\<open>nextSeq\<close>) and the firmware file, with
  \<open>writeData\<close> of \<^verbatim>\<open>se/data.py\<close>.  Log output is left out.

  The state is what these functions share: the world of the message I/O, the class-level layouts of
  the device parser, the output file (none, or what has been written to it), the counters, the
  firmware buffer, the event of the master thread, the file with the last sequence number (none
  before it is first written), and the connections a listening socket will accept.
\<close>

subsection \<open>State\<close>

record monitor =
  m_world :: world
  m_classes :: classes
  m_out :: "bytes option"
  m_outSeq :: nat
  m_update :: bytes
  m_image :: "(string \<times> bytes) option"
  m_event :: bool
  m_seqFile :: "string option"
  m_conns :: "infile list"

type_synonym 'a mon = "(monitor, 'a) eff"

definition onWorld :: "(world \<Rightarrow> world) \<Rightarrow> monitor \<Rightarrow> monitor" where
  "onWorld f st = st\<lparr>m_world := f (m_world st)\<rparr>"

definition setVar :: "string \<Rightarrow> bool \<Rightarrow> unit mon" where
  "setVar name b = modify (onWorld (setState name (PBool b)))"

text \<open>\<^verbatim>\<open>int(time.time())\<close>: the clock of the world is read and moves on.\<close>

definition now :: "int mon" where
  "now st =
     (let w = m_world st; t = w_clock w (w_ticks w)
      in (Inr (if 0 \<le> t then \<lfloor>t\<rfloor> else \<lceil>t\<rceil>), st\<lparr>m_world := w\<lparr>w_ticks := Suc (w_ticks w)\<rparr>\<rparr>))"

definition UPDATE_SIZE :: nat where "UPDATE_SIZE = 0x80000"
definition MASTER_ADDR :: int where "MASTER_ADDR = 0xfffffffe"

subsection \<open>Output\<close>

text \<open>\<^verbatim>\<open>msg.encode('latin-1')\<close>\<close>

definition latin1 :: "string \<Rightarrow> bytes" where
  "latin1 s = map (\<lambda>c. of_nat (of_char c)) s"

definition writeData :: "pyval \<Rightarrow> unit mon" where
  "writeData msgDict st =
     (case m_out st of
        None \<Rightarrow> (Inr (), st)
      | Some out \<Rightarrow>
          sbind (modify (\<lambda>st. st\<lparr>m_outSeq := Suc (m_outSeq st)\<rparr>)) (\<lambda>_.
          sbind (lift (dumps msgDict)) (\<lambda>msg.
            modify (\<lambda>st. st\<lparr>m_out := Some (out @ latin1 msg @ [0x0A])\<rparr>))) st)"

text \<open>\<^verbatim>\<open>updateBuf[a:b] = ys\<close>: the list changes its length if the slice and \<open>ys\<close> differ in theirs.\<close>

definition slice_assign :: "nat \<Rightarrow> nat \<Rightarrow> 'a list \<Rightarrow> 'a list \<Rightarrow> 'a list" where
  "slice_assign a b ys xs = take a xs @ ys @ drop (max a b) xs"

fun dict_of :: "pyval \<Rightarrow> pydict res" where
  "dict_of (PDict d) = Inr d"
| "dict_of _ = Inl TypeError"

fun bytes_of :: "pyval \<Rightarrow> bytes res" where
  "bytes_of (PBytes b) = Inr b"
| "bytes_of _ = Inl TypeError"

definition updateImage :: "pyval \<Rightarrow> bytes \<Rightarrow> bytes res" where
  "updateImage msgData buf =
     rbind (dict_of msgData) (\<lambda>d.
     rbind (rbind (dlookup d (KS ''data'')) bytes_of) (\<lambda>ys.
     rbind (rbind (dlookup d (KS ''offset'')) int_of) (\<lambda>off.
     rbind (rbind (dlookup d (KS ''length'')) int_of) (\<lambda>len.
       Inr (slice_assign (nat off) (nat (off + len)) ys buf)))))"

definition storeData :: "int \<Rightarrow> bytes \<Rightarrow> pyval \<Rightarrow> unit mon" where
  "storeData function data msgData st =
     (if function = PROT_CMD_SERVER_POST_DATA \<and> data \<noteq> [] then writeData msgData st
      else if m_update st \<noteq> [] \<and> function = PROT_CMD_UPGRADE_WRITE then
        sbind (lift (updateImage msgData (m_update st))) (\<lambda>buf. modify (\<lambda>st. st\<lparr>m_update := buf\<rparr>)) st
      else (Inr (), st))"

subsection \<open>Replies\<close>

text \<open>The time reply carries the time and the difference between the local and the UTC hour.\<close>

definition timeReply :: "clock \<Rightarrow> bytes mon" where
  "timeReply lt =
     sbind now (\<lambda>t. sbind now (\<lambda>t'. sbind (lift (lt t')) (\<lambda>tm. sbind now (\<lambda>t''.
       lift (formatTime t ((int (tm_hour tm) - t'' div 3600 mod 24) * 60 * 60))))))"

definition replyTo :: "clock \<Rightarrow> int \<Rightarrow> (int \<times> bytes) option mon" where
  "replyTo lt function =
     (if function = PROT_CMD_SERVER_POST_DATA then ret (Some (PROT_RESP_ACK, []))
      else if function = 0x0503 then ret (Some (PROT_RESP_ACK, []))
      else if function = PROT_CMD_SERVER_GET_GMT then
        sbind (timeReply lt) (\<lambda>d. ret (Some (PROT_RESP_SERVER_GMT, d)))
      else if function = PROT_RESP_POLESTAR_MASTER_GRANT_ACK then
        sbind (modify (\<lambda>st. st\<lparr>m_event := True\<rparr>)) (\<lambda>_. sbind (setVar ''masterEvent'' True) (\<lambda>_. ret None))
      else ret None)"

definition sendReply :: "clock \<Rightarrow> int \<Rightarrow> int \<Rightarrow> int \<Rightarrow> int \<Rightarrow> unit mon" where
  "sendReply lt msgSeq fromAddr toAddr function =
     sbind (replyTo lt function) (\<lambda>reply. case reply of
         None \<Rightarrow> ret ()
       | Some (replyFunction, replyData) \<Rightarrow>
           sbind (lift (formatMsg msgSeq toAddr fromAddr replyFunction replyData)) (\<lambda>m.
             modify (onWorld (sendMsg m))))"

subsection \<open>Processing a message\<close>

definition parsePayload :: "clock \<Rightarrow> int \<Rightarrow> bytes \<Rightarrow> pyval mon" where
  "parsePayload lt function data st =
     (case parseData lt function data (m_classes st) of (cs, r) \<Rightarrow> (r, st\<lparr>m_classes := cs\<rparr>))"

definition processMsg :: "clock \<Rightarrow> run_mode \<Rightarrow> bytes \<Rightarrow> unit mon" where
  "processMsg lt mode msg =
     sbind (lift (parseMsg msg)) (\<lambda>(msgSeq, fromAddr, toAddr, function, data).
       if function = 0 then ret ()
       else sbind (parsePayload lt function data) (\<lambda>msgData.
            sbind (storeData function data msgData) (\<lambda>_.
              if networkDevice mode \<or> masterMode mode
              then sendReply lt msgSeq fromAddr toAddr function else ret ())))"

text \<open>
  The body of the reading loop after the read: messages of zeros only are ignored; an exception is
  logged, and raised again only with \<^verbatim>\<open>-x\<close> (the state variable then stays as it is, although
  leaving the block releases the lock).
\<close>

definition handleMsg :: "clock \<Rightarrow> run_mode \<Rightarrow> bool \<Rightarrow> bytes \<Rightarrow> unit mon" where
  "handleMsg lt mode xerror msg =
     (if msg = replicate (length msg) 0 then ret ()
      else sbind (setVar ''threadLock'' True) (\<lambda>_ st.
        case processMsg lt mode msg st of
          (Inl e, st') \<Rightarrow> if xerror then (Inl e, st') else setVar ''threadLock'' False st'
        | (Inr _, st') \<Rightarrow> setVar ''threadLock'' False st'))"

subsection \<open>The reading loop\<close>

text \<open>A broken connection is replaced by the next one that is accepted; \<open>None\<close>: nobody connects.\<close>

definition reconnect :: "monitor \<Rightarrow> monitor option" where
  "reconnect st = (case m_conns st of
       [] \<Rightarrow> None
     | f # fs \<Rightarrow> Some (onWorld (\<lambda>w. w\<lparr>w_file := f\<rparr>) (st\<lparr>m_conns := fs\<rparr>)))"

definition readStep :: "clock \<Rightarrow> run_mode \<Rightarrow> bool \<Rightarrow> monitor \<Rightarrow> (bool res \<times> monitor) option" where
  "readStep lt mode xerror st =
     (case readMsg mode (m_world st) of
        None \<Rightarrow> None
      | Some (Inl e, w) \<Rightarrow> Some (Inl e, st\<lparr>m_world := w\<rparr>)
      | Some (Inr (msg, eof), w) \<Rightarrow>
          (case (if eof \<and> networkDevice mode then reconnect (st\<lparr>m_world := w\<rparr>) else Some (st\<lparr>m_world := w\<rparr>)) of
             None \<Rightarrow> None
           | Some st1 \<Rightarrow> Some (sbind (handleMsg lt mode xerror msg)
                                     (\<lambda>_. ret (eof \<and> \<not> networkDevice mode)) st1)))"

subsection \<open>Every turn of the loop makes progress\<close>

lemma moves_length: "moves w w' \<Longrightarrow> length (pending (w_file w')) \<le> length (pending (w_file w))"
  by (auto simp: moves_def)

lemma scanMsg_progress:
  assumes "scanMsg mode acc w = Some (m, False, w')" and "last_n magicLen acc \<noteq> magic"
  shows "length (pending (w_file w')) < length (pending (w_file w))"
proof -
  obtain b w1 where r: "readBytes mode 1 w = Some (b, w1)" "b \<noteq> []" "scanMsg mode (acc @ b) w1 = Some (m, False, w')"
    using assms by (subst (asm) scanMsg.simps) (auto split: option.splits if_splits)
  from moves_length [OF moves_scanMsg [OF r(3)]] src.rd_less [OF r(1,2)] show ?thesis by simp
qed

lemma readActive_progress:
  assumes "readActive mode w = Some (Inr (m, False), w')"
  shows "length (pending (w_file w')) < length (pending (w_file w))"
proof -
  obtain b w1 where r: "readBytes mode (magicLen + msgHdrLen) w = Some (b, w1)"
    using assms by (cases "readBytes mode (magicLen + msgHdrLen) w") (auto simp: readActive_def)
  note r' = r [unfolded magic_length(2)]
  have b: "b \<noteq> []" using assms by (auto simp: readActive_def r' split: if_splits)
  moreover have "moves w1 w'"
    using assms b moves_readBytes
    by (auto simp: readActive_def r' moves_refl split: sum.splits option.splits)
  ultimately show ?thesis using moves_length src.rd_less [OF r b] by fastforce
qed

lemma readMsg_progress:
  assumes "readMsg mode w = Some (Inr (m, False), w')"
  shows "length (pending (w_file w')) < length (pending (w_file w))"
proof (cases "activeRead mode")
  case True
  then show ?thesis using assms readActive_progress [of mode "counted mode w" m w'] by (simp add: readMsg_def Let_def)
next
  case False
  then obtain m' where "scanMsg mode [] (counted mode w) = Some (m', False, w')"
    using assms by (auto simp: readMsg_passive split: option.splits)
  from scanMsg_progress [OF this] show ?thesis by (simp add: Let_def last_n_def magic_def)
qed

text \<open>
  The part of the state that decides when reading ends, and the firmware file: processing a message
  leaves them alone.
\<close>

definition source :: "monitor \<Rightarrow> infile \<times> infile list \<times> (string \<times> bytes) option" where
  "source st = (w_file (m_world st), m_conns st, m_image st)"

text \<open>
  What a part of the state must satisfy to survive a message: whatever the world does, apart from the
  input, the firmware buffer, the layouts and the event; and the output of what the parser returns.
\<close>

locale monitor_invariant =
  fixes P :: "monitor \<Rightarrow> bool"
  assumes world: "(\<And>w. w_file (f w) = w_file w) \<Longrightarrow> P st \<Longrightarrow> P (onWorld f st)"
    and updates: "P st \<Longrightarrow> P (st\<lparr>m_update := u\<rparr>)"
    and layouts: "P st \<Longrightarrow> P (st\<lparr>m_classes := cs\<rparr>)"
    and events: "P st \<Longrightarrow> P (st\<lparr>m_event := True\<rparr>)"
    and written: "snd (parseData lt function data cs) = Inr d \<Longrightarrow> preserves P (writeData d)"
begin

lemma onWorld_ok: "(\<And>w. w_file (f w) = w_file w) \<Longrightarrow> preserves P (modify (onWorld f))"
  by (rule preserves_modify) (rule world)

lemma setVar_ok: "preserves P (setVar x b)"
  unfolding setVar_def by (rule onWorld_ok) simp

lemma now_ok: "preserves P now"
  using world [of "\<lambda>w. w\<lparr>w_ticks := Suc (w_ticks w)\<rparr>"] by (simp add: preserves_def now_def Let_def onWorld_def)

lemma storeData_ok:
  assumes "snd (parseData lt function data cs) = Inr d"
  shows "preserves P (storeData function data d)"
proof -
  have "preserves P (sbind (lift r) (\<lambda>buf. modify (\<lambda>st. st\<lparr>m_update := buf\<rparr>)))" for r
    by (intro preserves_sbind preserves_lift preserves_modify updates)
  then show ?thesis using written [OF assms] unfolding preserves_def storeData_def by simp
qed

lemma sendReply_ok: "preserves P (sendReply lt s f t fn)"
proof -
  have "preserves P (replyTo lt fn)"
    unfolding replyTo_def timeReply_def
    by (intro preserves_if preserves_ret preserves_sbind preserves_lift now_ok setVar_ok preserves_modify events)
  moreover have "preserves P (sbind (lift (formatMsg s t f rf rd)) (\<lambda>m. modify (onWorld (sendMsg m))))" for rf rd
    by (intro preserves_sbind preserves_lift onWorld_ok) (simp add: sendMsg_def)
  ultimately show ?thesis unfolding sendReply_def
    by (intro preserves_sbind) (auto split: option.split)
qed

lemma payload_ok:
  assumes "\<And>d cs. snd (parseData lt function data cs) = Inr d \<Longrightarrow> preserves P (k d)"
  shows "preserves P (sbind (parsePayload lt function data) k)"
  unfolding preserves_def
proof (intro allI impI)
  fix st
  assume st: "P st"
  obtain cs r where r: "parseData lt function data (m_classes st) = (cs, r)"
    by (cases "parseData lt function data (m_classes st)")
  then have "P (st\<lparr>m_classes := cs\<rparr>)" using layouts st by blast
  then show "P (snd (sbind (parsePayload lt function data) k st))"
    using assms [of "m_classes st"] r by (cases r) (simp_all add: sbind_def parsePayload_def preserves_def)
qed

lemma processMsg_ok: "preserves P (processMsg lt mode msg)"
  unfolding processMsg_def
proof (intro preserves_sbind preserves_lift)
  fix x :: "int \<times> int \<times> int \<times> int \<times> bytes"
  obtain msgSeq fromAddr toAddr fn data where x: "x = (msgSeq, fromAddr, toAddr, fn, data)" by (cases x)
  show "preserves P (case x of (msgSeq, fromAddr, toAddr, function, data) \<Rightarrow>
      if function = 0 then ret ()
      else sbind (parsePayload lt function data) (\<lambda>msgData. sbind (storeData function data msgData) (\<lambda>_.
        if networkDevice mode \<or> masterMode mode then sendReply lt msgSeq fromAddr toAddr function else ret ())))"
    unfolding x prod.case
    by (intro preserves_if preserves_ret payload_ok preserves_sbind sendReply_ok) (rule storeData_ok)
qed

lemma handleMsg_ok: "preserves P (handleMsg lt mode xerror msg)"
proof -
  have "preserves P (\<lambda>st. case processMsg lt mode msg st of
      (Inl e, st') \<Rightarrow> if xerror then (Inl e, st') else setVar ''threadLock'' False st'
    | (Inr _, st') \<Rightarrow> setVar ''threadLock'' False st')"
    unfolding preserves_def
    using preservesD [OF processMsg_ok] setVar_ok [unfolded preserves_def]
    by (auto split: prod.split sum.split)
  then show ?thesis unfolding handleMsg_def by (intro preserves_if preserves_ret preserves_sbind setVar_ok)
qed

end

text \<open>What does not depend on the input either survives the reading.\<close>

locale reading_invariant = monitor_invariant +
  assumes inputs: "P st \<Longrightarrow> P (st\<lparr>m_world := w\<rparr>)"
    and connections: "P st \<Longrightarrow> P (st\<lparr>m_conns := fs\<rparr>)"
begin

lemma readStep_ok:
  assumes "readStep lt mode xerror st = Some (r, st')" and "P st"
  shows "P st'"
proof (cases "readMsg mode (m_world st)")
  case (Some v)
  obtain x w where v: "v = (x, w)" by (cases v)
  show ?thesis
  proof (cases x)
    case (Inr y)
    obtain msg e where y: "y = (msg, e)" by (cases y)
    obtain st1 where s1: "(if e \<and> networkDevice mode then reconnect (st\<lparr>m_world := w\<rparr>) else Some (st\<lparr>m_world := w\<rparr>)) = Some st1"
      and h: "sbind (handleMsg lt mode xerror msg) (\<lambda>_. ret (e \<and> \<not> networkDevice mode)) st1 = (r, st')"
      using assms(1) Some v Inr y by (auto simp: readStep_def split: option.splits)
    have "P st1"
      using s1 assms(2) inputs connections by (auto simp: reconnect_def onWorld_def split: if_splits list.splits)
    then show ?thesis by (rule preservesD [OF preserves_sbind [OF handleMsg_ok preserves_ret] h])
  qed (use assms Some v inputs in \<open>auto simp: readStep_def\<close>)
qed (use assms in \<open>simp add: readStep_def\<close>)

end

text \<open>The source itself, and the firmware file.\<close>

lemma writeData_fields:
  "snd (writeData d st) = st\<lparr>m_out := m_out (snd (writeData d st)), m_outSeq := m_outSeq (snd (writeData d st))\<rparr>"
  by (cases "m_out st"; cases "dumps d") (simp_all add: writeData_def)

lemma writeData_preserves: "(\<And>st x n. P st \<Longrightarrow> P (st\<lparr>m_out := x, m_outSeq := n\<rparr>)) \<Longrightarrow> preserves P (writeData d)"
  unfolding preserves_def by (subst writeData_fields) blast

interpretation src_kept: monitor_invariant "\<lambda>st. source st = x" for x
  by unfold_locales (auto simp: source_def onWorld_def intro!: writeData_preserves)

interpretation image_kept: reading_invariant "\<lambda>st. m_image st = x" for x
  by unfold_locales (auto simp: onWorld_def intro!: writeData_preserves)

lemma readStep_progress:
  assumes "readStep lt mode xerror st = Some (Inr eof, st')"
  shows "length (m_conns st') < length (m_conns st) \<or> m_conns st' = m_conns st \<and>
    (eof \<or> length (pending (w_file (m_world st'))) < length (pending (w_file (m_world st))))"
proof -
  obtain msg e w where r: "readMsg mode (m_world st) = Some (Inr (msg, e), w)"
    using assms by (auto simp: readStep_def split: option.splits sum.splits)
  obtain st1 where s1: "(if e \<and> networkDevice mode then reconnect (st\<lparr>m_world := w\<rparr>) else Some (st\<lparr>m_world := w\<rparr>)) = Some st1"
    and h: "sbind (handleMsg lt mode xerror msg) (\<lambda>_. ret (e \<and> \<not> networkDevice mode)) st1 = (Inr eof, st')"
    using assms by (auto simp: readStep_def r split: option.splits)
  have k: "source st' = source st1"
    using h preservesD [OF src_kept.handleMsg_ok [of "source st1"]] by (auto simp: eff_simps)
  have eof: "eof = (e \<and> \<not> networkDevice mode)" using h by (auto simp: eff_simps)
  show ?thesis
  proof (cases "e \<and> networkDevice mode")
    case True
    then show ?thesis using s1 k by (auto simp: reconnect_def source_def onWorld_def split: list.splits)
  next
    case False
    then have "st1 = st\<lparr>m_world := w\<rparr>" using s1 by (auto split: if_splits)
    then show ?thesis using k eof False readMsg_progress r by (cases e) (auto simp: source_def)
  qed
qed

function readLoop :: "clock \<Rightarrow> run_mode \<Rightarrow> bool \<Rightarrow> bool \<Rightarrow> monitor \<Rightarrow> (unit res \<times> monitor) option" where
  "readLoop lt mode xerror eof st =
     (if eof then Some (Inr (), st)
      else (case readStep lt mode xerror st of
          None \<Rightarrow> None
        | Some (Inl e, st') \<Rightarrow> Some (Inl e, st')
        | Some (Inr eof', st') \<Rightarrow> readLoop lt mode xerror eof' st'))"
  by pat_completeness auto
termination
  by (relation "measures [\<lambda>(lt, mode, xerror, eof, st). length (m_conns st),
        \<lambda>(lt, mode, xerror, eof, st). if eof then 0 else Suc (length (pending (w_file (m_world st))))]")
    (auto dest!: readStep_progress)

declare readLoop.simps [simp del]

subsection \<open>The firmware file\<close>

text \<open>
  The firmware buffer is a list of the integers that iterating over bytes yields, and
  \<^verbatim>\<open>b"".join\<close> wants byte strings.  The argument parser opens the file itself, so that the
  "name" the function gets is a file object, which \<^verbatim>\<open>open\<close> rejects.
\<close>

datatype pathArg = PathName string | FileObject

definition join_bytes :: "pyval list \<Rightarrow> bytes res" where
  "join_bytes vs = rbind (rmap bytes_of vs) (\<lambda>bss. Inr (concat bss))"

fun open_write :: "pathArg \<Rightarrow> string res" where
  "open_write (PathName name) = Inr name"
| "open_write FileObject = Inl TypeError"

definition writeUpdate :: "pathArg \<Rightarrow> unit mon" where
  "writeUpdate updateFileName st =
     sbind (lift (join_bytes (map (\<lambda>b. PInt (uint b)) (m_update st)))) (\<lambda>image.
     sbind (lift (open_write updateFileName)) (\<lambda>name.
       modify (\<lambda>st. st\<lparr>m_image := Some (name, image)\<rparr>))) st"

definition readData :: "clock \<Rightarrow> run_mode \<Rightarrow> bool \<Rightarrow> pathArg option \<Rightarrow> monitor \<Rightarrow> (unit res \<times> monitor) option" where
  "readData lt mode xerror updatefile st =
     (let st0 = st\<lparr>m_update := (if updatefile = None then [] else replicate UPDATE_SIZE 0)\<rparr>;
          finish = (\<lambda>r. case r of
              Some (Inr _, st') \<Rightarrow> Some (case updatefile of None \<Rightarrow> (Inr (), st') | Some f \<Rightarrow> writeUpdate f st')
            | _ \<Rightarrow> r)
      in if passiveMode mode
         then (case readMsg mode (m_world st0) of
                 None \<Rightarrow> None
               | Some (Inl e, w) \<Rightarrow> Some (Inl e, st0\<lparr>m_world := w\<rparr>)
               | Some (Inr (msg, eof), w) \<Rightarrow> finish (readLoop lt mode xerror eof (st0\<lparr>m_world := w\<rparr>)))
         else finish (readLoop lt mode xerror False st0))"

context reading_invariant begin

lemma readLoop_ok: "readLoop lt mode xerror eof st = Some (r, st') \<Longrightarrow> P st \<Longrightarrow> P st'"
proof (induction lt mode xerror eof st rule: readLoop.induct)
  case (1 lt mode xerror eof st)
  show ?case
  proof (cases eof)
    case True
    then show ?thesis using 1(2,3) by (subst (asm) readLoop.simps) simp
  next
    case False
    then obtain x st1 where s: "readStep lt mode xerror st = Some (x, st1)"
      using 1(2) by (subst (asm) readLoop.simps) (auto split: option.splits)
    note st1 = readStep_ok [OF s 1(3)]
    show ?thesis
    proof (cases x)
      case (Inl e)
      then show ?thesis using 1(2) False s st1 by (subst (asm) readLoop.simps) simp
    next
      case (Inr eof')
      then have "readLoop lt mode xerror eof' st1 = Some (r, st')"
        using 1(2) False s by (subst (asm) readLoop.simps) simp
      then show ?thesis using 1(1) [OF False s refl] Inr st1 by simp
    qed
  qed
qed

end

text \<open>What does not depend on the firmware file either survives the whole of \<open>readData\<close>.\<close>

locale run_invariant = reading_invariant +
  assumes images: "P st \<Longrightarrow> P (st\<lparr>m_image := i\<rparr>)"
begin

lemma writeUpdate_ok: "preserves P (writeUpdate f)"
proof -
  have "preserves P (\<lambda>st. sbind (lift x) (\<lambda>image. sbind (lift y) (\<lambda>name. modify (\<lambda>st. st\<lparr>m_image := Some (name, image)\<rparr>))) st)" for x :: "bytes res" and y :: "string res"
    by (intro preserves_sbind preserves_lift preserves_modify images)
  then show ?thesis unfolding preserves_def writeUpdate_def by blast
qed

lemma readData_ok:
  assumes "readData lt mode xerror updatefile st = Some (r, st')" and "P st"
  shows "P st'"
proof -
  define st0 where "st0 = st\<lparr>m_update := (if updatefile = None then [] else replicate UPDATE_SIZE 0)\<rparr>"
  have st0: "P st0" using assms(2) updates by (simp add: st0_def)
  define finish where "finish = (\<lambda>r. case r of
      Some (Inr (_ :: unit), st') \<Rightarrow> Some (case updatefile of None \<Rightarrow> (Inr (), st') | Some f \<Rightarrow> writeUpdate f st')
    | _ \<Rightarrow> r)"
  have fin: "P st'" if q: "finish q = Some (r, st')" "\<And>r t. q = Some (r, t) \<Longrightarrow> P t" for q
  proof (cases q)
    case (Some v)
    obtain r1 t where v: "v = (r1, t)" by (cases v)
    have "P t" using q(2) Some v by simp
    then show ?thesis
      using q(1) Some v preservesD [OF writeUpdate_ok] by (cases r1; cases updatefile) (auto simp: finish_def)
  qed (use q in \<open>simp add: finish_def\<close>)
  have run: "readData lt mode xerror updatefile st =
    (if passiveMode mode
     then (case readMsg mode (m_world st0) of
             None \<Rightarrow> None
           | Some (Inl e, w) \<Rightarrow> Some (Inl e, st0\<lparr>m_world := w\<rparr>)
           | Some (Inr (msg, eof), w) \<Rightarrow> finish (readLoop lt mode xerror eof (st0\<lparr>m_world := w\<rparr>)))
     else finish (readLoop lt mode xerror False st0))"
    by (simp only: readData_def Let_def finish_def st0_def)
  show ?thesis
  proof (cases "passiveMode mode")
    case False
    then have "finish (readLoop lt mode xerror False st0) = Some (r, st')" using assms(1) run by simp
    then show ?thesis by (rule fin) (erule readLoop_ok [OF _ st0])
  next
    case True
    then obtain x w where m: "readMsg mode (m_world st0) = Some (x, w)" using assms(1) run by (auto split: option.splits)
    show ?thesis
    proof (cases x)
      case (Inl e)
      then show ?thesis using assms(1) run True m inputs [OF st0] by auto
    next
      case (Inr y)
      obtain msg eof where y: "y = (msg, eof)" by (cases y)
      then have "finish (readLoop lt mode xerror eof (st0\<lparr>m_world := w\<rparr>)) = Some (r, st')"
        using assms(1) run True m Inr by simp
      then show ?thesis by (rule fin) (erule readLoop_ok [OF _ inputs [OF st0]])
    qed
  qed
qed

end

subsection \<open>Sequence numbers\<close>

text \<open>
  The last number used is kept in a file; a missing file is the only error that is caught.  The
  result is the number, or the exception, and the file afterwards.
\<close>

definition rstrip_nl :: "string \<Rightarrow> string" where
  "rstrip_nl s = rev (dropWhile (\<lambda>c. c = CHR 0x0A) (rev s))"

definition seqNext :: "string option \<Rightarrow> int res \<times> string option" where
  "seqNext file =
     (let r = (case file of
                 None \<Rightarrow> Inr 1
               | Some txt \<Rightarrow> rbind (py_int 10 (rstrip_nl txt)) (\<lambda>n. Inr (if n + 1 > 65535 then 1 else n + 1)))
      in case r of Inl e \<Rightarrow> (Inl e, file) | Inr seq \<Rightarrow> (Inr seq, Some (int_str seq @ [CHR 0x0A])))"

definition nextSeq :: "int mon" where
  "nextSeq st = (case seqNext (m_seqFile st) of (r, file) \<Rightarrow> (r, st\<lparr>m_seqFile := file\<rparr>))"

subsection \<open>Granting the bus and sending commands\<close>

text \<open>The part of \<^verbatim>\<open>masterGrant\<close> that runs with the lock held.\<close>

definition sendGrant :: "string \<Rightarrow> unit mon" where
  "sendGrant slaveAddr =
     sbind (setVar ''threadLock'' True) (\<lambda>_.
     sbind nextSeq (\<lambda>seq. sbind (lift (py_int 16 slaveAddr)) (\<lambda>slave.
     sbind (lift (formatMsg seq MASTER_ADDR slave PROT_CMD_POLESTAR_MASTER_GRANT [])) (\<lambda>m.
     sbind (modify (onWorld (sendMsg m))) (\<lambda>_. setVar ''threadLock'' False)))))"

end
