(* ===== verification/MonitorProps.thy ===== *)
theory MonitorProps
  imports Monitor
begin

text \<open>
  What the monitor does with a stream of messages: a file is digested frame by frame, messages from
  an inverter are acknowledged once they are stored, the time reply, and the sequence numbers.
\<close>

subsection \<open>Sequence numbers\<close>

text \<open>The results of a number of calls, one after the other.\<close>

fun callSeq :: "nat \<Rightarrow> string option \<Rightarrow> int res list" where
  "callSeq 0 file = []"
| "callSeq (Suc n) file = (case seqNext file of (r, file') \<Rightarrow> r # callSeq n file')"

lemma rstrip_nl_dec_str: "rstrip_nl (dec_str n @ [CHR 0x0A]) = dec_str n"
proof -
  obtain d ds where r: "rev (dec_str n) = d # ds" by (cases "rev (dec_str n)") (auto simp: dec_str_def)
  have "d \<in> set (dec_str n)" using r by (metis list.set_intros(1) set_rev)
  moreover have "digit_in 10 (CHR 0x0A) = None" by (simp add: digit_in_def hexval_def)
  ultimately have "d \<noteq> CHR 0x0A" using dec_str_plain [of n] by (auto simp: plain_digits_def list_all_iff)
  then have "dropWhile (\<lambda>c. c = CHR 0x0A) (rev (dec_str n)) = rev (dec_str n)" by (simp add: r)
  then show ?thesis by (simp add: rstrip_nl_def)
qed

lemma seqNext_file:
  "seqNext (Some (dec_str n @ [CHR 0x0A])) =
     (let k = (if 65535 \<le> n then 1 else Suc n) in (Inr (int k), Some (dec_str k @ [CHR 0x0A])))"
  by (simp add: seqNext_def rstrip_nl_dec_str Let_def int_str_def nat_add_distrib)

lemma seqNext_new: "seqNext None = (Inr 1, Some (dec_str 1 @ [CHR 0x0A]))"
  by (simp add: seqNext_def Let_def int_str_def)

lemma callSeq_file: "callSeq n (Some (dec_str (Suc (k mod 65535)) @ [CHR 0x0A])) =
    map (\<lambda>i. Inr (int (i mod 65535) + 1)) [Suc k..<Suc k + n]"
proof (induction n arbitrary: k)
  case (Suc n)
  have m: "Suc k mod 65535 = (if k mod 65535 = 65534 then 0 else Suc (k mod 65535))"
    by (simp add: mod_Suc)
  have "(if 65535 \<le> Suc j then 1 else Suc (Suc j)) = Suc (if j = 65534 then 0 else Suc j)" if "j < 65535" for j :: nat
    using that by auto
  from this [of "k mod 65535"]
  have "(if 65535 \<le> Suc (k mod 65535) then 1 else Suc (Suc (k mod 65535))) = Suc (Suc k mod 65535)"
    by (simp only: m mod_less_divisor zero_less_numeral)
  then have "seqNext (Some (dec_str (Suc (k mod 65535)) @ [CHR 0x0A])) =
      (Inr (int (Suc k mod 65535) + 1), Some (dec_str (Suc (Suc k mod 65535)) @ [CHR 0x0A]))"
    by (simp add: seqNext_file Let_def)
  then show ?case using Suc [of "Suc k"] by (simp add: upt_rec del: upt_Suc)
qed simp

text \<open>
  C19.  Starting without a sequence file the calls of \<open>nextSeq\<close> return 1, 2, 3 and so on up to 65535
  and then start again at 1: every number fits the 16-bit field of the message header and is never 0,
  and the file always holds what the next call needs.
\<close>

theorem nextSeq_cycles: "callSeq n None = map (\<lambda>i. Inr (int (i mod 65535) + 1)) [0..<n]"
proof (cases n)
  case (Suc m)
  then show ?thesis
    using callSeq_file [of m 0] by (simp add: seqNext_new upt_conv_Cons del: upt_Suc)
qed simp

subsection \<open>Reading a file\<close>

text \<open>What reading only does with one message: messages of zeros only are skipped.\<close>

definition digest :: "clock \<Rightarrow> run_mode \<Rightarrow> bytes \<Rightarrow> monitor \<Rightarrow> monitor" where
  "digest lt mode msg st = (if msg = replicate (length msg) 0 then st else snd (processMsg lt mode msg st))"

abbreviation setWorld :: "world \<Rightarrow> monitor \<Rightarrow> monitor" where
  "setWorld w st \<equiv> st\<lparr>m_world := w\<rparr>"

lemma blind_writeData [intro]: "blind setWorld (writeData d)"
  unfolding blind_def writeData_def by (auto simp: sbind_def split: option.split prod.split sum.split)

lemma blind_storeData [intro]: "blind setWorld (storeData function data d)"
  using blindD [OF blind_writeData]
  unfolding blind_def storeData_def by (auto simp: sbind_def split: prod.split sum.split)

lemma blind_parsePayload [intro]: "blind setWorld (parsePayload lt function data)"
  by (simp add: blind_def parsePayload_def split: prod.split)

lemma blind_processMsg:
  assumes "\<not> networkDevice mode" "\<not> masterMode mode"
  shows "blind setWorld (processMsg lt mode msg)"
  unfolding processMsg_def using assms
  by (intro blind_sbind blind_lift) (auto split: prod.split)

text \<open>
  What only listening does to the world: \<open>n\<close> messages are counted, \<open>bs\<close> is taken from the source and
  recorded, and nothing is sent.
\<close>

definition heard :: "nat \<Rightarrow> bytes \<Rightarrow> world \<Rightarrow> world \<Rightarrow> bool" where
  "heard n bs w w' \<longleftrightarrow> pending (w_file w) = bs @ pending (w_file w') \<and> w_rec w' = map_option (\<lambda>r. r @ bs) (w_rec w) \<and>
     w_sent w' = w_sent w \<and> dataInSeq w' = dataInSeq w + n \<and> dataOutSeq w' = dataOutSeq w"

lemma heard_refl [simp]: "heard 0 [] w w"
  by (simp add: heard_def option.map_ident)

lemma heard_setState [simp]: "heard n bs w (setState x v w') \<longleftrightarrow> heard n bs w w'"
  by (simp add: heard_def)

lemma heard_trans: "heard m as u v \<Longrightarrow> heard n bs v w \<Longrightarrow> heard (m + n) (as @ bs) u w"
  by (simp add: heard_def option.map_comp comp_def)

lemma noteBytes_keeps:
  "noteBytes b w = (b', w') \<Longrightarrow> w_sent w' = w_sent w \<and> dataInSeq w' = dataInSeq w \<and> dataOutSeq w' = dataOutSeq w"
  by (auto simp: noteBytes_def Let_def split: if_splits)

lemma readBytes_heard:
  assumes "readBytes mode n w = Some (b, w')"
  shows "heard 0 b w w'"
proof -
  have "w_sent w' = w_sent w \<and> dataInSeq w' = dataInSeq w \<and> dataOutSeq w' = dataOutSeq w"
    using assms by (auto simp: readBytes_def Let_def dest!: noteBytes_keeps split: sum.splits prod.splits if_splits option.splits)
  then show ?thesis using readBytes_spec [OF assms] by (simp add: heard_def)
qed

lemma scanMsg_heard: "scanMsg mode acc w = Some (m, eof, w') \<Longrightarrow> \<exists>bs. heard 0 bs w w'"
proof (induction mode acc w rule: scanMsg.induct)
  case (1 mode acc w)
  show ?case
  proof (cases "last_n magicLen acc = magic")
    case True
    then have "w' = w" using 1(2) by (subst (asm) scanMsg.simps) simp
    then show ?thesis using heard_refl by blast
  next
    case False
    then obtain b w1 where r: "readBytes mode 1 w = Some (b, w1)"
      using 1(2) by (subst (asm) scanMsg.simps) (auto split: option.splits)
    show ?thesis
    proof (cases "b = []")
      case True
      then have "w' = w1" using 1(2) False r by (subst (asm) scanMsg.simps) simp
      then show ?thesis using readBytes_heard [OF r] by blast
    next
      case more: False
      then have "scanMsg mode (acc @ b) w1 = Some (m, eof, w')" using 1(2) False r by (subst (asm) scanMsg.simps) simp
      then obtain bs where "heard 0 bs w1 w'" using 1(1) [OF False r refl more] by blast
      from heard_trans [OF readBytes_heard [OF r] this] show ?thesis by auto
    qed
  qed
qed

lemma readMsg_heard:
  assumes "readMsg mode w = Some (Inr (m, eof), w')" and "\<not> activeRead mode"
  shows "\<exists>bs. heard 1 bs w w'"
proof -
  obtain m' where "scanMsg mode [] (counted mode w) = Some (m', eof, w')"
    using assms by (auto simp: readMsg_passive split: option.splits)
  then obtain bs where "heard 0 bs (counted mode w) w'" using scanMsg_heard by blast
  then show ?thesis by (auto simp: heard_def Let_def)
qed

lemma handleMsg_digest:
  assumes "\<not> networkDevice mode" "\<not> masterMode mode"
  shows "\<exists>w'. handleMsg lt mode False msg (setWorld w st) = (Inr (), setWorld w' (digest lt mode msg st)) \<and>
    w_file w' = w_file w \<and> heard 0 [] w w'"
proof (cases "msg = replicate (length msg) 0")
  case True
  then have "handleMsg lt mode False msg (setWorld w st) = (Inr (), setWorld w st)" by (simp add: handleMsg_def)
  then show ?thesis using True by (auto simp: digest_def intro!: exI [of _ w])
next
  case False
  let ?w = "setState ''threadLock'' (PBool True) w"
  have "processMsg lt mode msg (setWorld ?w st) = (fst (processMsg lt mode msg st), setWorld ?w (digest lt mode msg st))"
    using blindD [OF blind_processMsg [OF assms]] False by (simp add: digest_def)
  then have "handleMsg lt mode False msg (setWorld w st) =
      (Inr (), setWorld (setState ''threadLock'' (PBool False) ?w) (digest lt mode msg st))"
    using False by (auto simp: handleMsg_def setVar_def onWorld_def split: sum.split)
  then show ?thesis by (intro exI [of _ "setState ''threadLock'' (PBool False) ?w"]) simp
qed

lemma readLoop_frames:
  assumes mode: "\<not> networkDevice mode" "\<not> masterMode mode" "\<not> activeRead mode"
    and "ends mode (w_file w)" and "frames (pending (w_file w)) = fs"
  shows "\<exists>w' bs. readLoop lt mode False False (setWorld w st) = Some (Inr (), setWorld w' (fold (digest lt mode) fs st)) \<and>
    heard (length fs) bs w w' \<and> pending (w_file w') = []"
  using assms(4,5)
proof (induction fs arbitrary: w st)
  case Nil
  then show ?case by (simp add: frames_def)
next
  case (Cons f fs)
  obtain w1 where r: "readMsg mode w = Some (Inr (f, fs = []), w1)"
    and w1: "if fs = [] then pending (w_file w1) = [] else frames (pending (w_file w1)) = fs \<and> ends mode (w_file w1)"
    using readMsg_ends [OF mode(3) Cons.prems(1)] Cons.prems(2) by auto
  obtain w2 where h: "handleMsg lt mode False f (setWorld w1 st) = (Inr (), setWorld w2 (digest lt mode f st))"
    and w2: "w_file w2 = w_file w1" "heard 0 [] w1 w2"
    using handleMsg_digest [OF mode(1,2)] by blast
  obtain bs where "heard 1 bs w w1" using readMsg_heard [OF r mode(3)] by blast
  from heard_trans [OF this w2(2)] have one: "heard 1 bs w w2" by simp
  have s: "readStep lt mode False (setWorld w st) = Some (Inr (fs = []), setWorld w2 (digest lt mode f st))"
    using r h mode(1) by (simp add: readStep_def sbind_Inr)
  show ?case
  proof (cases "fs = []")
    case True
    then show ?thesis using s one w1 w2(1)
      by (intro exI [of _ w2] exI [of _ bs]) (simp add: readLoop.simps)
  next
    case False
    then have "ends mode (w_file w2)" "frames (pending (w_file w2)) = fs" using w1 w2(1) by simp_all
    from Cons.IH [OF this, of "digest lt mode f st"] obtain w' bs' where
        run: "readLoop lt mode False False (setWorld w2 (digest lt mode f st)) = Some (Inr (), setWorld w' (fold (digest lt mode) fs (digest lt mode f st)))"
        and rest: "heard (length fs) bs' w2 w'" "pending (w_file w') = []" by blast
    have "heard (length (f # fs)) (bs @ bs') w w'" using heard_trans [OF one rest(1)] by simp
    with run rest(2) False show ?thesis by (subst readLoop.simps) (auto simp: s)
  qed
qed

lemma readData_frames:
  assumes "\<not> networkDevice mode" "\<not> masterMode mode" "passiveMode mode"
    and "ends mode (w_file (m_world st))"
  shows "\<exists>w bs. readData lt mode False None st =
      Some (Inr (), setWorld w (fold (digest lt mode) (tl (frames (pending (w_file (m_world st))))) (st\<lparr>m_update := []\<rparr>))) \<and>
    heard (length (frames (pending (w_file (m_world st))))) bs (m_world st) w \<and> pending (w_file w) = []"
proof -
  let ?st = "st\<lparr>m_update := []\<rparr>"
  have act: "\<not> activeRead mode" using assms(3) by (simp add: activeRead_def)
  obtain f fs where fs: "frames (pending (w_file (m_world st))) = f # fs"
    by (cases "frames (pending (w_file (m_world st)))") (auto simp: frames_def)
  obtain w1 where r: "readMsg mode (m_world st) = Some (Inr (f, fs = []), w1)"
    and w1: "if fs = [] then pending (w_file w1) = [] else frames (pending (w_file w1)) = fs \<and> ends mode (w_file w1)"
    using readMsg_ends [OF act assms(4)] fs by auto
  obtain bs where one: "heard 1 bs (m_world st) w1" using readMsg_heard [OF r act] by blast
  have "\<exists>w bs. readLoop lt mode False (fs = []) (setWorld w1 ?st) = Some (Inr (), setWorld w (fold (digest lt mode) fs ?st)) \<and>
      heard (length fs) bs w1 w \<and> pending (w_file w) = []"
  proof (cases "fs = []")
    case True
    then show ?thesis using w1 heard_refl [of w1] by (intro exI [of _ w1] exI [of _ "[]"]) (simp add: readLoop.simps)
  next
    case False
    then show ?thesis using readLoop_frames [OF assms(1,2) act, of w1 fs] w1 by simp
  qed
  then obtain w bs' where w: "readLoop lt mode False (fs = []) (setWorld w1 ?st) = Some (Inr (), setWorld w (fold (digest lt mode) fs ?st))"
      "heard (length fs) bs' w1 w" "pending (w_file w) = []" by blast
  from heard_trans [OF one w(2)] w(1,3) assms(3) r fs show ?thesis
    by (intro exI [of _ w] exI [of _ "bs @ bs'"]) (simp add: readData_def Let_def)
qed

text \<open>
  C1.  Reading a file (or any source that is only listened to, in passive mode) to its end, without
  \<^verbatim>\<open>-x\<close> and \<^verbatim>\<open>-u\<close>, always returns, and it does exactly what the messages say.  The state of the parser
  and the output are those that processing the frames of the source one after the other gives, the
  first frame left out because it may begin in the middle of a message.  Nothing is sent, all bytes of
  the source are consumed and appended to the record file, and every frame is counted once; only the
  state variables and the number of clock readings are not determined here.
\<close>

theorem readData_file:
  assumes "\<not> networkDevice mode" "\<not> masterMode mode" "passiveMode mode"
    and "ends mode (w_file (m_world st))"
  shows "\<exists>w. readData lt mode False None st =
      Some (Inr (), setWorld w (fold (digest lt mode) (tl (frames (pending (w_file (m_world st))))) (st\<lparr>m_update := []\<rparr>))) \<and>
    w_sent w = w_sent (m_world st) \<and> dataOutSeq w = dataOutSeq (m_world st) \<and>
    pending (w_file w) = [] \<and>
    w_rec w = map_option (\<lambda>r. r @ pending (w_file (m_world st))) (w_rec (m_world st)) \<and>
    dataInSeq w = dataInSeq (m_world st) + length (frames (pending (w_file (m_world st))))"
  using readData_frames [OF assms, of lt] by (auto simp: heard_def)

subsection \<open>Acknowledgements\<close>

lemma parse_formatted:
  assumes "formatMsg msgSeq fromAddr toAddr function data = Inr m"
  shows "parseMsg m = Inr (msgSeq, fromAddr, toAddr, function, data)" and "hdr_ok msgSeq fromAddr toAddr function"
  using formatMsg_Inr [OF assms] parseMsg_wire [of msgSeq fromAddr toAddr "function" data "[]"] by simp_all

lemma formatMsg_reply:
  assumes "hdr_ok msgSeq fromAddr toAddr function" and "in_range CH f" and "length d < 2 ^ 16"
  shows "\<exists>r. formatMsg msgSeq toAddr fromAddr f d = Inr r"
  using assms formatMsg_ok [of msgSeq toAddr fromAddr f d] by (simp add: hdr_ok_def)

definition sentBytes :: "monitor \<Rightarrow> bytes" where
  "sentBytes st = w_sent (m_world st)"

text \<open>
  C10.  A performance data message is stored before it is acknowledged.  If parsing or writing raises,
  nothing is sent and the output file is as before.  Otherwise the line of JSON of the parsed data has
  been appended to the output file (if there is one), except that an empty message stores nothing; and
  on a network or as master of the bus the acknowledgement with the same sequence number, from the
  addressee to the sender, has been sent, while in the other modes nothing is sent.  So in these two
  modes a message that is not empty is acknowledged exactly when it has been stored.
\<close>

theorem performance_data_acknowledged:
  assumes "formatMsg msgSeq fromAddr toAddr PROT_CMD_SERVER_POST_DATA data = Inr m"
  shows "case processMsg lt mode m st of
      (Inl e, st') \<Rightarrow> sentBytes st' = sentBytes st \<and> m_out st' = m_out st
    | (Inr _, st') \<Rightarrow>
        (if networkDevice mode \<or> masterMode mode
         then \<exists>ack. formatMsg msgSeq toAddr fromAddr PROT_RESP_ACK [] = Inr ack \<and> sentBytes st' = sentBytes st @ magic @ ack
         else sentBytes st' = sentBytes st) \<and>
        (if data = [] then m_out st' = m_out st
         else \<exists>d. snd (parseData lt PROT_CMD_SERVER_POST_DATA data (m_classes st)) = Inr d \<and>
           (case m_out st of None \<Rightarrow> m_out st' = None
            | Some out \<Rightarrow> \<exists>line. dumps d = Inr line \<and> m_out st' = Some (out @ latin1 line @ [0x0A])))"
proof -
  note p = parse_formatted [OF assms(1)]
  have "in_range CH PROT_RESP_ACK" by (simp add: in_range_def PROT_RESP_ACK_def)
  from formatMsg_reply [OF p(2) this, of "[]"] obtain ack where ack: "formatMsg msgSeq toAddr fromAddr PROT_RESP_ACK [] = Inr ack"
    by auto
  have nz: "PROT_CMD_SERVER_POST_DATA \<noteq> 0" "PROT_CMD_SERVER_POST_DATA \<noteq> PROT_CMD_UPGRADE_WRITE"
    by (simp_all add: PROT_CMD_SERVER_POST_DATA_def PROT_CMD_UPGRADE_WRITE_def)
  obtain cs r where r: "parseData lt PROT_CMD_SERVER_POST_DATA data (m_classes st) = (cs, r)"
    by (cases "parseData lt PROT_CMD_SERVER_POST_DATA data (m_classes st)")
  have store: "storeData PROT_CMD_SERVER_POST_DATA data d = (if data = [] then ret () else writeData d)" for d
    using nz by (simp add: storeData_def fun_eq_iff)
  have reply: "sendReply lt msgSeq fromAddr toAddr PROT_CMD_SERVER_POST_DATA = modify (onWorld (sendMsg ack))"
    by (simp add: sendReply_def replyTo_def ack fun_eq_iff)
  have payload: "sbind (parsePayload lt PROT_CMD_SERVER_POST_DATA data) k st = sbind (lift r) k (st\<lparr>m_classes := cs\<rparr>)" for k
    by (simp add: sbind_def parsePayload_def r)
  have run: "processMsg lt mode m st =
      sbind (lift r) (\<lambda>d. sbind (if data = [] then ret () else writeData d) (\<lambda>_.
        if networkDevice mode \<or> masterMode mode then modify (onWorld (sendMsg ack)) else ret ())) (st\<lparr>m_classes := cs\<rparr>)"
    using nz by (simp add: processMsg_def p store reply payload)
  have sent: "sentBytes (onWorld (sendMsg ack) s) = sentBytes s @ magic @ ack" "m_out (onWorld (sendMsg ack) s) = m_out s" for s
    by (simp_all add: sentBytes_def onWorld_def sendMsg_def)
  show ?thesis
  proof (cases r)
    case (Inl e)
    then show ?thesis by (simp add: run sentBytes_def)
  next
    case (Inr d)
    have same: "sentBytes (st\<lparr>m_classes := cs\<rparr>) = sentBytes st" "sentBytes (s\<lparr>m_out := x, m_outSeq := n\<rparr>) = sentBytes s" for s x n
      by (simp_all add: sentBytes_def)
    show ?thesis
    proof (cases "data = []")
      case True
      then show ?thesis by (simp add: run r Inr ack sent same)
    next
      case False
      then show ?thesis
        by (cases "dumps d"; cases "m_out st")
          (simp_all add: run r Inr writeData_def sbind_def ack sent same, simp_all add: sentBytes_def)
    qed
  qed
qed

subsection \<open>The time reply\<close>

text \<open>
  C20.  On a machine whose local time is UTC plus \<open>z\<close> hours, the reply to a time request carries the
  offset of \<open>z\<close> hours only while the local and the UTC date agree; otherwise the difference of the
  hours that the code sends is wrong by a whole day.
\<close>

theorem time_reply_offset:
  assumes "\<And>t. \<exists>tm. lt t = Inr tm \<and> int (tm_hour tm) = (t div 3600 + z) mod 24"
    and "\<And>n. w_clock (m_world st) n = rat_of_int t" and "0 \<le> t"
  shows "fst (replyTo lt PROT_CMD_SERVER_GET_GMT st) =
    rbind (formatTime t (3600 * (z - 24 * ((t div 3600 mod 24 + z) div 24))))
      (\<lambda>d. Inr (Some (PROT_RESP_SERVER_GMT, d)))"
proof -
  obtain tm where tm: "lt t = Inr tm" "int (tm_hour tm) = (t div 3600 + z) mod 24" using assms(1) by blast
  let ?h = "t div 3600 mod 24"
  have "(t div 3600 + z) mod 24 = (?h + z) mod 24" by (simp add: mod_add_left_eq)
  also have "\<dots> = ?h + z - 24 * ((?h + z) div 24)" by (rule minus_mult_div_eq_mod [symmetric])
  finally have "int (tm_hour tm) = ?h + z - 24 * ((?h + z) div 24)" by (simp only: tm(2))
  then have "(int (tm_hour tm) - ?h) * 60 * 60 = 3600 * (z - 24 * ((?h + z) div 24))"
    by (simp only: algebra_simps)
  moreover define tick where "tick s = s\<lparr>m_world := (m_world s)\<lparr>w_ticks := Suc (w_ticks (m_world s))\<rparr>\<rparr>" for s :: monitor
  define still where "still s \<longleftrightarrow> w_clock (m_world s) = (\<lambda>n. rat_of_int t)" for s :: monitor
  have now: "sbind now k s = k t (tick s)" if "still s" for k :: "int \<Rightarrow> bytes mon" and s
    using that assms(3) by (simp add: sbind_def now_def tick_def still_def Let_def)
  have still: "still (tick s)" if "still s" for s using that by (simp add: still_def tick_def)
  have "still st" using assms(2) by (simp add: still_def fun_eq_iff)
  with still have "timeReply lt st = (formatTime t ((int (tm_hour tm) - ?h) * 60 * 60), tick (tick (tick st)))"
    unfolding timeReply_def by (simp only: now tm(1) sbind_lift_Inr lift_run)
  ultimately have "timeReply lt st = (formatTime t (3600 * (z - 24 * ((?h + z) div 24))), tick (tick (tick st)))" by simp
  moreover have "replyTo lt PROT_CMD_SERVER_GET_GMT = sbind (timeReply lt) (\<lambda>d. ret (Some (PROT_RESP_SERVER_GMT, d)))"
    by (simp add: replyTo_def PROT_CMD_SERVER_GET_GMT_def PROT_CMD_SERVER_POST_DATA_def)
  ultimately show ?thesis by (simp add: sbind_def split: sum.split)
qed

subsection \<open>The firmware file\<close>

lemma join_bytes_ints: "xs \<noteq> [] \<Longrightarrow> join_bytes (map (\<lambda>b. PInt (f b)) xs) = Inl TypeError"
  by (cases xs) (simp_all add: join_bytes_def)

lemma writeUpdate_fails: "writeUpdate FileObject st = (Inl TypeError, st)"
proof (cases "m_update st = []")
  case True
  then show ?thesis by (simp add: writeUpdate_def join_bytes_def)
next
  case False
  then show ?thesis by (simp add: writeUpdate_def join_bytes_ints)
qed

text \<open>
  C21.  The firmware file is never written: with the file object that the argument parser passes for
  \<^verbatim>\<open>-u\<close>, reading ends with an exception whenever it ends, and no image has been stored.
\<close>

theorem firmware_never_written:
  "case readData lt mode xerror (Some FileObject) st of
     None \<Rightarrow> True
   | Some (r, st') \<Rightarrow> (\<exists>e. r = Inl e) \<and> m_image st' = m_image st"
proof -
  let ?st = "st\<lparr>m_update := replicate UPDATE_SIZE 0\<rparr>"
  have fin: "case (case x of Some (Inr u, st') \<Rightarrow> Some (writeUpdate FileObject st') | _ \<Rightarrow> x) of
      None \<Rightarrow> True | Some (r, st') \<Rightarrow> (\<exists>e. r = Inl e) \<and> m_image st' = m_image st"
    if x: "x = readLoop lt mode xerror eof st0" and i: "m_image st0 = m_image st" for x eof st0
  proof (cases x)
    case (Some v)
    then show ?thesis
      using image_kept.readLoop_ok [of lt mode xerror eof st0 "fst v" "snd v" "m_image st"] x i
      by (cases v; cases "fst v") (auto simp: writeUpdate_fails)
  qed simp
  let ?fin = "\<lambda>x. case x of Some (Inr u, st') \<Rightarrow> Some (writeUpdate FileObject st') | _ \<Rightarrow> x"
  have rd: "readData lt mode xerror (Some FileObject) st =
    (if passiveMode mode
     then (case readMsg mode (m_world st) of
             None \<Rightarrow> None
           | Some (Inl e, w) \<Rightarrow> Some (Inl e, ?st\<lparr>m_world := w\<rparr>)
           | Some (Inr (msg, eof), w) \<Rightarrow> ?fin (readLoop lt mode xerror eof (?st\<lparr>m_world := w\<rparr>)))
     else ?fin (readLoop lt mode xerror False ?st))"
    by (simp add: readData_def Let_def cong: option.case_cong sum.case_cong prod.case_cong)
  show ?thesis
  proof (cases "passiveMode mode")
    case False
    then show ?thesis using fin [OF refl, of ?st False] by (simp add: rd)
  next
    case True
    show ?thesis
    proof (cases "readMsg mode (m_world st)")
      case (Some v)
      obtain x w where v: "v = (x, w)" by (cases v)
      show ?thesis
      proof (cases x)
        case (Inr y)
        obtain msg eof where y: "y = (msg, eof)" by (cases y)
        show ?thesis using True Some v Inr y fin [OF refl, of "?st\<lparr>m_world := w\<rparr>" eof] by (simp add: rd)
      qed (use True Some v in \<open>simp add: rd\<close>)
    qed (use True in \<open>simp add: rd\<close>)
  qed
qed

subsection \<open>Examples\<close>

definition start_monitor :: "world \<Rightarrow> monitor" where
  "start_monitor w =
     \<lparr>m_world = w, m_classes = initial_classes, m_out = Some [], m_outSeq = 0, m_update = [], m_image = None,
      m_event = False, m_seqFile = None, m_conns = []\<rparr>"

theorem readData_file_witness:
  "\<exists>w. readData utc_1970_01_01 file_mode False None (start_monitor (start_world [1, 2, 0x12, 0x34, 0x56, 0x79, 3] [])) =
     Some (Inr (), start_monitor w)"
proof -
  let ?st = "start_monitor (start_world [1, 2, 0x12, 0x34, 0x56, 0x79, 3] [])"
  have "ends file_mode (w_file (m_world ?st))"
    by (simp add: start_monitor_def start_world_def ends_def file_mode_def)
  then obtain w where "readData utc_1970_01_01 file_mode False None ?st =
      Some (Inr (), setWorld w (fold (digest utc_1970_01_01 file_mode) (tl (frames (pending (w_file (m_world ?st))))) (?st\<lparr>m_update := []\<rparr>)))"
    using readData_file [of file_mode ?st, where lt = utc_1970_01_01] by (auto simp: file_mode_def)
  moreover have "frames (pending (w_file (m_world ?st))) = [[1, 2], [3]]"
    by (simp add: start_monitor_def start_world_def pending_def frames_example)
  moreover have "processMsg utc_1970_01_01 file_mode [3] st = (Inr (), st)" for st
    by (simp add: processMsg_def parseMsg_short rejected_def)
  ultimately show ?thesis by (auto simp: digest_def start_monitor_def)
qed

theorem performance_data_acknowledged_witness:
  "\<exists>m e st'. formatMsg 1 2 3 PROT_CMD_SERVER_POST_DATA [0xff] = Inr m \<and>
     processMsg utc_1970_01_01 (file_mode\<lparr>networkDevice := True\<rparr>) m (start_monitor (start_world [] [])) = (Inl e, st') \<and>
     sentBytes st' = [] \<and> m_out st' = Some []"
proof -
  let ?st = "start_monitor (start_world [] [])" and ?mode = "file_mode\<lparr>networkDevice := True\<rparr>"
  obtain m where m: "formatMsg 1 2 3 PROT_CMD_SERVER_POST_DATA [0xff] = Inr m"
    by (simp add: formatMsg_ok hdr_ok_def in_range_def PROT_CMD_SERVER_POST_DATA_def)
  have "snd (parseData utc_1970_01_01 PROT_CMD_SERVER_POST_DATA [0xff] (m_classes ?st)) = Inl StructError"
    by (simp add: parseData_def noArgFunctions_def prot_defs parseDeviceData_def parseBlocks.simps unpackHdr_def
        unpack_ints_def devHdrLen_def slice_def)
  then show ?thesis
    using performance_data_acknowledged [OF m, where mode = ?mode and lt = utc_1970_01_01 and st = ?st] m
    by (auto simp: start_monitor_def start_world_def sentBytes_def split: prod.splits sum.splits)
qed

text \<open>At 23:00 UTC a machine two hours ahead of UTC announces an offset of minus 22 hours.\<close>

definition two_hours_ahead :: clock where
  "two_hours_ahead t =
     Inr \<lparr>tm_year = 1970, tm_mon = 1, tm_mday = 1, tm_hour = nat ((t div 3600 + 2) mod 24), tm_min = 0, tm_sec = 0, tm_wday = 3\<rparr>"

theorem time_reply_offset_witness:
  "fst (replyTo two_hours_ahead PROT_CMD_SERVER_GET_GMT
      (start_monitor (start_world [] [] \<lparr>w_clock := (\<lambda>_. 82800)\<rparr>))) =
     rbind (formatTime 82800 (3600 * - 22)) (\<lambda>d. Inr (Some (PROT_RESP_SERVER_GMT, d)))"
proof -
  have "\<exists>tm. two_hours_ahead t = Inr tm \<and> int (tm_hour tm) = (t div 3600 + 2) mod 24" for t
    by (simp add: two_hours_ahead_def)
  from time_reply_offset [OF this, of "start_monitor (start_world [] [] \<lparr>w_clock := (\<lambda>_. 82800)\<rparr>)" 82800]
  show ?thesis by (simp add: start_monitor_def)
qed

end
