(* ===== verification/PyNum.thy ===== *)
theory PyNum
  imports PyVal
begin

text \<open>
  Python's arithmetic and comparison on values: sums, products, quotients by an integer, and the
  access to nested dictionaries by constant keys.
\<close>

subsection \<open>Floats\<close>

definition fadd :: "pyfloat \<Rightarrow> pyfloat \<Rightarrow> pyfloat" where
  "fadd x y =
     (if x = NaN \<or> y = NaN then NaN
      else (case (x, y) of
          (Infty a, Infty b) \<Rightarrow> if a = b then Infty a else NaN
        | (Infty a, _) \<Rightarrow> Infty a
        | (_, Infty b) \<Rightarrow> Infty b
        | (NegZero, NegZero) \<Rightarrow> NegZero
        | _ \<Rightarrow> fl (snd (fkey x) + snd (fkey y))))"

text \<open>Division by a non-zero integer \<open>n\<close>, converted to a float (exactly, below \<open>2 ^ 53\<close>).\<close>

definition fdiv_int :: "pyfloat \<Rightarrow> int \<Rightarrow> pyfloat" where
  "fdiv_int x n = (case x of
       NaN \<Rightarrow> NaN
     | Infty s \<Rightarrow> Infty (s \<noteq> (n < 0))
     | NegZero \<Rightarrow> (if n < 0 then Fin 0 else NegZero)
     | Fin q \<Rightarrow> if q = 0 then (if n < 0 then NegZero else Fin 0) else fl (q / of_int n))"

subsection \<open>Values\<close>

text \<open>Booleans are integers.\<close>

fun as_int :: "pyval \<Rightarrow> int option" where
  "as_int (PBool b) = Some (if b then 1 else 0)"
| "as_int (PInt i) = Some i"
| "as_int _ = None"

text \<open>The conversion of an integer operand; a large one raises.\<close>

definition to_float :: "int \<Rightarrow> pyfloat res" where
  "to_float i = (case float_of_int i of Infty s \<Rightarrow> Inl OverflowError | x \<Rightarrow> Inr x)"

definition arith :: "(int \<Rightarrow> int \<Rightarrow> int) \<Rightarrow> (pyfloat \<Rightarrow> pyfloat \<Rightarrow> pyfloat) \<Rightarrow> pyval \<Rightarrow> pyval \<Rightarrow> pyval res" where
  "arith f g v w = (case (as_int v, as_int w) of
       (Some i, Some j) \<Rightarrow> Inr (PInt (f i j))
     | (Some i, None) \<Rightarrow> (case w of PFloat y \<Rightarrow> rbind (to_float i) (\<lambda>x. Inr (PFloat (g x y))) | _ \<Rightarrow> Inl TypeError)
     | (None, Some j) \<Rightarrow> (case v of PFloat x \<Rightarrow> rbind (to_float j) (\<lambda>y. Inr (PFloat (g x y))) | _ \<Rightarrow> Inl TypeError)
     | (None, None) \<Rightarrow> (case (v, w) of (PFloat x, PFloat y) \<Rightarrow> Inr (PFloat (g x y)) | _ \<Rightarrow> Inl TypeError))"

text \<open>\<^verbatim>\<open>v + w\<close> where one of them is a number.\<close>

definition py_add :: "pyval \<Rightarrow> pyval \<Rightarrow> pyval res" where
  "py_add = arith (+) fadd"

text \<open>\<^verbatim>\<open>v * w\<close>; a string is repeated.\<close>

definition py_mul :: "pyval \<Rightarrow> pyval \<Rightarrow> pyval res" where
  "py_mul v w = (case (v, w) of
       (PStr s, _) \<Rightarrow> (case as_int w of Some n \<Rightarrow> Inr (PStr (concat (replicate (nat n) s))) | None \<Rightarrow> Inl TypeError)
     | (_, PStr s) \<Rightarrow> (case as_int v of Some n \<Rightarrow> Inr (PStr (concat (replicate (nat n) s))) | None \<Rightarrow> Inl TypeError)
     | _ \<Rightarrow> arith (*) fmul v w)"

text \<open>\<^verbatim>\<open>v / n\<close> for a number \<open>v\<close> and a non-zero integer \<open>n\<close>.\<close>

definition py_div_int :: "pyval \<Rightarrow> int \<Rightarrow> pyval res" where
  "py_div_int v n = (case v of
       PFloat x \<Rightarrow> Inr (PFloat (fdiv_int x n))
     | _ \<Rightarrow> (case as_int v of
           None \<Rightarrow> Inl TypeError
         | Some i \<Rightarrow> (case fdiv_int (Fin (of_int i)) n of Infty s \<Rightarrow> Inl OverflowError | x \<Rightarrow> Inr (PFloat x))))"

text \<open>\<^verbatim>\<open>v > w\<close> where one of them is a number.\<close>

definition py_gt :: "pyval \<Rightarrow> pyval \<Rightarrow> bool res" where
  "py_gt v w = (case (num_of v, num_of w) of (Some x, Some y) \<Rightarrow> Inr (y < x) | _ \<Rightarrow> Inl TypeError)"

lemma to_float_0 [simp]: "to_float 0 = Inr (Fin 0)"
  by (simp add: to_float_def float_of_int_def)

lemma py_add_floats [simp]: "py_add (PFloat x) (PFloat y) = Inr (PFloat (fadd x y))"
  and py_add_0_float [simp]: "py_add (PInt 0) (PFloat y) = Inr (PFloat (fadd (Fin 0) y))"
  and py_mul_floats [simp]: "py_mul (PFloat x) (PFloat y) = Inr (PFloat (fmul x y))"
  and py_div_float [simp]: "py_div_int (PFloat x) n = Inr (PFloat (fdiv_int x n))"
  by (simp_all add: py_add_def py_mul_def py_div_int_def arith_def)

subsection \<open>Nested dictionaries\<close>

text \<open>\<^verbatim>\<open>v[k]\<close>, \<^verbatim>\<open>v[k] = x\<close>, and the change of \<^verbatim>\<open>v[k]\<close> in place.\<close>

definition getitem :: "pyval \<Rightarrow> pykey \<Rightarrow> pyval res" where
  "getitem v k = (case v of PDict d \<Rightarrow> dlookup d k | _ \<Rightarrow> Inl TypeError)"

definition setitem :: "pykey \<Rightarrow> pyval \<Rightarrow> pyval \<Rightarrow> pyval res" where
  "setitem k x v = (case v of PDict d \<Rightarrow> Inr (PDict (dput k x d)) | _ \<Rightarrow> Inl TypeError)"

definition inside :: "pykey \<Rightarrow> (pyval \<Rightarrow> pyval res) \<Rightarrow> pyval \<Rightarrow> pyval res" where
  "inside k f v = rbind (getitem v k) (\<lambda>x. rbind (f x) (\<lambda>y. setitem k y v))"

lemma getitem_PDict [simp]: "getitem (PDict d) k = dlookup d k"
  and setitem_PDict [simp]: "setitem k x (PDict d) = Inr (PDict (dput k x d))"
  by (simp_all add: getitem_def setitem_def)

text \<open>\<^verbatim>\<open>v.update(w)\<close>: other values than dictionaries are taken for sequences of pairs.\<close>

definition py_update :: "pyval \<Rightarrow> pyval res \<Rightarrow> pyval res" where
  "py_update v arg = (case v of
       PDict d \<Rightarrow> rbind arg (\<lambda>w. case w of
           PDict e \<Rightarrow> Inr (PDict (dupdate e d))
         | PStr s \<Rightarrow> if s = [] then Inr v else Inl ValueError
         | _ \<Rightarrow> Inl TypeError)
     | _ \<Rightarrow> Inl AttributeError)"

text \<open>A loop whose body may raise.\<close>

fun for_each :: "('k \<Rightarrow> 's \<Rightarrow> 's res) \<Rightarrow> 'k list \<Rightarrow> 's \<Rightarrow> 's res" where
  "for_each f [] s = Inr s"
| "for_each f (k # ks) s = rbind (f k s) (for_each f ks)"

lemma for_each_invariant:
  assumes "\<And>k s s'. P s \<Longrightarrow> k \<in> set ks \<Longrightarrow> f k s = Inr s' \<Longrightarrow> P s'"
  shows "P s \<Longrightarrow> for_each f ks s = Inr s' \<Longrightarrow> P s'"
  using assms
proof (induction ks arbitrary: s)
  case (Cons k ks)
  obtain s1 where "f k s = Inr s1" "for_each f ks s1 = Inr s'"
    using Cons.prems(2) by (auto simp: res_simps)
  moreover have "P s1" using Cons.prems(1,3) calculation(1) by (meson list.set_intros(1))
  ultimately show ?case using Cons.IH [of s1] Cons.prems(3) by (meson list.set_intros(2))
qed simp

lemma for_each_total:
  assumes "\<And>k s. P s \<Longrightarrow> k \<in> set ks \<Longrightarrow> \<exists>s'. f k s = Inr s' \<and> P s'"
  shows "P s \<Longrightarrow> \<exists>s'. for_each f ks s = Inr s' \<and> P s'"
  using assms
proof (induction ks arbitrary: s)
  case (Cons k ks)
  obtain s1 where "f k s = Inr s1" "P s1" using Cons.prems by force
  moreover have "\<exists>s'. for_each f ks s1 = Inr s' \<and> P s'"
    using Cons.IH [OF \<open>P s1\<close>] Cons.prems(2) by simp
  ultimately show ?case by simp
qed simp

end
