(* ===== verification/PyFormat.thy ===== *)
theory PyFormat
  imports Json PyInt PyNum
begin

text \<open>
  Numbers as text beyond \<^verbatim>\<open>int\<close> and \<^verbatim>\<open>repr\<close>: \<^verbatim>\<open>float(v)\<close> of strings and values, \<^verbatim>\<open>str\<close> of a float
  in Python 2, and the format \<^verbatim>\<open>%.2f\<close>.  White space and digits outside ASCII are left out.
\<close>

subsection \<open>Reading\<close>

definition lower_char :: "char \<Rightarrow> char" where
  "lower_char c = (let n = of_char c :: nat in if 65 \<le> n \<and> n \<le> 90 then char_of (n + 32) else c)"

definition is_dec :: "char \<Rightarrow> bool" where
  "is_dec c \<longleftrightarrow> digit_in 10 c \<noteq> None"

definition dec_value :: "string \<Rightarrow> nat" where
  "dec_value s = value_of 10 (map (\<lambda>c. the (hexval c)) s)"

text \<open>The exponent, which is optional.\<close>

definition read_exponent :: "string \<Rightarrow> int option" where
  "read_exponent s = (case s of
       [] \<Rightarrow> Some 0
     | c # r \<Rightarrow> (let (sign, ds) = read_sign r
         in if (c = CHR ''e'' \<or> c = CHR ''E'') \<and> plain_digits 10 ds then Some (sign * int (dec_value ds)) else None))"

definition read_unsigned :: "string \<Rightarrow> rat option" where
  "read_unsigned t =
     (let whole = takeWhile is_dec t; r = dropWhile is_dec t;
          (part, r') = (case r of
              c # r1 \<Rightarrow> if c = CHR ''.'' then (takeWhile is_dec r1, dropWhile is_dec r1) else ([], r)
            | [] \<Rightarrow> ([], r))
      in if whole @ part = [] then None
         else map_option (\<lambda>e. of_nat (dec_value (whole @ part)) * pow10 (e - int (length part))) (read_exponent r'))"

text \<open>\<^verbatim>\<open>float(s)\<close> of Python 2, which knows no underscores between digits.\<close>

definition read_float :: "string \<Rightarrow> pyfloat res" where
  "read_float s =
     (let (sign, t) = read_sign (strip_chars is_space s); u = map lower_char t
      in if u = ''nan'' then Inr NaN
         else if u = ''inf'' \<or> u = ''infinity'' then Inr (Infty (sign < 0))
         else (case read_unsigned t of
             None \<Rightarrow> Inl ValueError
           | Some q \<Rightarrow> (case fl q of
               Fin x \<Rightarrow> Inr (if sign < 0 then (if x = 0 then NegZero else Fin (- x)) else Fin x)
             | Infty _ \<Rightarrow> Inr (Infty (sign < 0))
             | y \<Rightarrow> Inr y)))"

text \<open>\<^verbatim>\<open>float(v)\<close>\<close>

definition float_of :: "pyval \<Rightarrow> pyfloat res" where
  "float_of v = (case v of
       PFloat x \<Rightarrow> Inr x
     | PStr s \<Rightarrow> read_float s
     | _ \<Rightarrow> (case as_int v of Some i \<Rightarrow> to_float i | None \<Rightarrow> Inl TypeError))"

subsection \<open>Writing\<close>

text \<open>\<^verbatim>\<open>str(x)\<close> of Python 2: twelve significant digits.\<close>

definition digits12 :: "rat \<Rightarrow> int \<times> int" where
  "digits12 q = (let e = ilog10 q; d = round_half_even (q * pow10 (11 - e))
     in if d = 10 ^ 12 then (10 ^ 11, e + 1) else (d, e))"

definition pos_str12 :: "rat \<Rightarrow> string" where
  "pos_str12 q = (let (d, e) = digits12 q in layout 12 (strip_zeros (dec_str (nat d))) (e + 1))"

definition float_str12 :: "pyfloat \<Rightarrow> string" where
  "float_str12 x = (case x of
       NaN \<Rightarrow> ''nan''
     | Infty neg \<Rightarrow> (if neg then ''-inf'' else ''inf'')
     | NegZero \<Rightarrow> ''-0.0''
     | Fin q \<Rightarrow> if q = 0 then ''0.0'' else if q < 0 then CHR ''-'' # pos_str12 (- q) else pos_str12 q)"

text \<open>\<^verbatim>\<open>"%w.2f" % x\<close>\<close>

definition fixed2 :: "pyfloat \<Rightarrow> string" where
  "fixed2 x = (case x of
       NaN \<Rightarrow> ''nan''
     | Infty neg \<Rightarrow> (if neg then ''-inf'' else ''inf'')
     | NegZero \<Rightarrow> ''-0.00''
     | Fin q \<Rightarrow> (let n = nat (round_half_even (\<bar>q\<bar> * 100))
         in (if q < 0 then ''-'' else []) @ dec_str (n div 100) @ ''.'' @ zpad 2 (dec_str (n mod 100))))"

definition pad_left :: "nat \<Rightarrow> string \<Rightarrow> string" where
  "pad_left w s = replicate (w - length s) (CHR '' '') @ s"

text \<open>The number that the format takes: strings are refused.\<close>

definition format2 :: "nat \<Rightarrow> pyval \<Rightarrow> string res" where
  "format2 w v = (case v of
       PStr s \<Rightarrow> Inl TypeError
     | _ \<Rightarrow> rbind (float_of v) (\<lambda>x. Inr (pad_left w (fixed2 x))))"

lemma float_of_simps [simp]:
  "float_of (PFloat x) = Inr x" "float_of (PStr s) = read_float s" "float_of PNone = Inl TypeError"
  "float_of (PDict d) = Inl TypeError" "float_of (PInt i) = to_float i"
  by (simp_all add: float_of_def)

end
