(* ===== verification/FloatRound.thy ===== *)
theory FloatRound
  imports PyFormat
begin

text \<open>
  The shortest decimal of a float: the digits that \<open>float_repr\<close> prints denote a number that rounds to the
  float they were printed for, and there always are such digits.
\<close>

subsection \<open>Decimal exponents\<close>

lemma pow10_add: "pow10 (a + b) = pow10 a * pow10 b"
proof -
  have conv: "pow10 k = 10 powi k" for k
    by (auto simp: pow10_def power_int_def power_one_over inverse_eq_divide)
  show ?thesis by (simp add: conv power_int_add)
qed

lemma pow10_pos [simp]: "0 < pow10 k"
  by (simp add: pow10_def)

lemma abs_pow10 [simp]: "\<bar>pow10 k\<bar> = pow10 k"
  by (simp add: abs_of_pos)

lemma pow10_of_nat [simp]: "pow10 (int n) = 10 ^ n"
  by (simp add: pow10_def)

lemma pow10_0 [simp]: "pow10 0 = 1"
  by (simp add: pow10_def)

lemma digits_of_bounds:
  assumes "0 < n"
  shows "10 ^ (length (digits_of 10 n) - 1) \<le> n \<and> n < 10 ^ length (digits_of 10 n)"
  using assms
proof (induction n rule: less_induct)
  case (less n)
  show ?case
  proof (cases "n < 10")
    case False
    let ?l = "length (digits_of 10 (n div 10))"
    have l: "0 < ?l" by simp
    have "10 ^ (?l - 1) \<le> n div 10" "n div 10 < 10 ^ ?l" using less.IH [of "n div 10"] False by simp_all
    then have "10 * 10 ^ (?l - 1) \<le> n" "n < 10 * 10 ^ ?l" by linarith+
    moreover have "10 * 10 ^ (?l - 1) = (10 :: nat) ^ ?l" using l by (metis power_eq_if less_numeral_extra(3))
    ultimately show ?thesis using False by simp
  qed (use less.prems in simp)
qed

lemma ilog10_le:
  assumes "0 < q"
  shows "pow10 (ilog10 q) \<le> q"
proof -
  obtain n d where nd: "quotient_of q = (n, d)" by fastforce
  have d: "0 < d" using quotient_of_denom_pos [OF nd] .
  have q: "q = of_int n / of_int d" using quotient_of_div [OF nd] .
  have n: "0 < n" using assms d by (simp add: q zero_less_divide_iff)
  define a b where "a = length (digits_of 10 (nat n))" and "b = length (digits_of 10 (nat d))"
  have "10 ^ (a - 1) \<le> nat n" "nat d < 10 ^ b"
    using digits_of_bounds [of "nat n"] digits_of_bounds [of "nat d"] n d by (auto simp: a_def b_def)
  then have "10 ^ (a - 1) \<le> n" "d < 10 ^ b" using n d by (auto simp: le_nat_iff nat_less_iff)
  then have bounds: "10 ^ (a - 1) \<le> rat_of_int n" "rat_of_int d < 10 ^ b"
    using \<open>10 ^ (a - 1) \<le> n\<close> [folded of_int_le_iff [where 'a = rat]] \<open>d < 10 ^ b\<close> [folded of_int_less_iff [where 'a = rat]]
    by simp_all
  define e where "e = int a - int b"
  have "0 < a" by (simp add: a_def)
  then have split: "pow10 (e - 1) * 10 ^ b = 10 ^ (a - 1)"
    using pow10_add [of "e - 1" "int b"] pow10_of_nat [of "a - 1"] by (simp add: e_def)
  have dpos: "0 < rat_of_int d" using d by simp
  have "pow10 (e - 1) * rat_of_int d \<le> pow10 (e - 1) * 10 ^ b"
    using bounds(2) by (intro mult_left_mono) (simp_all add: less_imp_le)
  also have "\<dots> \<le> rat_of_int n" using split bounds(1) by simp
  finally have "pow10 (e - 1) \<le> q" using dpos by (simp add: q le_divide_eq)
  moreover have "ilog10 q = (if q < pow10 e then e - 1 else e)"
    by (simp add: ilog10_def nd e_def a_def b_def)
  ultimately show ?thesis by auto
qed

subsection \<open>Numbers near a double\<close>

lemma round_near: "\<bar>x - of_int m\<bar> < 1 / 2 \<Longrightarrow> round_half_even x = m"
proof -
  assume near: "\<bar>x - of_int m\<bar> < 1 / 2"
  consider "of_int m \<le> x" | "x < of_int m" by linarith
  then show ?thesis
  proof cases
    case 1
    then have "\<lfloor>x\<rfloor> = m" using near by (intro floor_unique) linarith+
    moreover have "x - of_int m < 1 / 2" using near by linarith
    ultimately show ?thesis by (simp add: round_half_even_def Let_def)
  next
    case 2
    moreover have "of_int m - 1 \<le> x" using near by linarith
    ultimately have "\<lfloor>x\<rfloor> = m - 1" by (intro floor_unique) simp_all
    moreover have "1 / 2 < x - of_int (m - 1)" using near 2 unfolding of_int_diff of_int_1 by linarith
    ultimately show ?thesis by (simp add: round_half_even_def Let_def)
  qed
qed

lemma fl_multiple:
  assumes "0 < y" and "\<bar>y - of_int m * pow2 (fl_quantum y)\<bar> < pow2 (fl_quantum y) / 2"
    and "0 < m" and "of_int m * pow2 (fl_quantum y) < pow2 1024"
  shows "fl y = Fin (of_int m * pow2 (fl_quantum y))"
proof -
  let ?j = "fl_quantum y"
  have inv: "pow2 ?j * pow2 (- ?j) = 1" using pow2_add [of ?j "- ?j"] by (simp add: pow2_def)
  have "y * pow2 (- ?j) - of_int m = (y - of_int m * pow2 ?j) * pow2 (- ?j)"
    by (simp add: left_diff_distrib mult.assoc inv)
  then have "\<bar>y * pow2 (- ?j) - of_int m\<bar> = \<bar>y - of_int m * pow2 ?j\<bar> * pow2 (- ?j)"
    by (simp add: abs_mult)
  also have "\<dots> < pow2 ?j / 2 * pow2 (- ?j)" using assms(2) by (intro mult_strict_right_mono) simp_all
  also have "\<dots> = 1 / 2" using inv by simp
  finally have "round_half_even (y * pow2 (- ?j)) = m" by (rule round_near)
  then show ?thesis using assms(1,3,4) by (simp add: fl_def Let_def)
qed

text \<open>A double is a multiple of its quantum.\<close>

lemma double_multiple:
  assumes "fl q = Fin q" and "0 < q"
  obtains m where "q = of_int m * pow2 (fl_quantum q)" and "0 < m" and "q < pow2 1024"
proof -
  define m where "m = round_half_even (q * pow2 (- fl_quantum q))"
  have "fl q = (if pow2 1024 \<le> of_int m * pow2 (fl_quantum q) then Infty False
      else if of_int m * pow2 (fl_quantum q) = 0 then Fin 0 else Fin (of_int m * pow2 (fl_quantum q)))"
    using assms(2) by (simp add: fl_def m_def Let_def)
  then have q: "q = of_int m * pow2 (fl_quantum q)" "q < pow2 1024"
    using assms by (auto split: if_splits)
  then have "0 < rat_of_int m * pow2 (fl_quantum q)" using assms(2) by simp
  then have "0 < m" using pow2_pos [of "fl_quantum q"] by (auto simp: zero_less_mult_iff dest: less_asym)
  then show thesis using that q by blast
qed

lemma fl_near:
  assumes "fl q = Fin q" and "0 < q" and "\<bar>y - q\<bar> \<le> q / (2 * 10 ^ 16)"
  shows "fl y = Fin q"
proof -
  obtain m where m: "q = of_int m * pow2 (fl_quantum q)" "0 < m" "q < pow2 1024"
    using double_multiple [OF assms(1,2)] .
  define e j e' j' where "e = ilog2 q" and "j = fl_quantum q" and "e' = ilog2 y" and "j' = fl_quantum y"
  have jm: "j = max (e - 52) (- 1074)" "j' = max (e' - 52) (- 1074)"
    by (simp_all add: j_def j'_def e_def e'_def fl_quantum_def)
  have eq: "pow2 e \<le> q" "q < 2 * pow2 e"
    using ilog2_bounds [OF assms(2)] by (simp_all add: e_def pow2_add pow2_def [of 1])
  have "q / (2 * 10 ^ 16) < q" using assms(2) by simp
  then have y: "0 < y" using assms(3) by linarith
  have ey: "pow2 e' \<le> y" "y < 2 * pow2 e'"
    using ilog2_bounds [OF y] by (simp_all add: e'_def pow2_add pow2_def [of 1])
  have pe: "pow2 e \<le> 2 ^ 52 * pow2 j"
  proof -
    have "pow2 (e - 52) \<le> pow2 j" by (rule pow2_mono) (simp add: jm)
    moreover have "pow2 e = pow2 (e - 52) * 2 ^ 52" using pow2_add [of "e - 52" 52] by (simp add: pow2_def [of 52])
    ultimately show ?thesis by simp
  qed
  have q: "q = of_int m * pow2 j" using m(1) by (simp add: j_def)
  have dist: "\<bar>y - q\<bar> \<le> pow2 e / 10 ^ 16" "\<bar>y - q\<bar> < 5 / 11 * pow2 j"
  proof -
    define d where "d = \<bar>y - q\<bar>"
    have "d \<le> q / (2 * 10 ^ 16)" using assms(3) by (simp add: d_def)
    then have "d * (2 * 10 ^ 16) \<le> q" by (simp add: pos_le_divide_eq)
    then have "d \<le> pow2 e / 10 ^ 16 \<and> d < 5 / 11 * pow2 j"
      using eq(2) pe pow2_pos [of j] by (simp, linarith)
    then show "\<bar>y - q\<bar> \<le> pow2 e / 10 ^ 16" "\<bar>y - q\<bar> < 5 / 11 * pow2 j" by (simp_all add: d_def)
  qed
  consider "j' = j" | "j' < j" | "j < j'" by linarith
  then show ?thesis
  proof cases
    case 1
    have "\<bar>y - of_int m * pow2 j'\<bar> < pow2 j' / 2" using dist(2) pow2_pos [of j] unfolding 1 q [symmetric] by linarith
    then show ?thesis using fl_multiple [of y m] y m(2,3) 1 q by (simp add: j'_def)
  next
    case 2
    then have le: "e' + 1 \<le> e" "j = e - 52" by (auto simp: jm max_def split: if_splits)
    have "pow2 (e' + 1) \<le> pow2 e" using le(1) by (rule pow2_mono)
    then have "y < pow2 e" using ey(2) by (simp add: pow2_add pow2_def [of 1])
    have "pow2 (e - 2) = pow2 e / 4" using pow2_add [of "e - 2" 2] by (simp add: pow2_def [of 2])
    have "pow2 e / 10 ^ 16 < pow2 e / 4" using pow2_pos [of e] by simp
    then have "pow2 e / 2 < y" using dist(1) eq(1) pow2_pos [of e] by linarith
    then have "pow2 (e - 1) < 2 * pow2 e'" using ey(2) pow2_add [of "e - 1" 1] by (simp add: pow2_def [of 1])
    then have "pow2 (e - 1) < pow2 (e' + 1)" by (simp add: pow2_add pow2_def [of 1])
    then have "e - 1 < e' + 1" by (rule pow2_less_cancel)
    then have e': "e' = e - 1" using le(1) by linarith
    then have j': "j' = j - 1" using 2 le(2) by (auto simp: jm max_def split: if_splits)
    have half: "pow2 j = 2 * pow2 j'" using pow2_add [of "j - 1" 1] by (simp add: j' pow2_def [of 1])
    have e52: "pow2 e = 2 ^ 52 * pow2 j" using pow2_add [of "e - 52" 52] by (simp add: le(2) pow2_def [of 52])
    have "q < pow2 e + pow2 j / 2" using dist(2) \<open>y < pow2 e\<close> pow2_pos [of j] by linarith
    then have "rat_of_int m * pow2 j < (2 ^ 52 + 1) * pow2 j" using q e52 pow2_pos [of j] by (simp add: distrib_right)
    then have "rat_of_int m < 2 ^ 52 + 1" unfolding mult_less_cancel_right_pos [OF pow2_pos] .
    then have "m < 2 ^ 52 + 1" by simp
    moreover have "rat_of_int (2 ^ 52) * pow2 j \<le> of_int m * pow2 j" using eq(1) e52 q by simp
    then have "rat_of_int (2 ^ 52) \<le> of_int m" unfolding mult_le_cancel_right_pos [OF pow2_pos] .
    then have "2 ^ 52 \<le> m" by (simp only: of_int_le_iff)
    ultimately have "m = 2 ^ 52" by linarith
    then have qe: "q = pow2 e" using q e52 by simp
    have "\<bar>y - q\<bar> < pow2 j' / 2"
      using assms(3) qe e52 half by (simp, insert pow2_pos [of j'], linarith)
    then have "\<bar>y - of_int (2 * m) * pow2 j'\<bar> < pow2 j' / 2" using q half by (simp add: mult.assoc mult.left_commute)
    moreover have "of_int (2 * m) * pow2 j' = q" using q half by (simp add: mult.assoc mult.left_commute)
    ultimately show ?thesis using fl_multiple [of y "2 * m"] y m(2,3) by (simp add: j'_def)
  next
    case 3
    have "pow2 e / 10 ^ 16 < pow2 e" using pow2_pos [of e] by simp
    then have "y < 4 * pow2 e" using dist(1) eq(2) pow2_pos [of e] by linarith
    then have "pow2 e' < pow2 (e + 2)" using ey(1) by (simp add: pow2_add pow2_def [of 2])
    then have "e' < e + 2" by (rule pow2_less_cancel)
    then have ge: "e + 1 \<le> e'" "j = e - 52" using 3 by (auto simp: jm max_def split: if_splits)
    have e52: "pow2 e = 2 ^ 52 * pow2 j" using pow2_add [of "e - 52" 52] by (simp add: ge(2) pow2_def [of 52])
    have "pow2 (e + 1) \<le> pow2 e'" using ge(1) by (rule pow2_mono)
    then have y2: "2 * pow2 e \<le> y" using ey(1) by (simp add: pow2_add pow2_def [of 1])
    have "rat_of_int m * pow2 j < 2 ^ 53 * pow2 j" using eq(2) e52 q by simp
    then have "rat_of_int m < 2 ^ 53" unfolding mult_less_cancel_right_pos [OF pow2_pos] .
    then have "m < 2 ^ 53" by simp
    then have "rat_of_int m \<le> of_int (2 ^ 53 - 1)" by simp
    then have "rat_of_int m \<le> 2 ^ 53 - 1" by simp
    then have "rat_of_int m * pow2 j \<le> (2 ^ 53 - 1) * pow2 j" by (rule mult_right_mono) (simp add: less_imp_le)
    then have "q + pow2 j \<le> 2 * pow2 e" using q e52 by (simp add: left_diff_distrib)
    then have False using y2 dist(2) pow2_pos [of j] by linarith
    then show ?thesis ..
  qed
qed

subsection \<open>The shortest decimal\<close>

lemma decimal_reads: "decimal q n = Some d \<Longrightarrow> fl (of_int d * pow10 (ilog10 q - int n + 1)) = Fin q"
  by (auto simp: decimal_def Let_def split: if_splits)

lemma decimal_pos:
  assumes "decimal q n = Some d" and "0 < q" and "0 < n"
  shows "0 < d"
proof -
  define k where "k = ilog10 q - int n + 1"
  have "pow10 (ilog10 q) * pow10 (- k) \<le> q * pow10 (- k)"
    using ilog10_le [OF assms(2)] by (intro mult_right_mono) (simp_all add: less_imp_le)
  moreover have "pow10 (ilog10 q) * pow10 (- k) = pow10 (int (n - 1))"
    using assms(3) by (simp add: k_def of_nat_diff flip: pow10_add)
  moreover have "(1 :: rat) \<le> pow10 (int (n - 1))" by simp
  ultimately have "1 \<le> q * pow10 (- k)" by linarith
  then have "1 \<le> \<lfloor>q * pow10 (- k)\<rfloor>" by simp
  moreover have "d = \<lfloor>q * pow10 (- k)\<rfloor> \<or> d = \<lfloor>q * pow10 (- k)\<rfloor> + 1"
    using assms(1) by (auto simp: decimal_def Let_def k_def split: if_splits)
  ultimately show ?thesis by linarith
qed

text \<open>Seventeen digits always suffice.\<close>

lemma decimal_17:
  assumes "fl q = Fin q" and "0 < q"
  shows "decimal q 17 \<noteq> None"
proof -
  define k where "k = ilog10 q - 16"
  define x where "x = q * pow10 (- k)"
  have inv: "pow10 (- k) * pow10 k = 1" using pow10_add [of "- k" k] by simp
  have small: "pow10 k \<le> q / 10 ^ 16"
  proof -
    have "pow10 (ilog10 q) = pow10 k * 10 ^ 16" using pow10_add [of k 16] by (simp add: k_def pow10_def [of 16])
    then show ?thesis using ilog10_le [OF assms(2)] by simp
  qed
  have ok: "fl (of_int r * pow10 k) = Fin q" if "\<bar>of_int r - x\<bar> \<le> 1 / 2" for r
  proof (rule fl_near [OF assms])
    have "of_int r * pow10 k - q = (of_int r - x) * pow10 k"
      using inv by (simp add: x_def left_diff_distrib mult.assoc)
    then have "\<bar>of_int r * pow10 k - q\<bar> = \<bar>of_int r - x\<bar> * pow10 k" by (simp add: abs_mult)
    also have "\<dots> \<le> 1 / 2 * pow10 k" using that by (rule mult_right_mono) (simp add: less_imp_le)
    also have "\<dots> \<le> q / (2 * 10 ^ 16)" using small by simp
    finally show "\<bar>of_int r * pow10 k - q\<bar> \<le> q / (2 * 10 ^ 16)" .
  qed
  have near: "\<bar>of_int \<lfloor>x\<rfloor> - x\<bar> \<le> 1 / 2 \<or> \<bar>of_int (\<lfloor>x\<rfloor> + 1) - x\<bar> \<le> 1 / 2"
    using floor_correct [of x] unfolding of_int_add of_int_1 by linarith
  have "decimal q 17 = (if fl (of_int \<lfloor>x\<rfloor> * pow10 k) = Fin q \<and> (x - of_int \<lfloor>x\<rfloor> < 1 / 2 \<or> x - of_int \<lfloor>x\<rfloor> = 1 / 2 \<and> even \<lfloor>x\<rfloor> \<or>
        fl (of_int (\<lfloor>x\<rfloor> + 1) * pow10 k) \<noteq> Fin q) then Some \<lfloor>x\<rfloor>
      else if fl (of_int (\<lfloor>x\<rfloor> + 1) * pow10 k) = Fin q then Some (\<lfloor>x\<rfloor> + 1) else None)"
    by (simp add: decimal_def Let_def x_def k_def)
  then show ?thesis using near ok [of "\<lfloor>x\<rfloor>"] ok [of "\<lfloor>x\<rfloor> + 1"] by auto
qed

lemma shortest_reads:
  assumes "fl q = Fin q" and "0 < q" and "shortest q ns = (d, n)" and "17 \<in> set ns" and "0 \<notin> set ns"
  shows "fl (of_int d * pow10 (ilog10 q - int n + 1)) = Fin q \<and> 0 < d"
  using assms(3-5)
proof (induction ns)
  case (Cons n' ns)
  show ?case
  proof (cases "decimal q n'")
    case None
    then have "n' \<noteq> 17" using decimal_17 [OF assms(1,2)] by auto
    then show ?thesis using Cons None by simp
  next
    case (Some d')
    then have "d' = d" "n' = n" using Cons.prems(1) by simp_all
    then show ?thesis using Some decimal_reads decimal_pos assms(2) Cons.prems(3) by auto
  qed
qed simp

subsection \<open>Doubles\<close>

text \<open>A finite float is a double when rounding leaves it alone; every float the program computes is one.\<close>

definition double :: "pyfloat \<Rightarrow> bool" where
  "double x \<longleftrightarrow> (case x of Fin q \<Rightarrow> fl q = Fin q | _ \<Rightarrow> True)"

lemma double_abs: "double (Fin q) \<Longrightarrow> fl \<bar>q\<bar> = Fin \<bar>q\<bar>"
  by (cases "q = 0") (auto simp: double_def fl_def Let_def split: if_splits)

lemma fl_minus: "fl q = Fin q \<Longrightarrow> fl (- q) = Fin (- q)"
  by (cases "q = 0") (auto simp: fl_def Let_def split: if_splits)

lemma round_half_even_bounds:
  "of_int a \<le> x \<Longrightarrow> a \<le> round_half_even x" "x \<le> of_int b \<Longrightarrow> round_half_even x \<le> b"
proof -
  have "\<lfloor>x\<rfloor> \<le> round_half_even x" "round_half_even x \<le> \<lfloor>x\<rfloor> + 1" by (simp_all add: round_half_even_def Let_def)
  then show "of_int a \<le> x \<Longrightarrow> a \<le> round_half_even x" by (simp add: le_floor_iff [symmetric])
  assume b: "x \<le> of_int b"
  show "round_half_even x \<le> b"
  proof (cases "\<lfloor>x\<rfloor> = b")
    case True
    then have "x = of_int b" using b of_int_floor_le [of x] by linarith
    then show ?thesis by simp
  next
    case False
    moreover have "\<lfloor>x\<rfloor> \<le> b" using floor_mono [OF b] by simp
    ultimately have "\<lfloor>x\<rfloor> + 1 \<le> b" by linarith
    then show ?thesis using \<open>round_half_even x \<le> \<lfloor>x\<rfloor> + 1\<close> by linarith
  qed
qed

lemma fl_positive_double:
  assumes "0 < y" and "fl y = Fin q"
  shows "fl q = Fin q"
proof (cases "q = 0")
  case False
  define j m where "j = fl_quantum y" and "m = round_half_even (y * pow2 (- j))"
  have q: "q = of_int m * pow2 j" "q < pow2 1024"
    using assms False by (auto simp: fl_def Let_def j_def m_def split: if_splits)
  have j: "- 1074 \<le> j" by (simp add: j_def fl_quantum_def)
  have inv: "pow2 j * pow2 (- j) = 1" using pow2_add [of j "- j"] by (simp add: pow2_def)
  have e: "pow2 (ilog2 y) \<le> y" "y < pow2 (ilog2 y + 1)" using ilog2_bounds [OF assms(1)] by auto
  have "pow2 (ilog2 y + 1) \<le> pow2 (j + 53)" by (rule pow2_mono) (simp add: j_def fl_quantum_def)
  then have "y * pow2 (- j) \<le> pow2 (j + 53) * pow2 (- j)"
    using e(2) by (intro mult_right_mono) (simp_all add: less_imp_le)
  also have "\<dots> = 2 ^ 53" by (simp flip: pow2_add add: pow2_def [of 53])
  finally have "m \<le> 2 ^ 53" unfolding m_def by (intro round_half_even_bounds(2)) simp
  have "0 \<le> y * pow2 (- j)" using assms(1) by (simp add: less_imp_le)
  then have "0 \<le> m" unfolding m_def by (intro round_half_even_bounds(1)) simp
  have top: "j \<le> 971"
  proof (rule ccontr)
    assume "\<not> j \<le> 971"
    then have j52: "j = ilog2 y - 52" "972 \<le> j" by (auto simp: j_def fl_quantum_def max_def split: if_splits)
    have "pow2 (ilog2 y) * pow2 (- j) \<le> y * pow2 (- j)" using e(1) by (intro mult_right_mono) (simp_all add: less_imp_le)
    moreover have "pow2 (ilog2 y) * pow2 (- j) = 2 ^ 52" by (simp flip: pow2_add add: j52(1) pow2_def [of 52])
    ultimately have "2 ^ 52 \<le> m" unfolding m_def by (intro round_half_even_bounds(1)) simp
    then have "rat_of_int (2 ^ 52) \<le> of_int m" by (simp only: of_int_le_iff)
    then have "2 ^ 52 * pow2 j \<le> q" unfolding q(1) by (intro mult_right_mono) (simp_all add: less_imp_le)
    moreover have "2 ^ 52 * pow2 j = pow2 (52 + j)" using pow2_add [of 52 j] by (simp add: pow2_def [of 52])
    moreover have "pow2 1024 \<le> pow2 (52 + j)" using j52(2) by (intro pow2_mono) simp
    ultimately show False using q(2) by linarith
  qed
  show ?thesis
  proof (cases "m = 2 ^ 53")
    case False
    then have "\<bar>m\<bar> < 2 ^ 53" using \<open>0 \<le> m\<close> \<open>m \<le> 2 ^ 53\<close> by linarith
    then show ?thesis using fl_exact [OF _ j top] by (simp add: q(1))
  next
    case True
    have up: "q = of_int (2 ^ 52) * pow2 (j + 1)" using pow2_add [of j 1] by (simp add: q(1) True pow2_def [of 1])
    have "pow2 (j + 53) < pow2 1024" using q pow2_add [of j 53] by (simp add: True pow2_def [of 53] mult.commute)
    then have "j + 53 < 1024" by (rule pow2_less_cancel)
    then show ?thesis using fl_exact [of "2 ^ 52" "j + 1"] j unfolding up by simp
  qed
qed simp

lemma double_fl [simp]: "double (fl y)"
proof (cases "fl y")
  case (Fin q)
  consider "y = 0" | "0 < y" | "y < 0" by linarith
  then have "fl q = Fin q"
  proof cases
    case 3
    then have "fl (- y) = Fin (- q)" using Fin by (auto simp: fl_def Let_def split: if_splits)
    then show ?thesis using fl_positive_double [of "- y" "- q"] fl_minus [of "- q"] 3 by simp
  qed (use Fin fl_positive_double in auto)
  then show ?thesis by (simp add: double_def Fin)
qed (simp_all add: double_def)

lemma double_simps [simp]: "double NegZero" "double (Infty b)" "double NaN" "double (float_of_int i)"
  by (simp_all add: float_of_int_def) (simp_all add: double_def)

lemma double_f32 [simp]: "double (f32_of_int u)"
  by (cases "f32_of_int u") (auto simp: double_def f32_finite_exact)

lemma double_fmul [simp]: "double (fmul x y)"
  by (simp add: fmul_def Let_def) (simp add: double_def)

end
