(* ===== verification/JsonLoads.thy ===== *)
theory JsonLoads
  imports PyFormat
begin

text \<open>
  \<^verbatim>\<open>json.loads\<close> for texts without arrays, which nothing in the repository writes.  A text is the list
  of its UTF-8 bytes.  The nesting is bounded by fuel, the length of the text, which is shown to
  suffice.
\<close>

subsection \<open>Strings\<close>

definition utf8 :: "nat \<Rightarrow> string" where
  "utf8 n = map char_of
     (if n < 0x80 then [n]
      else if n < 0x800 then [0xc0 + n div 64, 0x80 + n mod 64]
      else if n < 0x10000 then [0xe0 + n div 4096, 0x80 + n div 64 mod 64, 0x80 + n mod 64]
      else [0xf0 + n div 262144, 0x80 + n div 4096 mod 64, 0x80 + n div 64 mod 64, 0x80 + n mod 64])"

fun hex4 :: "string \<Rightarrow> (nat \<times> string) option" where
  "hex4 (a # b # c # d # r) =
     (case (hexval a, hexval b, hexval c, hexval d) of
        (Some w, Some x, Some y, Some z) \<Rightarrow> Some (w * 4096 + x * 256 + y * 16 + z, r)
      | _ \<Rightarrow> None)"
| "hex4 _ = None"

text \<open>The second half of a surrogate pair.\<close>

definition low_surrogate :: "string \<Rightarrow> (nat \<times> string) option" where
  "low_surrogate s = (case s of
       a # b # r \<Rightarrow> if a = bslash \<and> b = CHR ''u'' then
           (case hex4 r of
              Some (n, r') \<Rightarrow> if 0xdc00 \<le> n \<and> n \<le> 0xdfff then Some (n, r') else None
            | None \<Rightarrow> None)
         else None
     | _ \<Rightarrow> None)"

definition escape_char :: "char \<Rightarrow> char option" where
  "escape_char c = (if c = dquote \<or> c = bslash \<or> c = CHR ''/'' then Some c
     else if c = CHR ''b'' then Some (CHR 0x08) else if c = CHR ''f'' then Some (CHR 0x0C)
     else if c = CHR ''n'' then Some (CHR 0x0A) else if c = CHR ''r'' then Some (CHR 0x0D)
     else if c = CHR ''t'' then Some (CHR 0x09) else None)"

text \<open>After a backslash: the characters meant, and the rest of the text.\<close>

definition scan_escape :: "string \<Rightarrow> (string \<times> string) option" where
  "scan_escape s = (case s of
       [] \<Rightarrow> None
     | c # r \<Rightarrow> if c = CHR ''u'' then
           (case hex4 r of
              None \<Rightarrow> None
            | Some (n, r1) \<Rightarrow>
                if 0xd800 \<le> n \<and> n \<le> 0xdbff then
                  (case low_surrogate r1 of
                     Some (m, r2) \<Rightarrow> Some (utf8 (0x10000 + (n - 0xd800) * 1024 + (m - 0xdc00)), r2)
                   | None \<Rightarrow> Some (utf8 n, r1))
                else Some (utf8 n, r1))
         else (case escape_char c of Some x \<Rightarrow> Some ([x], r) | None \<Rightarrow> None))"

lemma hex4_shorter: "hex4 s = Some (n, r) \<Longrightarrow> length r < length s"
  by (cases s rule: hex4.cases) (auto split: option.splits)

lemma low_surrogate_shorter: "low_surrogate s = Some (n, r) \<Longrightarrow> length r < length s"
  by (auto simp: low_surrogate_def dest!: hex4_shorter split: list.splits if_splits option.splits)

lemma scan_escape_shorter: "scan_escape s = Some (t, r) \<Longrightarrow> length r < length s"
  by (auto simp: scan_escape_def dest!: hex4_shorter low_surrogate_shorter split: list.splits if_splits option.splits)

text \<open>The string that begins after an opening quote, and the text after its closing quote.\<close>

function scan_string :: "string \<Rightarrow> (string \<times> string) option" where
  "scan_string [] = None"
| "scan_string (c # cs) =
     (if c = dquote then Some ([], cs)
      else if c = bslash then
        (case scan_escape cs of
           None \<Rightarrow> None
         | Some (t, r) \<Rightarrow> map_option (\<lambda>(u, r'). (t @ u, r')) (scan_string r))
      else if of_char c < (0x20 :: nat) then None
      else map_option (\<lambda>(u, r'). (c # u, r')) (scan_string cs))"
  by pat_completeness auto
termination by (relation "measure length") (auto dest: scan_escape_shorter)

lemma scan_string_shorter: "scan_string s = Some (t, r) \<Longrightarrow> length r < length s"
  by (induction s arbitrary: t r rule: scan_string.induct)
     (auto dest: scan_escape_shorter split: if_splits option.splits, fastforce dest: scan_escape_shorter)

subsection \<open>Numbers\<close>

text \<open>The regular expression of the decoder: an integer part, a fraction, an exponent.\<close>

definition sign_part :: "string \<Rightarrow> string \<times> string" where
  "sign_part s = (case s of c # r \<Rightarrow> if c = CHR ''-'' then ([c], r) else ([], s) | [] \<Rightarrow> ([], s))"

definition int_part :: "string \<Rightarrow> string \<times> string" where
  "int_part s = (case s of
       [] \<Rightarrow> ([], [])
     | c # r \<Rightarrow> if c = CHR ''0'' then ([c], r) else (takeWhile is_dec s, dropWhile is_dec s))"

definition frac_part :: "string \<Rightarrow> string \<times> string" where
  "frac_part s = (case s of
       c # d # r \<Rightarrow> if c = CHR ''.'' \<and> is_dec d then (c # takeWhile is_dec (d # r), dropWhile is_dec (d # r)) else ([], s)
     | _ \<Rightarrow> ([], s))"

definition exp_part :: "string \<Rightarrow> string \<times> string" where
  "exp_part s = (case s of
       c # r \<Rightarrow> if c = CHR ''e'' \<or> c = CHR ''E'' then
           (let sg = (case r of d # _ \<Rightarrow> if d = CHR ''+'' \<or> d = CHR ''-'' then [d] else [] | [] \<Rightarrow> []);
                r' = drop (length sg) r
            in if takeWhile is_dec r' = [] then ([], s) else (c # sg @ takeWhile is_dec r', dropWhile is_dec r'))
         else ([], s)
     | [] \<Rightarrow> ([], s))"

definition scan_number :: "string \<Rightarrow> (pyval \<times> string) option" where
  "scan_number s =
     (let (sg, r) = sign_part s; (ip, r1) = int_part r; (fp, r2) = frac_part r1; (ep, r3) = exp_part r2
      in if ip = [] then None
         else if fp = [] \<and> ep = [] then Some (PInt ((if sg = [] then 1 else - 1) * int (dec_value ip)), r3)
         else (case read_float (sg @ ip @ fp @ ep) of Inr x \<Rightarrow> Some (PFloat x, r3) | Inl e \<Rightarrow> None))"

subsection \<open>Values\<close>

definition skip_ws :: "string \<Rightarrow> string" where
  "skip_ws s = dropWhile (\<lambda>c. c = CHR '' '' \<or> c = CHR 0x09 \<or> c = CHR 0x0A \<or> c = CHR 0x0D) s"

definition literals :: "(string \<times> pyval) list" where
  "literals = [(''null'', PNone), (''true'', PBool True), (''false'', PBool False), (''NaN'', PFloat NaN),
     (''Infinity'', PFloat (Infty False)), (''-Infinity'', PFloat (Infty True))]"

fun scan_literal :: "(string \<times> pyval) list \<Rightarrow> string \<Rightarrow> (pyval \<times> string) option" where
  "scan_literal [] s = None"
| "scan_literal ((w, v) # lits) s = (if take (length w) s = w then Some (v, drop (length w) s) else scan_literal lits s)"

datatype scan = Tired | Bad | Got pyval string

definition scanned :: "(pyval \<times> string) option \<Rightarrow> scan" where
  "scanned x = (case x of None \<Rightarrow> Bad | Some (v, r) \<Rightarrow> Got v r)"

text \<open>The value at the start of a text, and the members of an object after the quote of the next key.\<close>

fun parse_val :: "nat \<Rightarrow> string \<Rightarrow> scan" and parse_members :: "nat \<Rightarrow> pydict \<Rightarrow> string \<Rightarrow> scan" where
  "parse_val 0 s = Tired"
| "parse_val (Suc n) s = (case s of
       [] \<Rightarrow> Bad
     | c # r \<Rightarrow>
         if c = dquote then (case scan_string r of None \<Rightarrow> Bad | Some (t, r') \<Rightarrow> Got (PStr t) r')
         else if c = CHR ''{'' then
           (case skip_ws r of
              [] \<Rightarrow> Bad
            | c1 # r1 \<Rightarrow> if c1 = CHR ''}'' then Got (PDict []) r1
                else if c1 = dquote then parse_members n [] r1 else Bad)
         else (case scan_literal literals s of Some (v, r') \<Rightarrow> Got v r' | None \<Rightarrow> scanned (scan_number s)))"
| "parse_members 0 d s = Tired"
| "parse_members (Suc n) d s = (case scan_string s of
       None \<Rightarrow> Bad
     | Some (k, r) \<Rightarrow> (case skip_ws r of
           [] \<Rightarrow> Bad
         | c # r1 \<Rightarrow> if c \<noteq> CHR '':'' then Bad
             else (case parse_val n (skip_ws r1) of
                 Got v r2 \<Rightarrow> (case skip_ws r2 of
                     [] \<Rightarrow> Bad
                   | c2 # r3 \<Rightarrow>
                       if c2 = CHR ''}'' then Got (PDict (dput (KS k) v d)) r3
                       else if c2 = CHR '','' then
                         (case skip_ws r3 of
                            [] \<Rightarrow> Bad
                          | c4 # r4 \<Rightarrow> if c4 = dquote then parse_members n (dput (KS k) v d) r4 else Bad)
                       else Bad)
               | x \<Rightarrow> x)))"

definition json_loads :: "string \<Rightarrow> pyval res" where
  "json_loads s = (case parse_val (Suc (length s)) (skip_ws s) of
       Got v r \<Rightarrow> if skip_ws r = [] then Inr v else Inl ValueError
     | _ \<Rightarrow> Inl ValueError)"

subsection \<open>The fuel suffices\<close>

lemma skip_ws_shorter: "length (skip_ws s) \<le> length s"
  by (simp add: skip_ws_def length_dropWhile_le)

lemma skip_ws_Cons: "skip_ws s = c # r \<Longrightarrow> length r < length s"
  using skip_ws_shorter [of s] by simp

lemma scan_literal_shorter:
  "scan_literal lits s = Some (v, r) \<Longrightarrow> \<forall>(w, v) \<in> set lits. w \<noteq> [] \<Longrightarrow> s \<noteq> [] \<Longrightarrow> length r < length s"
  by (induction lits s rule: scan_literal.induct) (auto split: if_splits)

lemma parts_shorter:
  "int_part s = (a, r) \<Longrightarrow> length a + length r = length s"
  "frac_part s = (a, r) \<Longrightarrow> length a + length r = length s"
  "exp_part s = (a, r) \<Longrightarrow> length a + length r = length s"
proof -
  have td: "length (takeWhile P xs) + length (dropWhile P xs) = length xs" for P and xs :: string
    by (metis length_append takeWhile_dropWhile_id)
  show "int_part s = (a, r) \<Longrightarrow> length a + length r = length s"
    using td [of is_dec s] by (auto simp: int_part_def split: list.splits if_splits)
  show "frac_part s = (a, r) \<Longrightarrow> length a + length r = length s"
    using td [of is_dec "tl s"] by (auto simp: frac_part_def split: list.splits if_splits)
  show "exp_part s = (a, r) \<Longrightarrow> length a + length r = length s"
    using td [of is_dec "tl s"] td [of is_dec "tl (tl s)"]
    by (auto simp: exp_part_def Let_def split: list.splits if_splits)
qed

lemma scan_number_shorter: "scan_number s = Some (v, r) \<Longrightarrow> length r < length s"
proof -
  assume n: "scan_number s = Some (v, r)"
  obtain sg t where sg: "sign_part s = (sg, t)" by (metis surj_pair)
  obtain ip r1 where ip: "int_part t = (ip, r1)" by (metis surj_pair)
  obtain fp r2 where fp: "frac_part r1 = (fp, r2)" by (metis surj_pair)
  obtain ep r3 where ep: "exp_part r2 = (ep, r3)" by (metis surj_pair)
  have "length sg + length t = length s" using sg by (auto simp: sign_part_def split: list.splits if_splits)
  moreover have "scan_number s = (if ip = [] then None
      else if fp = [] \<and> ep = [] then Some (PInt ((if sg = [] then 1 else - 1) * int (dec_value ip)), r3)
      else (case read_float (sg @ ip @ fp @ ep) of Inr x \<Rightarrow> Some (PFloat x, r3) | Inl e \<Rightarrow> None))"
    unfolding scan_number_def sg Let_def prod.case ip fp ep by simp
  then have "ip \<noteq> []" "r = r3" using n by (auto split: if_splits sum.splits)
  ultimately show ?thesis
    using parts_shorter(1) [OF ip] parts_shorter(2) [OF fp] parts_shorter(3) [OF ep] by (cases ip) auto
qed

lemma parse_shorter:
  "parse_val n s = Got v r \<Longrightarrow> length r < length s"
  "parse_members n d s = Got v r \<Longrightarrow> length r < length s"
proof (induction n s and n d s arbitrary: v r and v r rule: parse_val_parse_members.induct)
  case (2 n s)
  have lits: "\<forall>(w, v) \<in> set literals. w \<noteq> []" by (simp add: literals_def)
  show ?case
  proof (cases s)
    case (Cons c cs)
    show ?thesis
    proof (cases "c = dquote")
      case True
      then show ?thesis using 2(2) Cons by (auto dest: scan_string_shorter split: option.splits)
    next
      case nq: False
      show ?thesis
      proof (cases "c = CHR ''{''")
        case True
        show ?thesis
        proof (cases "skip_ws cs")
          case Nil
          then show ?thesis using 2(2) Cons True nq by simp
        next
          case (Cons c1 r1)
          then have "length r1 < length cs" by (rule skip_ws_Cons)
          moreover have "length r \<le> length r1"
            using 2(2) 2(1) [OF \<open>s = c # cs\<close> nq True Cons] \<open>s = c # cs\<close> Cons True nq
            by (auto split: if_splits)
          ultimately show ?thesis using \<open>s = c # cs\<close> by simp
        qed
      next
        case False
        then show ?thesis
          using 2(2) Cons nq scan_literal_shorter [OF _ lits, of s] scan_number_shorter [of s]
          by (auto simp: scanned_def split: option.splits)
      qed
    qed
  qed (use 2 in simp)
next
  case (4 n d s)
  obtain k r0 where k: "scan_string s = Some (k, r0)" using 4(3) by (auto split: option.splits)
  obtain c r1 where c: "skip_ws r0 = c # r1" "c = CHR '':''" using 4(3) k by (auto split: list.splits if_splits)
  obtain w r2 where w: "parse_val n (skip_ws r1) = Got w r2" using 4(3) k c by (auto split: scan.splits)
  obtain c2 r3 where c2: "skip_ws r2 = c2 # r3" using 4(3) k c w by (auto split: list.splits)
  have len: "length r3 < length s"
    using scan_string_shorter [OF k] skip_ws_Cons [OF c(1)] skip_ws_shorter [of r1] 4(1) [OF k _ c(1) _ w] c(2)
      skip_ws_Cons [OF c2] by fastforce
  show ?case
  proof (cases "c2 = CHR ''}''")
    case True
    then show ?thesis using 4(3) k c w c2 len by auto
  next
    case False
    then obtain c4 r4 where c4: "c2 = CHR '',''" "skip_ws r3 = c4 # r4" "c4 = dquote"
        "parse_members n (dput (KS k) w d) r4 = Got v r"
      using 4(3) k c w c2 by (auto split: list.splits if_splits)
    have "length r < length r4" using 4(2) [OF k _ c(1) _ w c2 False c4(1) c4(2,3)] c(2) c4(4) by simp
    then show ?thesis using skip_ws_Cons [OF c4(2)] len by simp
  qed
qed simp_all

lemma parse_not_tired:
  "length s < n \<Longrightarrow> parse_val n s \<noteq> Tired"
  "length s < n \<Longrightarrow> parse_members n d s \<noteq> Tired"
proof (induction n s and n d s rule: parse_val_parse_members.induct)
  case (2 n s)
  show ?case
  proof (cases s)
    case (Cons c cs)
    have "parse_members n [] r1 \<noteq> Tired" if "c \<noteq> dquote" "c = CHR ''{''" "skip_ws cs = c1 # r1" "c1 \<noteq> CHR ''}''" "c1 = dquote" for c1 r1
      using 2(1) [OF Cons that] skip_ws_Cons [OF that(3)] 2(2) Cons by simp
    then show ?thesis using Cons by (auto simp: scanned_def split: list.split option.split)
  qed simp
next
  case (4 n d s)
  have v: "parse_val n (skip_ws r1) \<noteq> Tired" if "scan_string s = Some (k, r)" "skip_ws r = c # r1" "\<not> c \<noteq> CHR '':''" for k r c r1
    using 4(1) [OF that(1) refl that(2,3)] scan_string_shorter [OF that(1)] skip_ws_Cons [OF that(2)] skip_ws_shorter [of r1] 4(3)
    by simp
  have m: "parse_members n (dput (KS k) w d) r4 \<noteq> Tired"
    if "scan_string s = Some (k, r)" "skip_ws r = c # r1" "\<not> c \<noteq> CHR '':''" "parse_val n (skip_ws r1) = Got w r2"
      "skip_ws r2 = c2 # r3" "c2 \<noteq> CHR ''}''" "c2 = CHR '',''" "skip_ws r3 = c4 # r4" "c4 = dquote" for k r c r1 w r2 c2 r3 c4 r4
    using 4(2) [OF that(1) refl that(2,3,4,5,6,7,8,9)] scan_string_shorter [OF that(1)] skip_ws_Cons [OF that(2)]
      skip_ws_shorter [of r1] parse_shorter(1) [OF that(4)] skip_ws_Cons [OF that(5)] skip_ws_Cons [OF that(8)] 4(3) by simp
  show ?case using v m by (auto split: list.split option.split scan.split)
qed simp_all

text \<open>The fuel that \<open>json_loads\<close> gives is never used up: an error means that the text is not one value.\<close>

theorem json_loads_not_tired: "parse_val (Suc (length s)) (skip_ws s) \<noteq> Tired"
  by (rule parse_not_tired) (simp add: skip_ws_shorter le_imp_less_Suc)

end
