(* ===== verification/NumberText.thy ===== *)
theory NumberText
  imports FloatRound JsonLoads
begin

text \<open>
  \<^verbatim>\<open>float(repr(x)) == x\<close>: \<open>read_float\<close>, and with it the number scanner of the JSON decoder, reads back every
  number that \<open>float_repr\<close> and \<open>int_str\<close> write.
\<close>

subsection \<open>Reading decimal text\<close>

lemma digits_iff: "plain_digits 10 s \<longleftrightarrow> s \<noteq> [] \<and> list_all is_dec s"
  by (simp add: plain_digits_def list_all_iff is_dec_def)

lemma value_of_append: "value_of b (xs @ ys) = value_of b xs * b ^ length ys + value_of b ys"
proof (induction ys rule: rev_induct)
  case (snoc y ys)
  have "value_of b (zs @ [y]) = value_of b zs * b + y" for zs by (simp add: value_of_def)
  then show ?case using snoc by (simp add: distrib_right flip: append_assoc)
qed (simp add: value_of_def)

lemma dec_value_append: "dec_value (xs @ ys) = dec_value xs * 10 ^ length ys + dec_value ys"
  by (simp add: dec_value_def value_of_append)

lemma dec_value_zeros [simp]: "dec_value (replicate n (CHR ''0'')) = 0"
proof (induction n)
  case (Suc n)
  have "dec_value [CHR ''0''] = 0" by code_simp
  then show ?case using Suc dec_value_append [of "[CHR ''0'']" "replicate n (CHR ''0'')"] by simp
qed (simp add: dec_value_def value_of_def)

lemma dec_value_Nil [simp]: "dec_value [] = 0"
  by (simp add: dec_value_def value_of_def)

lemma dec_value_dec_str [simp]: "dec_value (dec_str n) = n"
  by (simp add: dec_value_def dec_str_value)

lemma is_dec_zero [simp]: "is_dec (CHR ''0'')"
  by code_simp

lemma is_dec_zeros [simp]: "list_all is_dec (replicate n (CHR ''0''))"
  by (simp add: list_all_length)

lemma dec_value_lead [simp]: "dec_value (CHR ''0'' # s) = dec_value s"
  using dec_value_append [of "''0''" s] dec_value_zeros [of 1] by simp

lemma dec_str_digits [simp]: "list_all is_dec (dec_str n)" "dec_str n \<noteq> []"
  using dec_str_plain [of n] by (simp_all add: digits_iff)

lemma not_is_dec [simp]: "\<not> is_dec (CHR ''.'')" "\<not> is_dec (CHR ''e'')" "\<not> is_dec (CHR ''E'')"
    "\<not> is_dec (CHR ''-'')" "\<not> is_dec (CHR ''+'')"
  by (simp_all add: is_dec_def digit_in_def hexval_def)

definition stops :: "string \<Rightarrow> bool" where
  "stops rest \<longleftrightarrow> rest = [] \<or> \<not> is_dec (hd rest) \<and> hd rest \<noteq> CHR ''.'' \<and> hd rest \<noteq> CHR ''e'' \<and> hd rest \<noteq> CHR ''E''"

lemma take_digits:
  assumes "list_all is_dec ds" and "rest = [] \<or> \<not> is_dec (hd rest)"
  shows "takeWhile is_dec (ds @ rest) = ds" "dropWhile is_dec (ds @ rest) = rest"
  using assms by (induction ds; cases rest; simp)+

text \<open>
  The parts of a number: digits, a fraction or none, an exponent or none.
\<close>

definition with_frac :: "string \<Rightarrow> string" where
  "with_frac fd = (if fd = [] then [] else CHR ''.'' # fd)"

definition is_exp :: "string \<Rightarrow> int \<Rightarrow> bool" where
  "is_exp r e \<longleftrightarrow> r = [] \<and> e = 0 \<or>
     (\<exists>sg ed. r = CHR ''e'' # sg # ed \<and> plain_digits 10 ed \<and>
        (sg = CHR ''-'' \<and> e = - int (dec_value ed) \<or> sg = CHR ''+'' \<and> e = int (dec_value ed)))"

definition number_parts :: "string \<Rightarrow> string \<Rightarrow> string \<Rightarrow> int \<Rightarrow> bool" where
  "number_parts ip fd r e \<longleftrightarrow> list_all is_dec ip \<and> list_all is_dec fd \<and> ip \<noteq> [] \<and> is_exp r e"

definition parts_value :: "string \<Rightarrow> string \<Rightarrow> int \<Rightarrow> rat" where
  "parts_value ip fd e = of_nat (dec_value (ip @ fd)) * pow10 (e - int (length fd))"

lemma read_exponent_exp: "is_exp r e \<Longrightarrow> read_exponent r = Some e"
  by (auto simp: is_exp_def read_exponent_def)

lemma exp_head: "is_exp r e \<Longrightarrow> r = [] \<or> hd r = CHR ''e''"
  by (auto simp: is_exp_def)

lemma read_unsigned_parts:
  assumes "number_parts ip fd r e"
  shows "read_unsigned (ip @ with_frac fd @ r) = Some (parts_value ip fd e)"
proof -
  have a: "list_all is_dec ip" "list_all is_dec fd" "ip \<noteq> []" "is_exp r e" using assms by (auto simp: number_parts_def)
  have r: "r = [] \<or> \<not> is_dec (hd r)" "r = [] \<or> hd r \<noteq> CHR ''.''" using exp_head [OF a(4)] by auto
  have fr: "with_frac fd @ r = [] \<or> \<not> is_dec (hd (with_frac fd @ r))"
    using r(1) by (auto simp: with_frac_def)
  note whole = take_digits [OF a(1) fr] and part = take_digits [OF a(2) r(1)]
  have "(case with_frac fd @ r of
      c # r1 \<Rightarrow> if c = CHR ''.'' then (takeWhile is_dec r1, dropWhile is_dec r1) else ([], with_frac fd @ r)
    | [] \<Rightarrow> ([], with_frac fd @ r)) = (fd, r)"
    using part r(2) by (cases r) (auto simp: with_frac_def)
  then show ?thesis
    using a(3) read_exponent_exp [OF a(4)] by (simp add: read_unsigned_def whole parts_value_def)
qed

text \<open>The layout of digits as fixed or scientific notation keeps their value.\<close>

lemma zpad_value: "dec_value (zpad n s) = dec_value s"
  by (simp add: zpad_def dec_value_append)

lemma zpad_digits: "plain_digits 10 (zpad n (dec_str k))"
  by (simp add: zpad_def digits_iff)

lemma layout_parts:
  assumes "list_all is_dec ds" and "ds \<noteq> []" and "hd ds \<noteq> CHR ''0''"
  obtains ip fd r e where "layout 16 ds p = ip @ with_frac fd @ r" and "number_parts ip fd r e"
    and "length ip = 1 \<or> hd ip \<noteq> CHR ''0''" and "fd \<noteq> [] \<or> r \<noteq> []"
    and "parts_value ip fd e = of_nat (dec_value ds) * pow10 (p - int (length ds))"
proof -
  note defs = number_parts_def parts_value_def with_frac_def layout_def dec_value_append
  have exp0: "is_exp [] 0" by (simp add: is_exp_def)
  consider (low) "- 4 < p" "p \<le> 0" | (whole) "- 4 < p" "0 < p" "p \<le> 16" "int (length ds) \<le> p"
    | (mid) "- 4 < p" "0 < p" "p \<le> 16" "p < int (length ds)" | (sci) "p \<le> - 4 \<or> 16 < p" by linarith
  then show thesis
  proof cases
    case low
    show thesis
      by (rule that [of "''0''" "replicate (nat (- p)) (CHR ''0'') @ ds" "[]" 0])
         (use low assms exp0 in \<open>simp_all add: defs\<close>)
  next
    case whole
    define k where "k = nat p - length ds"
    have k: "p = int (length ds) + int k" using whole by (simp add: k_def)
    have p10: "pow10 (int k) = pow10 (int k + 1) * pow10 (- 1)" using pow10_add [of "int k + 1" "- 1"] by simp
    have "dec_value (ds @ replicate k (CHR ''0'') @ ''0'') = dec_value ds * 10 ^ (k + 1)"
      using dec_value_zeros [of "Suc k"] by (simp add: dec_value_append replicate_append_same)
    then have v: "parts_value (ds @ replicate k (CHR ''0'')) ''0'' 0 = of_nat (dec_value ds) * pow10 (p - int (length ds))"
      using p10 by (simp add: parts_value_def k pow10_def [of "int k + 1"] nat_add_distrib)
    show thesis
      by (rule that [of "ds @ replicate k (CHR ''0'')" "''0''" "[]" 0])
         (use whole assms exp0 v in \<open>simp_all add: number_parts_def with_frac_def layout_def k_def\<close>)
  next
    case mid
    have v: "dec_value (take (nat p) ds @ drop (nat p) ds) = dec_value ds" by simp
    show thesis
      by (rule that [of "take (nat p) ds" "drop (nat p) ds" "[]" 0])
         (use mid assms exp0 in \<open>auto simp: number_parts_def parts_value_def with_frac_def layout_def list_all_iff
            of_nat_diff dest: in_set_takeD in_set_dropD\<close>)
  next
    case sci
    define r where "r = ''e'' @ (if p - 1 < 0 then ''-'' else ''+'') @ zpad 2 (dec_str (nat \<bar>p - 1\<bar>))"
    have r: "is_exp r (p - 1)" using zpad_digits by (auto simp: r_def is_exp_def zpad_value)
    obtain c cs where ds: "ds = c # cs" using assms(2) by (cases ds) auto
    show thesis
      by (rule that [of "[c]" cs r "p - 1"])
         (use sci assms r ds in \<open>auto simp: number_parts_def parts_value_def with_frac_def layout_def Let_def r_def diff_diff_eq\<close>)
  qed
qed

text \<open>The shortest decimal, its trailing zeros moved into the exponent.\<close>

lemma digits_of_head: "0 < n \<Longrightarrow> hd (digits_of 10 n) \<noteq> 0"
proof (induction n rule: less_induct)
  case (less n)
  show ?case
  proof (cases "n < 10")
    case False
    then have "0 < n div 10" "n div 10 < n" by simp_all
    then show ?thesis using less.IH [of "n div 10"] False by simp
  qed (use less.prems in simp)
qed

lemma dec_str_head: "0 < n \<Longrightarrow> hd (dec_str n) \<noteq> CHR ''0''"
proof -
  assume n: "0 < n"
  have "hd (digits_of 10 n) \<in> set (digits_of 10 n)" by simp
  then have "hd (digits_of 10 n) < 10" by (rule digits_of_less [rotated]) simp
  then have "hexdig (hd (digits_of 10 n)) \<noteq> hexdig 0" using digits_of_head [OF n] by (simp add: hexdig_inj)
  then show ?thesis by (simp add: dec_str_def hd_map hexdig_chars)
qed

lemma strip_zeros_split: "\<exists>k. s = strip_zeros s @ replicate k (CHR ''0'')"
proof -
  let ?t = "takeWhile (\<lambda>c. c = CHR ''0'') (rev s)"
  have "?t = replicate (length ?t) (CHR ''0'')"
    by (rule replicate_length_same [symmetric]) (auto dest: set_takeWhileD)
  moreover have "s = strip_zeros s @ rev ?t"
    unfolding strip_zeros_def by (metis rev_append rev_rev_ident takeWhile_dropWhile_id)
  ultimately show ?thesis by (metis rev_replicate)
qed

lemma pos_repr_parts:
  assumes "fl q = Fin q" and "0 < q"
  obtains ip fd r e where "pos_repr q = ip @ with_frac fd @ r" and "number_parts ip fd r e"
    and "length ip = 1 \<or> hd ip \<noteq> CHR ''0''" and "fd \<noteq> [] \<or> r \<noteq> []"
    and "fl (parts_value ip fd e) = Fin q"
proof -
  obtain d n where dn: "shortest q [1..<18] = (d, n)" by fastforce
  have d: "fl (of_int d * pow10 (ilog10 q - int n + 1)) = Fin q" "0 < d"
    using shortest_reads [OF assms dn] by auto
  define s where "s = dec_str (nat d)"
  define ds where "ds = strip_zeros s"
  obtain k where k: "s = ds @ replicate k (CHR ''0'')" using strip_zeros_split by (auto simp: ds_def)
  have s: "list_all is_dec s" "hd s \<noteq> CHR ''0''" "s \<noteq> []" using d(2) dec_str_head by (auto simp: s_def)
  have ds: "list_all is_dec ds" "ds \<noteq> []" "hd ds \<noteq> CHR ''0''"
    using s unfolding k by (cases k; cases ds; simp)+
  define p where "p = ilog10 q + 1 + (int (length s) - int n)"
  have "int (nat d) = int (dec_value ds * 10 ^ k)"
    using dec_value_dec_str [of "nat d"] by (simp add: s_def [symmetric] k dec_value_append)
  then have "d = int (dec_value ds * 10 ^ k)" using d(2) by simp
  then have "of_int d = of_nat (dec_value ds) * pow10 (int k)" by simp
  moreover have "int k + (ilog10 q - int n + 1) = p - int (length ds)" by (simp add: p_def k)
  ultimately have v: "of_int d * pow10 (ilog10 q - int n + 1) = of_nat (dec_value ds) * pow10 (p - int (length ds))"
    using pow10_add [of "int k" "ilog10 q - int n + 1"] by (simp add: mult.assoc)
  have "pos_repr q = layout 16 ds p" 
    unfolding pos_repr_def dn by (simp add: s_def ds_def p_def Let_def)
  then show thesis using that layout_parts [OF ds, of p] d(1) v by metis
qed

subsection \<open>Reading what was printed\<close>

definition plain_char :: "char \<Rightarrow> bool" where
  "plain_char c \<longleftrightarrow> is_dec c \<or> c \<in> {CHR ''.'', CHR ''e'', CHR ''-'', CHR ''+''}"

lemma plain_not_space: "plain_char c \<Longrightarrow> \<not> is_space c"
  by (auto simp: plain_char_def is_dec_def digit_not_space) (simp_all add: is_space_def)

lemma parts_plain:
  "number_parts ip fd r e \<Longrightarrow> c \<in> set (ip @ with_frac fd @ r) \<Longrightarrow> plain_char c"
  by (auto simp: number_parts_def with_frac_def is_exp_def plain_char_def list_all_iff plain_digits_def is_dec_def
        split: if_splits)

lemma dec_char: "is_dec c \<Longrightarrow> c \<noteq> CHR ''-'' \<and> c \<noteq> CHR ''+'' \<and> lower_char c \<noteq> CHR ''n'' \<and> lower_char c \<noteq> CHR ''i''"
  by (auto simp: is_dec_def digit_in_def hexval_def lower_char_def Let_def char_of_eq_iff split: if_splits)

lemma read_float_parts:
  assumes "number_parts ip fd r e" and "fl (parts_value ip fd e) = Fin q"
  shows "read_float (ip @ with_frac fd @ r) = Inr (Fin q)"
    and "read_float (CHR ''-'' # ip @ with_frac fd @ r) = Inr (if q = 0 then NegZero else Fin (- q))"
proof -
  define t where "t = ip @ with_frac fd @ r"
  obtain c cs where ip: "ip = c # cs" "is_dec c" using assms(1) by (cases ip) (auto simp: number_parts_def)
  have sp: "strip_chars is_space t = t" "strip_chars is_space (CHR ''-'' # t) = CHR ''-'' # t"
    using parts_plain [OF assms(1)] plain_not_space by (auto simp: t_def is_space_def intro!: strip_chars_none)
  have low: "map lower_char t \<noteq> ''nan''" "map lower_char t \<noteq> ''inf''" "map lower_char t \<noteq> ''infinity''"
    using ip dec_char [of c] by (auto simp: t_def)
  have sign: "read_sign t = (1, t)" using ip dec_char [of c] by (simp add: t_def)
  note un = read_unsigned_parts [OF assms(1), folded t_def]
  show "read_float (ip @ with_frac fd @ r) = Inr (Fin q)"
    using sp(1) low sign un assms(2) by (simp add: read_float_def flip: t_def)
  show "read_float (CHR ''-'' # ip @ with_frac fd @ r) = Inr (if q = 0 then NegZero else Fin (- q))"
    using sp(2) low un assms(2) by (simp add: read_float_def flip: t_def)
qed

subsection \<open>The number scanner\<close>

lemma int_part_digits:
  assumes "list_all is_dec ip" "ip \<noteq> []" "length ip = 1 \<or> hd ip \<noteq> CHR ''0''" "rest = [] \<or> \<not> is_dec (hd rest)"
  shows "int_part (ip @ rest) = (ip, rest)"
proof -
  obtain c cs where ip: "ip = c # cs" using assms(2) by (cases ip) auto
  show ?thesis using take_digits [OF assms(1,4)] assms(3) ip by (auto simp: int_part_def)
qed

lemma frac_part_digits:
  assumes "list_all is_dec fd" "rest = [] \<or> \<not> is_dec (hd rest) \<and> hd rest \<noteq> CHR ''.''"
  shows "frac_part (with_frac fd @ rest) = (with_frac fd, rest)"
proof (cases fd)
  case Nil
  then show ?thesis using assms(2) by (cases rest) (auto simp: with_frac_def frac_part_def split: list.split)
next
  case (Cons c cs)
  then show ?thesis using take_digits [OF assms(1), of rest] assms by (auto simp: with_frac_def frac_part_def)
qed

lemma exp_part_exp:
  assumes "is_exp r e" "stops rest"
  shows "exp_part (r @ rest) = (r, rest)"
proof -
  consider "r = []" | sg ed where "r = CHR ''e'' # sg # ed" "plain_digits 10 ed" "sg = CHR ''-'' \<or> sg = CHR ''+''"
    using assms(1) by (auto simp: is_exp_def)
  then show ?thesis
  proof cases
    case 1
    then show ?thesis using assms(2) by (cases rest) (auto simp: exp_part_def stops_def)
  next
    case 2
    then have "takeWhile is_dec (ed @ rest) = ed" "dropWhile is_dec (ed @ rest) = rest" "ed \<noteq> []"
      using take_digits [of ed rest] assms(2) by (auto simp: digits_iff stops_def)
    then show ?thesis using 2(1,3) by (auto simp: exp_part_def)
  qed
qed

lemma scan_number_parts:
  assumes "number_parts ip fd r e" "length ip = 1 \<or> hd ip \<noteq> CHR ''0''" "stops rest" "sg = [] \<or> sg = ''-''"
  shows "scan_number (sg @ ip @ with_frac fd @ r @ rest) =
    (if fd = [] \<and> r = [] then Some (PInt ((if sg = [] then 1 else - 1) * int (dec_value ip)), rest)
     else (case read_float (sg @ ip @ with_frac fd @ r) of Inr x \<Rightarrow> Some (PFloat x, rest) | Inl e \<Rightarrow> None))"
proof -
  have a: "list_all is_dec ip" "list_all is_dec fd" "ip \<noteq> []" "is_exp r e" using assms(1) by (auto simp: number_parts_def)
  have after_exp: "r @ rest = [] \<or> \<not> is_dec (hd (r @ rest)) \<and> hd (r @ rest) \<noteq> CHR ''.''"
    using exp_head [OF a(4)] assms(3) by (cases r) (auto simp: stops_def)
  then have after_frac: "with_frac fd @ r @ rest = [] \<or> \<not> is_dec (hd (with_frac fd @ r @ rest))"
    by (auto simp: with_frac_def)
  have "sign_part (sg @ ip @ with_frac fd @ r @ rest) = (sg, ip @ with_frac fd @ r @ rest)"
    using a(1,3) assms(4) dec_char by (cases ip) (auto simp: sign_part_def)
  moreover have "with_frac fd = [] \<longleftrightarrow> fd = []" by (simp add: with_frac_def)
  ultimately show ?thesis
    using a(3) by (simp add: scan_number_def int_part_digits [OF a(1,3) assms(2) after_frac] frac_part_digits [OF a(2) after_exp]
        exp_part_exp [OF a(4) assms(3)])
qed

lemma scan_int_str: "stops rest \<Longrightarrow> scan_number (int_str i @ rest) = Some (PInt i, rest)"
proof -
  assume rest: "stops rest"
  have "scan_number (sg @ dec_str n @ rest) = Some (PInt ((if sg = [] then 1 else - 1) * int n), rest)"
    if "sg = [] \<or> sg = ''-''" for sg n
  proof -
    have "number_parts (dec_str n) [] [] 0" by (simp add: number_parts_def is_exp_def)
    moreover have "dec_str 0 = ''0''" by (simp add: dec_str_def hexdig_chars)
    then have "length (dec_str n) = 1 \<or> hd (dec_str n) \<noteq> CHR ''0''"
      using dec_str_head [of n] by (cases "n = 0") simp_all
    ultimately show ?thesis using scan_number_parts [of "dec_str n" "[]" "[]" 0, OF _ _ rest that] by (simp add: with_frac_def)
  qed
  from this [of "[]" "nat i"] this [of "''-''" "nat (- i)"] show ?thesis by (simp add: int_str_def)
qed

text \<open>Every number that the encoder writes scans as the float it was written for.\<close>

fun is_number :: "pyfloat \<Rightarrow> bool" where
  "is_number (Infty b) = False"
| "is_number NaN = False"
| "is_number x = True"

lemma zero_parts: "number_parts ''0'' ''0'' [] 0" "fl (parts_value ''0'' ''0'' 0) = Fin 0"
  by (simp_all add: number_parts_def is_exp_def parts_value_def fl_def)

lemma scan_float_repr:
  assumes "double x" "is_number x" "stops rest"
  shows "scan_number (float_repr x @ rest) = Some (PFloat x, rest)"
proof -
  have go: "scan_number (sg @ (ip @ with_frac fd @ r) @ rest) = Some (PFloat y, rest)"
    if "number_parts ip fd r e" "length ip = 1 \<or> hd ip \<noteq> CHR ''0''" "fd \<noteq> [] \<or> r \<noteq> []" "sg = [] \<or> sg = ''-''"
      "read_float (sg @ ip @ with_frac fd @ r) = Inr y" for ip fd r e sg y
    using scan_number_parts [OF that(1,2) assms(3) that(4)] that(3,5) by auto
  have pos: "\<exists>ip fd r e. pos_repr q = ip @ with_frac fd @ r \<and> number_parts ip fd r e \<and>
      (length ip = 1 \<or> hd ip \<noteq> CHR ''0'') \<and> (fd \<noteq> [] \<or> r \<noteq> []) \<and> fl (parts_value ip fd e) = Fin q"
    if "fl q = Fin q" "0 < q" for q
    using pos_repr_parts [OF that] by metis
  note zero = go [OF zero_parts(1)] and zero_read = read_float_parts [OF zero_parts]
  show ?thesis
  proof (cases x)
    case NegZero
    then show ?thesis using zero [of "''-''"] zero_read(2) by (simp add: float_repr_def with_frac_def)
  next
    case (Fin q)
    consider "q = 0" | "0 < q" | "q < 0" by linarith
    then show ?thesis
    proof cases
      case 1
      then show ?thesis using zero [of "[]"] zero_read(1) Fin by (simp add: float_repr_def with_frac_def)
    next
      case 2
      then obtain ip fd r e where p: "pos_repr q = ip @ with_frac fd @ r" "number_parts ip fd r e"
          "length ip = 1 \<or> hd ip \<noteq> CHR ''0''" "fd \<noteq> [] \<or> r \<noteq> []" "fl (parts_value ip fd e) = Fin q"
        using pos [of q] double_abs [of q] assms(1) Fin by auto
      then show ?thesis using go [OF p(2,3,4), of "[]"] read_float_parts(1) [OF p(2,5)] 2 Fin by (simp add: float_repr_def)
    next
      case 3
      then obtain ip fd r e where p: "pos_repr (- q) = ip @ with_frac fd @ r" "number_parts ip fd r e"
          "length ip = 1 \<or> hd ip \<noteq> CHR ''0''" "fd \<noteq> [] \<or> r \<noteq> []" "fl (parts_value ip fd e) = Fin (- q)"
        using pos [of "- q"] double_abs [of q] assms(1) Fin by auto
      then show ?thesis using go [OF p(2,3,4), of "''-''"] read_float_parts(2) [OF p(2,5)] 3 Fin by (simp add: float_repr_def)
    qed
  qed (use assms(2) in simp_all)
qed

end
