(* ===== verification/JsonRound.thy ===== *)
theory JsonRound
  imports NumberText
begin

text \<open>
  The decoder reads back what the encoder writes: strings, numbers and whole values.
\<close>

subsection \<open>Strings\<close>

definition scalar :: "nat \<Rightarrow> bool" where
  "scalar n \<longleftrightarrow> n < 0xd800 \<or> 0xe000 \<le> n \<and> n < 0x110000"

text \<open>Well-formed UTF-8.\<close>

definition text_ok :: "string \<Rightarrow> bool" where
  "text_ok s \<longleftrightarrow> list_all scalar (code_points (map of_char s)) \<and> concat (map utf8 (code_points (map of_char s))) = s"

lemma ascii_text_ok: "list_all (\<lambda>c. of_char c < (0x80 :: nat)) s \<Longrightarrow> text_ok s"
proof -
  assume a: "list_all (\<lambda>c. of_char c < (0x80 :: nat)) s"
  then have cps: "code_points (map of_char s) = map of_char s" by (induction s) auto
  have "concat (map utf8 (map of_char s)) = s" using a by (induction s) (auto simp: utf8_def)
  then show ?thesis using a by (auto simp: text_ok_def cps scalar_def list_all_iff)
qed

definition four :: "nat \<Rightarrow> string" where
  "four n = map hexdig [n div 4096 mod 16, n div 256 mod 16, n div 16 mod 16, n mod 16]"

lemma u_escape_four: "u_escape n = bslash # CHR ''u'' # four n"
  by (simp add: u_escape_def four_def)

lemma four_value: "(n :: nat) < 65536 \<Longrightarrow> n div 4096 mod 16 * 4096 + n div 256 mod 16 * 256 + n div 16 mod 16 * 16 + n mod 16 = n"
proof -
  assume n: "n < 65536"
  have d: "n div 4096 = n div 16 div 16 div 16" "n div 256 = n div 16 div 16"
    by (simp_all add: div_mult2_eq [symmetric])
  have "n div 16 div 16 div 16 mod 16 = n div 16 div 16 div 16" using n by simp
  moreover have "n div 16 div 16 = 16 * (n div 16 div 16 div 16) + n div 16 div 16 mod 16" by simp
  moreover have "n div 16 = 16 * (n div 16 div 16) + n div 16 mod 16" by simp
  moreover have "n = 16 * (n div 16) + n mod 16" by simp
  ultimately show ?thesis unfolding d by linarith
qed

lemma hex4_four: "n < 65536 \<Longrightarrow> hex4 (four n @ t) = Some (n, t)"
  using four_value [of n] by (simp add: four_def)

lemma scan_u_escape:
  assumes "n < 65536" and "0xd800 \<le> n \<longrightarrow> \<not> n \<le> 0xdbff"
  shows "scan_string (u_escape n @ t) = map_option (\<lambda>(u, r). (utf8 n @ u, r)) (scan_string t)"
proof -
  have "scan_escape (CHR ''u'' # four n @ t) = Some (utf8 n, t)"
    using hex4_four [OF assms(1)] assms(2) by (auto simp: scan_escape_def)
  then show ?thesis by (simp add: u_escape_four bslash_def dquote_def)
qed

lemma scan_surrogates:
  assumes "hi < 1024" and "lo < 1024"
  shows "scan_string (u_escape (0xd800 + hi) @ u_escape (0xdc00 + lo) @ t) =
    map_option (\<lambda>(u, r). (utf8 (0x10000 + hi * 1024 + lo) @ u, r)) (scan_string t)"
proof -
  let ?hi = "0xd800 + hi" and ?lo = "0xdc00 + lo"
  have "low_surrogate (u_escape ?lo @ t) = Some (?lo, t)"
    using hex4_four [of ?lo t] assms(2) by (simp add: low_surrogate_def u_escape_four)
  then have "scan_escape (CHR ''u'' # four ?hi @ u_escape ?lo @ t) = Some (utf8 (0x10000 + hi * 1024 + lo), t)"
    using hex4_four [of ?hi "u_escape ?lo @ t"] assms by (simp add: scan_escape_def)
  then show ?thesis by (simp add: u_escape_four [of ?hi] bslash_def dquote_def)
qed

lemma escaped_chars:
  "char_of (0x22 :: nat) = CHR 0x22" "char_of (0x5c :: nat) = CHR 0x5C" "char_of (0x08 :: nat) = CHR 0x08"
  "char_of (0x09 :: nat) = CHR 0x09" "char_of (0x0a :: nat) = CHR 0x0A" "char_of (0x0c :: nat) = CHR 0x0C"
  "char_of (0x0d :: nat) = CHR 0x0D"
  by code_simp+

lemma scan_json_char:
  assumes "scalar n"
  shows "scan_string (json_char n @ t) = map_option (\<lambda>(u, r). (utf8 n @ u, r)) (scan_string t)"
proof (cases "n < 0x10000 \<and> (n < 0x20 \<or> 0x7e < n) \<and> n \<notin> {0x08, 0x09, 0x0a, 0x0c, 0x0d}")
  case True
  then have "json_char n = u_escape n" by (auto simp: json_char_def)
  then show ?thesis using scan_u_escape [of n t] True assms by (auto simp: scalar_def)
next
  case False
  show ?thesis
  proof (cases "n < 0x10000")
    case small: True
    have "(of_char (char_of n :: char) :: nat) = n" if "n \<le> 0x7e" using that by simp
    moreover have "n \<le> 0x7e" using False small by auto
    moreover have "char_of n = bslash \<longleftrightarrow> n = 0x5c" "char_of n = dquote \<longleftrightarrow> n = 0x22" if "n \<le> 0x7e"
      using that by (auto simp: bslash_def dquote_def char_of_eq_iff take_bit_eq_mod)
    ultimately show ?thesis
      using False small
      by (auto simp: json_char_def utf8_def bslash_def dquote_def scan_escape_def escape_char_def char_of_eq_iff escaped_chars)
  next
    case big: False
    define m where "m = n - 0x10000"
    have m: "m < 0x100000" "n = 0x10000 + m" using assms big by (auto simp: scalar_def m_def)
    have "json_char n = u_escape (0xd800 + m div 1024 mod 1024) @ u_escape (0xdc00 + m mod 1024)"
      using big by (simp add: json_char_def m_def Let_def)
    moreover have "m div 1024 mod 1024 = m div 1024" using m(1) by simp
    moreover have "0x10000 + m div 1024 * 1024 + m mod 1024 = n" using m(2) by simp
    ultimately show ?thesis using scan_surrogates [of "m div 1024" "m mod 1024" t] m(1) by (simp only: append_assoc)
  qed
qed

lemma scan_json_chars:
  "list_all scalar cps \<Longrightarrow> scan_string (concat (map json_char cps) @ t) = map_option (\<lambda>(u, r). (concat (map utf8 cps) @ u, r)) (scan_string t)"
proof (induction cps)
  case Nil
  show ?case by (cases "scan_string t") auto
next
  case (Cons n cps)
  then show ?case by (cases "scan_string t") (auto simp: scan_json_char)
qed

text \<open>The decoder reads an encoded string up to its closing quote.\<close>

lemma scan_json_string:
  "text_ok s \<Longrightarrow> scan_string (tl (json_string s) @ rest) = Some (s, rest)"
  by (simp add: json_string_def text_ok_def scan_json_chars)

subsection \<open>Scalars\<close>

lemma number_start:
  assumes "scan_number s = Some x"
  obtains sg c r where "s = sg @ c # r" and "sg = [] \<or> sg = ''-''" and "is_dec c"
proof -
  have ip: "\<exists>c r. t = c # r \<and> is_dec c" if "fst (int_part t) \<noteq> []" for t
    using that by (cases t) (auto simp: int_part_def split: if_splits)
  obtain sg t where st: "sign_part s = (sg, t)" by fastforce
  have "s = sg @ t" "sg = [] \<or> sg = ''-''" using st by (auto simp: sign_part_def split: list.splits if_splits)
  moreover have "fst (int_part t) \<noteq> []"
    using assms st by (auto simp: scan_number_def Let_def split: prod.splits if_splits)
  ultimately show thesis using ip that by blast
qed

lemma parse_number:
  assumes "scan_number s = Some (v, r)"
  shows "parse_val (Suc n) s = Got v r" and "skip_ws s = s"
proof -
  obtain sg c t where s: "s = sg @ c # t" "sg = [] \<or> sg = ''-''" "is_dec c" using number_start [OF assms] .
  have c: "c \<notin> {dquote, CHR ''-'', CHR ''{'', CHR ''n'', CHR ''t'', CHR ''f'', CHR ''N'', CHR ''I'', CHR '' '', CHR 0x09, CHR 0x0A, CHR 0x0D}"
    using s(3) by (auto simp: is_dec_def digit_in_def hexval_def dquote_def)
  then have "scan_literal literals s = None" using s(1,2) by (auto simp: literals_def)
  moreover have "hd s \<noteq> dquote" "hd s \<noteq> CHR ''{''" "s \<noteq> []" using s(1,2) c by (auto simp: dquote_def)
  ultimately show "parse_val (Suc n) s = Got v r" using assms by (cases s) (simp_all add: scanned_def)
  show "skip_ws s = s" using s(1,2) c by (auto simp: skip_ws_def)
qed

lemma stops_simps [simp]: "stops []" "stops (CHR ''}'' # r)" "stops (CHR '','' # r)" "stops (CHR 0x0A # r)"
  by (simp_all add: stops_def is_dec_def digit_in_def hexval_def)

text \<open>The texts of the literals, and of the numbers.\<close>

lemma parse_literal:
  "(w, v) \<in> set literals \<Longrightarrow> parse_val (Suc n) (w @ r) = Got v r \<and> skip_ws (w @ r) = w @ r"
  by (auto simp: literals_def dquote_def skip_ws_def)

lemma parse_float:
  assumes "double x" "stops rest"
  shows "parse_val (Suc n) (float_repr x @ rest) = Got (PFloat x) rest \<and> skip_ws (float_repr x @ rest) = float_repr x @ rest"
proof (cases "is_number x")
  case True
  then show ?thesis using parse_number [OF scan_float_repr [OF assms(1) True assms(2)]] by blast
next
  case False
  then have "(float_repr x, PFloat x) \<in> set literals" by (cases x) (auto simp: float_repr_def literals_def)
  then show ?thesis by (rule parse_literal)
qed

lemma parse_string:
  "text_ok t \<Longrightarrow> parse_val (Suc n) (json_string t @ rest) = Got (PStr t) rest \<and> skip_ws (json_string t @ rest) = json_string t @ rest"
  using scan_json_string [of t rest] by (simp add: json_string_def skip_ws_def dquote_def)

subsection \<open>Values\<close>

text \<open>What a decoded text holds: dictionaries in the order of their keys, the keys as strings.\<close>

function decoded :: "pyval \<Rightarrow> pyval" where
  "decoded (PDict d) = PDict (map (\<lambda>kv. (KS (key_text (fst kv)), decoded (snd kv))) (sort_key fst d))"
| "decoded PNone = PNone"
| "decoded (PBool b) = PBool b"
| "decoded (PInt i) = PInt i"
| "decoded (PFloat x) = PFloat x"
| "decoded (PStr s) = PStr s"
| "decoded (PBytes b) = PBytes b"
  by pat_completeness auto
termination by (relation "measure size") (auto dest: member_smaller)

text \<open>Well-formed text, distinct keys, floats that are doubles.\<close>

fun readable :: "pyval \<Rightarrow> bool" where
  "readable (PDict d) \<longleftrightarrow> distinct (map fst d) \<and> list_all (\<lambda>kv. text_ok (key_text (fst kv)) \<and> readable (snd kv)) d"
| "readable (PFloat x) \<longleftrightarrow> double x"
| "readable (PStr s) \<longleftrightarrow> text_ok s"
| "readable v \<longleftrightarrow> True"

lemma json_ascii:
  "list_all (\<lambda>c. 0x20 \<le> (of_char c :: nat) \<and> of_char c \<le> (0x7e :: nat) \<and> c \<noteq> dquote \<and> c \<noteq> bslash) s \<Longrightarrow>
     json_string s = dquote # s @ [dquote]"
proof -
  assume a: "list_all (\<lambda>c. 0x20 \<le> (of_char c :: nat) \<and> of_char c \<le> (0x7e :: nat) \<and> c \<noteq> dquote \<and> c \<noteq> bslash) s"
  have one: "json_char (of_char c) = [c]" if "0x20 \<le> (of_char c :: nat)" "of_char c \<le> (0x7e :: nat)" "c \<noteq> dquote" "c \<noteq> bslash" for c
  proof -
    have "(of_char c :: nat) \<noteq> 0x22" "(of_char c :: nat) \<noteq> 0x5c"
      using that(3,4) by (metis char_of_char escaped_chars(1) dquote_def, metis char_of_char escaped_chars(2) bslash_def)
    then show ?thesis using that(1,2) by (simp add: json_char_def)
  qed
  have "code_points (map of_char s) = map of_char s" using a by (induction s) auto
  moreover have "concat (map json_char (map of_char s)) = s" using a by (induction s) (simp_all add: one)
  ultimately show ?thesis by (simp add: json_string_def)
qed

lemma json_key_string: "json_key k = json_string (key_text k)"
proof (cases k)
  case (KI i)
  have "0x20 \<le> (of_char c :: nat) \<and> of_char c \<le> (0x7e :: nat) \<and> c \<noteq> dquote \<and> c \<noteq> bslash" if "is_dec c" for c
    using that by (auto simp: is_dec_def digit_in_def hexval_def dquote_def bslash_def Let_def split: if_splits)
  then have "list_all (\<lambda>c. 0x20 \<le> (of_char c :: nat) \<and> of_char c \<le> (0x7e :: nat) \<and> c \<noteq> dquote \<and> c \<noteq> bslash) (dec_str n)" for n
    using dec_str_digits(1) [of n] by (auto simp: list_all_iff)
  then have "json_string (int_str i) = dquote # int_str i @ [dquote]"
    by (intro json_ascii) (simp add: int_str_def dquote_def bslash_def)
  then show ?thesis by (simp add: KI json_key_def key_text_def)
qed (simp add: json_key_def key_text_def)

text \<open>A text denotes a value wherever it stands in a larger one.\<close>

definition denotes :: "string \<Rightarrow> pyval \<Rightarrow> bool" where
  "denotes s w \<longleftrightarrow> (\<forall>n rest. length s < n \<longrightarrow> stops rest \<longrightarrow>
     parse_val n (s @ rest) = Got w rest \<and> skip_ws (s @ rest) = s @ rest)"

lemma denotes_intro: "(\<And>n rest. stops rest \<Longrightarrow> parse_val (Suc n) (s @ rest) = Got w rest \<and> skip_ws (s @ rest) = s @ rest) \<Longrightarrow> denotes s w"
  by (metis denotes_def less_imp_Suc_add)

definition member_text :: "pykey \<times> string \<Rightarrow> string" where
  "member_text ks = json_key (fst ks) @ '': '' @ snd ks"

lemma skip_ws_simps [simp]: "skip_ws (CHR '' '' # s) = skip_ws s" "skip_ws (CHR '':'' # s) = CHR '':'' # s"
  "skip_ws (CHR '','' # s) = CHR '','' # s" "skip_ws (CHR ''}'' # s) = CHR ''}'' # s" "skip_ws (dquote # s) = dquote # s"
  by (simp_all add: skip_ws_def dquote_def)

lemma dquote_neq [simp]: "dquote \<noteq> CHR ''}''" "CHR ''{'' \<noteq> dquote"
  by (simp_all add: dquote_def)

lemma member_step:
  assumes "text_ok (key_text k)" "denotes s w" "length (member_text (k, s)) \<le> n" "stops rest"
  shows "scan_string (tl (member_text (k, s)) @ rest) = Some (key_text k, '': '' @ s @ rest)"
    and "parse_val n (skip_ws ('' '' @ s @ rest)) = Got w rest"
proof -
  have ne: "json_string (key_text k) \<noteq> []" by (simp add: json_string_def)
  then show "scan_string (tl (member_text (k, s)) @ rest) = Some (key_text k, '': '' @ s @ rest)"
    using scan_json_string [OF assms(1)] by (simp add: member_text_def json_key_string)
  have "length s < n" using assms(3) by (simp add: member_text_def)
  then show "parse_val n (skip_ws ('' '' @ s @ rest)) = Got w rest" using assms(2,4) by (simp add: denotes_def)
qed

lemma member_head: "member_text ks = dquote # tl (member_text ks)"
  by (simp add: member_text_def json_key_string json_string_def)

lemma members_head:
  assumes "ms \<noteq> []"
  obtains js where "join '', '' (map (\<lambda>(k, s, w). member_text (k, s)) ms) = dquote # js"
proof -
  obtain k s w ms' where ms: "ms = (k, s, w) # ms'" using assms by (cases ms) auto
  obtain t where t: "member_text (k, s) = dquote # t" using member_head by blast
  show thesis using that by (cases ms') (simp_all add: ms t)
qed

lemma parse_members_join:
  assumes "list_all (\<lambda>(k, s, w). text_ok (key_text k) \<and> denotes s w) ms" "ms \<noteq> []"
    and "length (join '', '' (map (\<lambda>(k, s, w). member_text (k, s)) ms)) < n"
  shows "parse_members n d (tl (join '', '' (map (\<lambda>(k, s, w). member_text (k, s)) ms)) @ ''}'' @ rest) =
    Got (PDict (foldl (\<lambda>d (k, s, w). dput (KS (key_text k)) w d) d ms)) rest"
  using assms
proof (induction ms arbitrary: n d)
  case (Cons m ms)
  obtain k s w where m: "m = (k, s, w)" by (cases m) auto
  obtain n' where n: "n = Suc n'" using Cons.prems(3) by (cases n) auto
  have k: "text_ok (key_text k)" "denotes s w" using Cons.prems(1) m by auto
  show ?case
  proof (cases ms)
    case Nil
    then have "length (member_text (k, s)) \<le> n'" using Cons.prems(3) m n by simp
    from member_step [OF k this, of "''}'' @ rest"] show ?thesis by (simp add: n m Nil)
  next
    case (Cons m2 ms')
    define js where "js = join '', '' (map (\<lambda>(k, s, w). member_text (k, s)) ms)"
    have ne: "ms \<noteq> []" using Cons by simp
    have j: "join '', '' (map (\<lambda>(k, s, w). member_text (k, s)) (m # ms)) = member_text (k, s) @ '', '' @ js"
      by (simp add: Cons m js_def)
    obtain js' where h: "js = dquote # js'" using members_head [of ms] Cons js_def by blast
    have len: "length (member_text (k, s)) \<le> n'" "length js < n'" using Cons.prems(3) n unfolding j by simp_all
    have rest: "parse_members n' (dput (KS (key_text k)) w d) (js' @ ''}'' @ rest) =
        Got (PDict (foldl (\<lambda>d (k, s, w). dput (KS (key_text k)) w d) (dput (KS (key_text k)) w d) ms)) rest"
      using Cons.IH [OF _ _ len(2) [unfolded js_def], folded js_def, of "dput (KS (key_text k)) w d"] Cons.prems(1) ne h
      by simp
    have "tl (member_text (k, s) @ '', '' @ js) @ ''}'' @ rest = tl (member_text (k, s)) @ CHR '','' # CHR '' '' # dquote # js' @ ''}'' @ rest"
      using member_head [of "(k, s)"] h by (cases "member_text (k, s)") auto
    then show ?thesis
      using member_step [OF k len(1), of "CHR '','' # CHR '' '' # dquote # js' @ ''}'' @ rest"] rest
      unfolding j n by (simp add: m)
  qed
qed simp

lemma int_str_inj: "int_str i = int_str j \<Longrightarrow> i = j"
proof -
  assume "int_str i = int_str j"
  then have "scan_number (int_str i @ []) = scan_number (int_str j @ [])" by simp
  then show "i = j" by (simp only: scan_int_str stops_simps) simp
qed

lemma key_texts_distinct:
  assumes "\<not> mixed_keys d" "distinct (map fst d)"
  shows "distinct (map (\<lambda>kv. key_text (fst kv)) d)"
proof -
  have "inj_on key_text (set (map fst d))"
  proof (rule inj_onI)
    fix a b
    assume ab: "a \<in> set (map fst d)" "b \<in> set (map fst d)" "key_text a = key_text b"
    have "is_KI a = is_KI b" using ab(1,2) assms(1) by (auto simp: mixed_keys_def list_ex_iff)
    then show "a = b" using ab(3) int_str_inj by (cases a; cases b) (auto simp: key_text_def)
  qed
  then have "distinct (map key_text (map fst d))" using assms(2) by (simp only: distinct_map)
  then show ?thesis by (simp add: comp_def)
qed

lemma rmap_members:
  "rmap (\<lambda>kv. rbind (dumps (snd kv)) (\<lambda>s. Inr (json_key (fst kv) @ '': '' @ s))) xs = Inr ps \<Longrightarrow>
     \<exists>t. ps = map (\<lambda>kv. member_text (fst kv, t kv)) xs \<and> (\<forall>kv \<in> set xs. dumps (snd kv) = Inr (t kv))"
proof (rule exI [of _ "\<lambda>kv. case dumps (snd kv) of Inr s \<Rightarrow> s"], induction xs arbitrary: ps)
  case (Cons kv xs)
  obtain s ss where s: "dumps (snd kv) = Inr s"
      "rmap (\<lambda>kv. rbind (dumps (snd kv)) (\<lambda>s. Inr (json_key (fst kv) @ '': '' @ s))) xs = Inr ss"
      "ps = (json_key (fst kv) @ '': '' @ s) # ss"
    using Cons.prems by (auto simp: rbind_def split: sum.splits)
  show ?case using Cons.IH [OF s(2)] s by (simp add: member_text_def)
qed simp

lemma foldl_dput:
  "distinct (map fst d @ map (\<lambda>kv. KS (g kv)) xs) \<Longrightarrow>
     foldl (\<lambda>d kv. dput (KS (g kv)) (h kv) d) d xs = d @ map (\<lambda>kv. (KS (g kv), h kv)) xs"
proof (induction xs arbitrary: d)
  case (Cons kv xs)
  have "dput (KS (g kv)) (h kv) d = d @ [(KS (g kv), h kv)]"
    using Cons.prems by (intro dput_new) (auto simp: dget_def map_of_eq_None_iff)
  then show ?case using Cons by simp
qed simp

theorem dumps_denotes: "dumps v = Inr s \<Longrightarrow> readable v \<Longrightarrow> denotes s (decoded v)"
proof (induction v arbitrary: s rule: dumps.induct)
  case (7 d)
  let ?xs = "sort_key fst d"
  have mixed: "\<not> mixed_keys d" using 7(2) by (auto split: if_splits)
  obtain ps where ps: "rmap (\<lambda>kv. rbind (dumps (snd kv)) (\<lambda>s. Inr (json_key (fst kv) @ '': '' @ s))) ?xs = Inr ps"
      "s = ''{'' @ join '', '' ps @ ''}''"
    using 7(2) mixed by (auto simp: rbind_def split: sum.splits)
  obtain t where t: "ps = map (\<lambda>kv. member_text (fst kv, t kv)) ?xs" "\<forall>kv \<in> set ?xs. dumps (snd kv) = Inr (t kv)"
    using rmap_members [OF ps(1)] by blast
  define ms where "ms = map (\<lambda>kv. (fst kv, t kv, decoded (snd kv))) ?xs"
  have den: "list_all (\<lambda>(k, s, w). text_ok (key_text k) \<and> denotes s w) ms"
    using 7(1) [OF mixed] 7(3) t(2) by (auto simp: ms_def list_all_iff)
  have "distinct (map (\<lambda>kv. key_text (fst kv)) ?xs)"
    using key_texts_distinct [OF mixed] 7(3) by (simp add: distinct_map)
  then have "distinct (map fst [] @ map (\<lambda>kv. KS (key_text (fst kv))) ?xs)" by (auto simp: distinct_map inj_on_def)
  from foldl_dput [OF this, of "\<lambda>kv. decoded (snd kv)"]
  have fold: "PDict (foldl (\<lambda>d (k, s, w). dput (KS (key_text k)) w d) [] ms) = decoded (PDict d)"
    by (simp add: ms_def foldl_map)
  have shape: "ps = map (\<lambda>(k, s, w). member_text (k, s)) ms" by (simp add: t(1) ms_def)
  show ?case
    unfolding denotes_def
  proof (intro allI impI)
    fix n rest
    assume n: "length s < n" "stops rest"
    obtain n' where n': "n = Suc n'" using n(1) by (cases n) auto
    have ws: "skip_ws (s @ rest) = s @ rest" by (simp add: ps(2) skip_ws_def)
    show "parse_val n (s @ rest) = Got (decoded (PDict d)) rest \<and> skip_ws (s @ rest) = s @ rest"
    proof (cases ms)
      case Nil
      then show ?thesis using ws fold ps(2) shape n' by simp
    next
      case (Cons m ms')
      have "length (join '', '' ps) < n'" using n(1) ps(2) n' by simp
      then have run: "parse_members n' [] (tl (join '', '' ps) @ ''}'' @ rest) = Got (decoded (PDict d)) rest"
        using parse_members_join [OF den, of n' "[]" rest] Cons fold shape by simp
      obtain js where "join '', '' ps = dquote # js" using members_head [of ms] Cons shape by blast
      then show ?thesis using run ws ps(2) n' by simp
    qed
  qed
next
  case 1
  show ?case by (rule denotes_intro) (use 1 parse_literal [of "''null''" PNone] in \<open>simp add: literals_def\<close>)
next
  case (2 b)
  show ?case by (rule denotes_intro) (use 2 parse_literal [of "if b then ''true'' else ''false''" "PBool b"] in \<open>simp add: literals_def split: if_splits\<close>)
next
  case (3 i)
  show ?case by (rule denotes_intro) (use 3 parse_number scan_int_str in auto)
next
  case (4 x)
  show ?case by (rule denotes_intro) (use 4 parse_float in \<open>auto simp del: parse_val.simps\<close>)
next
  case (5 t)
  show ?case by (rule denotes_intro) (use 5 parse_string in \<open>auto simp del: parse_val.simps\<close>)
qed simp_all

lemma loads_denoted:
  assumes "denotes s w" and "skip_ws (pre @ s @ post) = s @ post" and "stops post" and "skip_ws post = []"
  shows "json_loads (pre @ s @ post) = Inr w"
proof -
  have "length s < Suc (length (pre @ s @ post))" by simp
  then have "parse_val (Suc (length (pre @ s @ post))) (s @ post) = Got w post"
    using assms(1,3) unfolding denotes_def by blast
  then show ?thesis using assms(2,4) by (simp add: json_loads_def)
qed

text \<open>A line that holds one value.\<close>

lemma loads_line:
  assumes "dumps v = Inr s" and "readable v"
  shows "json_loads (s @ [CHR 0x0A]) = Inr (decoded v)"
proof -
  have den: "denotes s (decoded v)" by (rule dumps_denotes [OF assms])
  have "skip_ws (s @ [CHR 0x0A]) = s @ [CHR 0x0A]" using den stops_simps(4) [of "[]"] unfolding denotes_def by blast
  moreover have "skip_ws [CHR 0x0A] = []" by (simp add: skip_ws_def)
  ultimately show ?thesis using loads_denoted [OF den, of "[]" "[CHR 0x0A]"] by simp
qed

definition white :: "string \<Rightarrow> bool" where
  "white s \<longleftrightarrow> list_all (\<lambda>c. c = CHR '' '' \<or> c = CHR 0x09 \<or> c = CHR 0x0A \<or> c = CHR 0x0D) s"

text \<open>
  \<^verbatim>\<open>json.loads\<close> inverts \<^verbatim>\<open>json.dumps\<close>: a text that the encoder writes is accepted, with any
  white space around it, and gives the value back, dictionaries sorted by their keys and integer keys
  as text; strings of any characters and all floats, the smallest and the largest included, come back
  exactly.
\<close>

theorem json_roundtrip:
  assumes "dumps v = Inr s" and "readable v" and "white pre" and "white post"
  shows "json_loads (pre @ s @ post) = Inr (decoded v)"
proof (rule loads_denoted)
  show den: "denotes s (decoded v)" by (rule dumps_denotes [OF assms(1,2)])
  show post: "stops post"
    using assms(4) by (cases post) (auto simp: white_def stops_def is_dec_def digit_in_def hexval_def)
  have "skip_ws (s @ post) = s @ post" using den post unfolding denotes_def by blast
  moreover have "skip_ws (pre @ t) = skip_ws t" for t
    using assms(3) by (induction pre) (auto simp: white_def skip_ws_def)
  ultimately show "skip_ws (pre @ s @ post) = s @ post" by simp
  show "skip_ws post = []" using assms(4) by (induction post) (auto simp: white_def skip_ws_def)
qed

theorem json_roundtrip_witness:
  "\<exists>s. dumps (PDict [(KS ''b'', PFloat (fl (1 / 10))), (KS ''a'', PStr [CHR 0xC3, CHR 0xA9])]) = Inr s \<and>
     json_loads ([] @ s @ [CHR 0x0A]) =
       Inr (PDict [(KS ''a'', PStr [CHR 0xC3, CHR 0xA9]), (KS ''b'', PFloat (fl (1 / 10)))])"
proof -
  let ?v = "PDict [(KS ''b'', PFloat (fl (1 / 10))), (KS ''a'', PStr [CHR 0xC3, CHR 0xA9])]"
  have sorted: "sort_key fst [(KS ''b'', PFloat (fl (1 / 10))), (KS ''a'', PStr [CHR 0xC3, CHR 0xA9])] =
      [(KS ''a'', PStr [CHR 0xC3, CHR 0xA9]), (KS ''b'', PFloat (fl (1 / 10)))]"
    by (simp add: less_eq_pykey_def)
  obtain s where s: "dumps ?v = Inr s" by (simp add: sorted mixed_keys_def del: sort_key_simps)
  have "char_of (195 :: nat) = CHR 0xC3" "char_of (169 :: nat) = CHR 0xA9" by code_simp+
  then have "text_ok [CHR 0xC3, CHR 0xA9]" by (simp add: text_ok_def scalar_def utf8_def)
  moreover have "text_ok ''a''" "text_ok ''b''" by (auto intro: ascii_text_ok)
  ultimately have "readable ?v" by (simp add: key_text_def)
  moreover have "white []" "white [CHR 0x0A]" by (simp_all add: white_def)
  ultimately have "json_loads ([] @ s @ [CHR 0x0A]) = Inr (decoded ?v)" by (rule json_roundtrip [OF s])
  moreover have "decoded ?v = PDict [(KS ''a'', PStr [CHR 0xC3, CHR 0xA9]), (KS ''b'', PFloat (fl (1 / 10)))]"
    by (simp add: sorted key_text_def del: sort_key_simps)
  ultimately show ?thesis using s by simp
qed

end
