(* ===== verification/Utf8Text.thy ===== *)
theory Utf8Text
  imports Devices JsonRound
begin

text \<open>
  The texts that the parsers make are well formed: the formatted dates, numbers and identifiers are
  printable, and what \<^verbatim>\<open>decode('utf-8')\<close> accepts is well-formed UTF-8, also after \<^verbatim>\<open>strip('\x00')\<close>.
\<close>

subsection \<open>Printable text\<close>

lemma printable_text_ok: "printable s \<Longrightarrow> text_ok s"
  by (rule ascii_text_ok) (auto simp: printable_def list_all_iff)

lemma printable_hex_str [simp]: "printable (hex_str n)"
  unfolding hex_str_def using digits_of_less [of 16] by (intro printable_hexdigs) fastforce

lemma printable_upper [simp]: "printable s \<Longrightarrow> printable (upper s)"
  by (auto simp: printable_def upper_def upper_char_def list_all_iff Let_def)

lemma printable_hex2 [simp]: "printable (hex2 b)"
proof -
  have "unat b div 16 < 16" using unat_byte_less [of b] by (intro less_mult_imp_div_less) simp
  then show ?thesis by (simp add: hex2_def printable_hexdig)
qed

lemma printable_hexLine [simp]: "printable (hexLine bs)"
  unfolding hexLine_def by (rule printable_join) auto

lemma printable_hexLines: "list_all printable (hexLines data p)"
  by (induction data p rule: hexLines.induct) (subst hexLines.simps, auto)

lemma printable_hexData [simp]: "printable (hexData bs)"
  unfolding hexData_def using printable_hexLines by (intro printable_join) (auto simp: list_all_iff split: if_splits)

lemma printable_ids [simp]: "printable (parseId i)" "printable (hex06 i)"
  by (simp_all add: parseId_def hex06_def)

lemma printable_stamps [simp]: "printable (strftime_date t)" "printable (strftime_time t)"
  by (simp_all add: strftime_date_def strftime_time_def two_def)

lemma printable_asctime [simp]: "printable (asctime t)"
proof -
  have "list_all printable wday_names" "list_all printable mon_names"
    by (simp_all add: wday_names_def mon_names_def)
  moreover have "tm_wday t mod 7 < length wday_names" "(tm_mon t - 1) mod 12 < length mon_names"
    by (simp_all add: wday_names_def mon_names_def)
  ultimately have "printable (wday_names ! (tm_wday t mod 7))" "printable (mon_names ! ((tm_mon t - 1) mod 12))"
    by (simp_all add: list_all_length)
  then show ?thesis by (simp add: asctime_def Let_def)
qed

lemma printable_dev_stamps [simp]: "printable (devDateStamp lt ts)" "printable (devTimeStamp lt ts)"
  by (simp_all add: devDateStamp_def devTimeStamp_def split: sum.split)

subsection \<open>UTF-8\<close>

lemma base64:
  fixes a b c d :: nat
  assumes "b < 64" "c < 64" "d < 64"
  shows "(a * 64 + b) div 64 = a" "(a * 64 + b) mod 64 = b"
    "(a * 4096 + b * 64 + c) div 4096 = a" "(a * 4096 + b * 64 + c) div 64 mod 64 = b" "(a * 4096 + b * 64 + c) mod 64 = c"
    "(a * 262144 + b * 4096 + c * 64 + d) div 262144 = a" "(a * 262144 + b * 4096 + c * 64 + d) div 4096 mod 64 = b"
    "(a * 262144 + b * 4096 + c * 64 + d) div 64 mod 64 = c" "(a * 262144 + b * 4096 + c * 64 + d) mod 64 = d"
proof -
  have one: "(x * 64 + y) div 64 = x" "(x * 64 + y) mod 64 = y" if "y < 64" for x y :: nat using that by simp_all
  have n2: "a * 4096 + b * 64 + c = (a * 64 + b) * 64 + c"
    and n3: "a * 262144 + b * 4096 + c * 64 + d = ((a * 64 + b) * 64 + c) * 64 + d" by simp_all
  have dd: "n div 4096 = n div 64 div 64" "n div 262144 = n div 64 div 64 div 64" for n :: nat
    by (simp_all add: div_mult2_eq [symmetric])
  show "(a * 64 + b) div 64 = a" "(a * 64 + b) mod 64 = b" using one assms by simp_all
  show "(a * 4096 + b * 64 + c) div 4096 = a" "(a * 4096 + b * 64 + c) div 64 mod 64 = b" "(a * 4096 + b * 64 + c) mod 64 = c"
    unfolding n2 dd one(1) [OF assms(2)] one(1) [OF assms(1)] one(2) [OF assms(2)] one(2) [OF assms(1)] by (rule refl)+
  show "(a * 262144 + b * 4096 + c * 64 + d) div 262144 = a" "(a * 262144 + b * 4096 + c * 64 + d) div 4096 mod 64 = b"
    "(a * 262144 + b * 4096 + c * 64 + d) div 64 mod 64 = c" "(a * 262144 + b * 4096 + c * 64 + d) mod 64 = d"
    unfolding n3 dd one(1) [OF assms(3)] one(1) [OF assms(2)] one(1) [OF assms(1)]
      one(2) [OF assms(3)] one(2) [OF assms(2)] one(2) [OF assms(1)] by (rule refl)+
qed

lemma low_bits: "k * q \<le> n \<Longrightarrow> n < k * Suc q \<Longrightarrow> n = k * q + n mod k" for n k q :: nat
  using div_nat_eqI [of k q n] mult_div_mod_eq [of k n] by simp

lemma cont_mod: "cont b \<Longrightarrow> b mod 64 < 64 \<and> b = 0x80 + b mod 64"
  using low_bits [of 64 2 b] by (simp add: cont_def)

lemma utf8_code_points:
  "utf8_valid bs \<Longrightarrow> list_all scalar (code_points bs) \<and> concat (map utf8 (code_points bs)) = map char_of bs"
proof (induction bs rule: utf8_valid.induct)
  case (2 a bs)
  consider "a < 0x80" | "0xc2 \<le> a" "a \<le> 0xdf" | "0xe0 \<le> a" "a \<le> 0xef" | "0xf0 \<le> a" "a \<le> 0xf4"
    using 2(5) by (auto split: if_splits)
  then show ?case
  proof cases
    case 1
    then show ?thesis using 2(1,5) by (simp add: scalar_def utf8_def)
  next
    case a: 2
    then obtain b r where bs: "bs = b # r" "cont b" "utf8_valid r" using 2(5) by (auto split: list.splits)
    then have r: "list_all scalar (code_points r) \<and> concat (map utf8 (code_points r)) = map char_of r"
      using 2(2) a by simp
    define x y where "x = a mod 32" and "y = b mod 64"
    have xy: "a = 0xc0 + x" "x < 32" "b = 0x80 + y" "y < 64"
      using cont_mod [OF bs(2)] a low_bits [of 32 6 a] by (simp_all add: x_def y_def)
    define n where "n = x * 64 + y"
    have "0x80 \<le> n" "n < 0x800" using xy a by (auto simp: n_def)
    moreover have "scalar n" using calculation by (simp add: scalar_def)
    moreover have "utf8 n = map char_of [a, b]"
      using calculation xy base64(1,2) [of y 0 0 x] by (simp add: utf8_def n_def)
    moreover have "code_points (a # bs) = n # code_points r" using a by (simp add: bs(1) n_def x_def y_def)
    ultimately show ?thesis using r bs(1) by simp
  next
    case a: 3
    then obtain b c r where bs: "bs = b # c # r" "cont b" "cont c" "a = 0xe0 \<longrightarrow> 0xa0 \<le> b" "a = 0xed \<longrightarrow> b \<le> 0x9f" "utf8_valid r"
      using 2(5) by (auto split: list.splits)
    then have r: "list_all scalar (code_points r) \<and> concat (map utf8 (code_points r)) = map char_of r"
      using 2(3) a by simp
    define x y z where "x = a mod 16" and "y = b mod 64" and "z = c mod 64"
    have xyz: "a = 0xe0 + x" "x < 16" "b = 0x80 + y" "y < 64" "c = 0x80 + z" "z < 64"
      using cont_mod [OF bs(2)] cont_mod [OF bs(3)] a low_bits [of 16 14 a] by (simp_all add: x_def y_def z_def)
    define n where "n = x * 4096 + y * 64 + z"
    have "0x800 \<le> n" "n < 0x10000" using xyz bs(4) by (auto simp: n_def)
    moreover have "n < 0xd800 \<or> 0xe000 \<le> n"
    proof (cases "x = 13")
      case False
      then have "x \<le> 12 \<or> 14 \<le> x" by linarith
      then show ?thesis using xyz unfolding n_def by linarith
    qed (use xyz bs(5) in \<open>simp add: n_def\<close>)
    moreover have "scalar n" using calculation by (auto simp: scalar_def)
    moreover have "utf8 n = map char_of [a, b, c]"
      using calculation xyz base64(3-5) [of y z z x] by (simp add: utf8_def n_def)
    moreover have "code_points (a # bs) = n # code_points r" using a by (simp add: bs(1) n_def x_def y_def z_def)
    ultimately show ?thesis using r bs(1) by simp
  next
    case a: 4
    then obtain b c d r where bs: "bs = b # c # d # r" "cont b" "cont c" "cont d" "a = 0xf0 \<longrightarrow> 0x90 \<le> b" "a = 0xf4 \<longrightarrow> b \<le> 0x8f" "utf8_valid r"
      using 2(5) by (auto split: list.splits)
    then have r: "list_all scalar (code_points r) \<and> concat (map utf8 (code_points r)) = map char_of r"
      using 2(4) a by simp
    define x y z w where "x = a mod 8" and "y = b mod 64" and "z = c mod 64" and "w = d mod 64"
    have xyz: "a = 0xf0 + x" "x < 5" "b = 0x80 + y" "y < 64" "c = 0x80 + z" "z < 64" "d = 0x80 + w" "w < 64"
      using cont_mod [OF bs(2)] cont_mod [OF bs(3)] cont_mod [OF bs(4)] a low_bits [of 8 30 a]
      by (simp_all add: x_def y_def z_def w_def)
    define n where "n = x * 262144 + y * 4096 + z * 64 + w"
    have "0x10000 \<le> n" "n < 0x110000" using xyz bs(5,6) by (auto simp: n_def)
    moreover have "scalar n" using calculation by (simp add: scalar_def)
    moreover have "utf8 n = map char_of [a, b, c, d]"
      using calculation xyz base64(6-9) [of y z w x] by (simp add: utf8_def n_def)
    moreover have "code_points (a # bs) = n # code_points r" using a by (simp add: bs(1) n_def x_def y_def z_def w_def)
    ultimately show ?thesis using r bs(1) by simp
  qed
qed simp

definition valid_text :: "string \<Rightarrow> bool" where
  "valid_text s \<longleftrightarrow> utf8_valid (map of_char s)"

lemma valid_text_ok: "valid_text s \<Longrightarrow> text_ok s"
  using utf8_code_points [of "map of_char s"] by (simp add: valid_text_def text_ok_def comp_def)

lemma utf8_valid_snoc: "utf8_valid (bs @ [0]) \<Longrightarrow> utf8_valid bs"
proof (induction bs rule: utf8_valid.induct)
  case (2 a bs)
  have c0: "\<not> cont 0" by (simp add: cont_def)
  have last: "\<exists>r'. r = r' @ [0] \<and> bs = front @ r'" if "bs @ [0] = front @ r" "front = [] \<or> cont (last front)" for front r
  proof (cases r rule: rev_cases)
    case Nil
    then show ?thesis using that c0 by (metis append_Nil2 last_snoc snoc_eq_iff_butlast)
  qed (use that in simp)
  consider "a < 0x80" | "0xc2 \<le> a" "a \<le> 0xdf" | "0xe0 \<le> a" "a \<le> 0xef" | "0xf0 \<le> a" "a \<le> 0xf4"
    using 2(5) by (auto split: if_splits)
  then show ?case
  proof cases
    case 1
    then show ?thesis using 2(1,5) by simp
  next
    case a: 2
    then obtain b r where bs: "bs @ [0] = [b] @ r" "cont b" "utf8_valid r" using 2(5) by (auto split: list.splits)
    then obtain r' where "r = r' @ [0]" "bs = b # r'" using last [of "[b]" r] by auto
    then show ?thesis using 2(2) a bs by simp
  next
    case a: 3
    then obtain b c r where bs: "bs @ [0] = [b, c] @ r" "cont b" "cont c" "a = 0xe0 \<longrightarrow> 0xa0 \<le> b" "a = 0xed \<longrightarrow> b \<le> 0x9f" "utf8_valid r"
      using 2(5) by (auto split: list.splits)
    then obtain r' where "r = r' @ [0]" "bs = b # c # r'" using last [of "[b, c]" r] by auto
    then show ?thesis using 2(3) a bs by simp
  next
    case a: 4
    then obtain b c d r where bs: "bs @ [0] = [b, c, d] @ r" "cont b" "cont c" "cont d" "a = 0xf0 \<longrightarrow> 0x90 \<le> b"
        "a = 0xf4 \<longrightarrow> b \<le> 0x8f" "utf8_valid r"
      using 2(5) by (auto split: list.splits)
    then obtain r' where "r = r' @ [0]" "bs = b # c # d # r'" using last [of "[b, c, d]" r] by auto
    then show ?thesis using 2(4) a bs by simp
  qed
qed simp

lemma valid_text_strip: "valid_text s \<Longrightarrow> valid_text (strip_nul s)"
proof -
  have front: "valid_text s \<Longrightarrow> valid_text (dropWhile (\<lambda>c. c = CHR 0x00) s)" for s
    by (induction s) (auto simp: valid_text_def)
  have tail: "valid_text s \<Longrightarrow> valid_text (rev (dropWhile (\<lambda>c. c = CHR 0x00) (rev s)))" for s
  proof (induction s rule: rev_induct)
    case (snoc c s)
    then show ?case using utf8_valid_snoc [of "map of_char s"] by (auto simp: valid_text_def)
  qed simp
  show "valid_text s \<Longrightarrow> valid_text (strip_nul s)"
    unfolding strip_nul_def strip_chars_def by (intro tail front)
qed

lemma decoded_text_ok: "decode_utf8 bs = Inr s \<Longrightarrow> text_ok (strip_nul s)"
proof -
  assume d: "decode_utf8 bs = Inr s"
  have "map of_char (text_of bs) = map unat bs" using unat_byte_less by (auto simp: text_of_def take_bit_eq_mod)
  then have "valid_text s" using d by (auto simp: decode_utf8_def valid_text_def split: if_splits)
  then show "text_ok (strip_nul s)" by (intro valid_text_ok valid_text_strip)
qed

end
