(* ===== verification/JsonSafe.thy ===== *)
theory JsonSafe
  imports Data Utf8Text
begin

text \<open>
  Performance data can always be written and read: whatever the bytes of the message, the dictionary
  that parsing gives holds well-formed text, doubles and integers only, under keys that sort.
\<close>

subsection \<open>Values that survive\<close>

fun plain_key :: "pykey \<Rightarrow> bool" where
  "plain_key (KS s) \<longleftrightarrow> text_ok s"
| "plain_key (KI i) \<longleftrightarrow> False"

fun clean :: "pyval \<Rightarrow> bool" where
  "clean (PDict d) \<longleftrightarrow> dwf d \<and> list_all (\<lambda>kv. plain_key (fst kv) \<and> clean (snd kv)) d"
| "clean (PFloat x) \<longleftrightarrow> double x"
| "clean (PStr s) \<longleftrightarrow> text_ok s"
| "clean (PBytes b) \<longleftrightarrow> False"
| "clean v \<longleftrightarrow> True"

declare clean.simps(1) [simp del]

definition clean_dict :: "(pykey \<Rightarrow> bool) \<Rightarrow> (pykey \<Rightarrow> pyval \<Rightarrow> bool) \<Rightarrow> pydict \<Rightarrow> bool" where
  "clean_dict K V d \<longleftrightarrow> dwf d \<and> (\<forall>(k, v) \<in> set d. K k \<and> V k v)"

abbreviation plain_dict :: "pydict \<Rightarrow> bool" where
  "plain_dict \<equiv> clean_dict plain_key (\<lambda>k. clean)"

lemma clean_PDict [simp]: "clean (PDict d) \<longleftrightarrow> plain_dict d"
  by (auto simp: clean.simps(1) clean_dict_def list_all_iff)

text \<open>A dictionary with such values keeps them under assignment, update and merge.\<close>

lemma set_dput: "set (dput k v d) \<subseteq> insert (k, v) (set d)"
  unfolding dput_def by (induction d) auto

lemma clean_dict_Nil [simp]: "clean_dict K V []"
  by (simp add: clean_dict_def)

lemma clean_dict_dput: "clean_dict K V d \<Longrightarrow> K k \<Longrightarrow> V k v \<Longrightarrow> clean_dict K V (dput k v d)"
  unfolding clean_dict_def using set_dput [of k v d] by fastforce

lemma clean_dict_dupdate:
  "clean_dict K V d \<Longrightarrow> list_all (\<lambda>(k, v). K k \<and> V k v) kvs \<Longrightarrow> clean_dict K V (dupdate kvs d)"
  by (induction kvs arbitrary: d) (auto simp: dupdate_def clean_dict_dput)

lemma clean_dict_dget: "clean_dict K V d \<Longrightarrow> dget d k = Some v \<Longrightarrow> K k \<and> V k v"
  by (auto simp: clean_dict_def dget_def dest!: map_of_SomeD)

lemma clean_dict_single [simp]: "clean_dict K V [(k, v)] \<longleftrightarrow> K k \<and> V k v"
  by (simp add: clean_dict_def dwf_def)

lemma clean_dict_dlookup: "clean_dict K V d \<Longrightarrow> dlookup d k = Inr v \<Longrightarrow> K k \<and> V k v"
  using clean_dict_dget [of K V d k v] by (auto simp: dlookup_def split: option.splits)

lemma dput_twice: "dput k v (dput k w d) = dput k v d"
  unfolding dput_def by (induction d) auto

text \<open>Such values have a text that reads back.\<close>

lemma clean_dict_writable:
  assumes "clean_dict K V d" and "(\<forall>k. K k \<longrightarrow> is_KI k) \<or> (\<forall>k. K k \<longrightarrow> \<not> is_KI k)" and "\<And>k v. V k v \<Longrightarrow> writable v"
  shows "writable (PDict d)"
  using assms by (fastforce simp: clean_dict_def mixed_keys_def list_ex_iff list_all_iff)

lemma clean_dict_readable:
  assumes "clean_dict K V d" and "\<And>k. K k \<Longrightarrow> text_ok (key_text k)" and "\<And>k v. V k v \<Longrightarrow> readable v"
  shows "readable (PDict d)"
  using assms by (fastforce simp: clean_dict_def dwf_def list_all_iff)

lemma plain_key_simps: "plain_key k \<Longrightarrow> \<not> is_KI k \<and> text_ok (key_text k)"
  by (cases k) (auto simp: key_text_def)

lemma clean_ok: "clean v \<Longrightarrow> writable v \<and> readable v"
proof (induction v)
  case (PDict d)
  then have d: "clean_dict plain_key (\<lambda>k v. clean v \<and> writable v \<and> readable v) d"
    by (fastforce simp: clean_dict_def)
  have "writable (PDict d)" by (rule clean_dict_writable [OF d]) (use plain_key_simps in blast)+
  moreover have "readable (PDict d)" by (rule clean_dict_readable [OF d]) (use plain_key_simps in blast)+
  ultimately show ?case by blast
qed simp_all

subsection \<open>Inverter, optimizer and event blocks\<close>

lemma py_index_set: "py_index vs i = Inr v \<Longrightarrow> v \<in> set vs"
  by (auto simp: py_index_def split: if_splits)

definition numeric_fmt :: "field list \<Rightarrow> bool" where
  "numeric_fmt fs \<longleftrightarrow> list_all (\<lambda>f. case f of FS n \<Rightarrow> False | _ \<Rightarrow> True) fs"

lemma split_fields_clean: "numeric_fmt fs \<Longrightarrow> list_all clean (split_fields en fs bs)"
  by (induction en fs bs rule: split_fields.induct) (auto simp: numeric_fmt_def dec_any_def split: field.splits)

lemma unpack_clean: "unpack en fs bs = Inr vs \<Longrightarrow> numeric_fmt fs \<Longrightarrow> list_all clean vs"
  using split_fields_clean by (auto simp: unpack_def split: if_splits)

lemma numeric_fmts: "numeric_fmt (fmt s)"
  by (auto simp: numeric_fmt_def fmt_def list_all_iff)

lemma in_fmts: "numeric_fmt optInFmt" "numeric_fmt invInFmt" "numeric_fmt inv3PhInFmt" "numeric_fmt eventInFmt"
  by (simp_all only: optInFmt_def invInFmt_def inv3PhInFmt_def eventInFmt_def numeric_fmts)

lemma rmap_all: "rmap f xs = Inr ys \<Longrightarrow> \<forall>x y. f x = Inr y \<longrightarrow> P y \<Longrightarrow> list_all P ys"
  by (induction xs arbitrary: ys) (auto simp: res_simps)

lemma selectFields_clean:
  assumes "selectFields fs bs idx = Inr vs" and "numeric_fmt fs"
  shows "list_all clean vs"
proof (rule rmap_all [OF assms(1) [unfolded selectFields_def]], intro allI impI)
  fix i v
  assume "rbind (unpack LE fs bs) (\<lambda>vs. py_index vs i) = Inr v"
  then show "clean v" using unpack_clean [OF _ assms(2)] py_index_set by (force simp: res_simps list_all_iff)
qed

lemma putItems_clean:
  "putItems names vals is d = Inr d' \<Longrightarrow> list_all printable names \<Longrightarrow> list_all clean vals \<Longrightarrow> plain_dict d \<Longrightarrow> plain_dict d'"
proof (induction names vals "is" d rule: putItems.induct)
  case (2 names vals i ixs d)
  obtain v n where v: "py_index vals (i - 2) = Inr v" "py_index names i = Inr n"
      "putItems names vals ixs (dput (KS n) v d) = Inr d'"
    using 2(2) by (auto simp: res_simps)
  then have "clean v" "text_ok n"
    using 2(3,4) py_index_set printable_text_ok by (fastforce simp: list_all_iff)+
  then have "plain_dict (dput (KS n) v d)" using 2(5) by (intro clean_dict_dput) simp_all
  then show ?case using 2(1) [OF v(1,2,3) 2(3,4)] by simp
qed simp

lemma ascii_keys: "printable s \<Longrightarrow> plain_key (KS s)"
  by (simp add: printable_text_ok)

lemma devDataDict_clean:
  assumes "devDataDict lt seId names vals = Inr d" and "list_all printable names" "list_all clean vals" "printable seId"
  shows "plain_dict d"
proof -
  obtain v0 where v0: "py_index vals 0 = Inr v0" using assms(1) by (auto simp: devDataDict_def res_simps)
  obtain dt t where st: "(case stamps lt v0 of Inr dt \<Rightarrow> dt | Inl ex \<Rightarrow> (''invalid'', ''invalid'')) = (dt, t)" by fastforce
  have dt: "printable dt" "printable t"
    using st by (auto simp: stamps_def formatDateStamp_def formatTimeStamp_def res_simps
        split: sum.splits pyval.splits)
  let ?d = "dupdate [field_of ''Date'' (PStr dt), field_of ''Time'' (PStr t), field_of ''ID'' (PStr seId)] []"
  have "plain_dict ?d"
    using dt assms(4) by (intro clean_dict_dupdate) (simp_all add: printable_text_ok)
  moreover have "putItems names vals [3..<length names] ?d = Inr d"
    using assms(1) v0 st by (simp add: devDataDict_def)
  ultimately show ?thesis using putItems_clean assms(2,3) by blast
qed

lemma item_names: "list_all printable optItems" "list_all printable invItems" "list_all printable inv3PhItems"
    "list_all printable eventItems"
  by (simp_all add: optItems_def invItems_def inv3PhItems_def eventItems_def)

lemma list_update_clean: "list_all clean vs \<Longrightarrow> clean v \<Longrightarrow> list_all clean (vs[i := v])"
  using set_update_subset_insert [of vs i v] by (auto simp: list_all_iff)

lemma parseOptData_clean: "parseOptData lt seId optItems bs = Inr d \<Longrightarrow> printable seId \<Longrightarrow> plain_dict d"
  unfolding parseOptData_def
  by (auto simp: res_simps item_names printable_text_ok
      intro!: devDataDict_clean list_update_clean dest!: selectFields_clean [OF _ in_fmts(1)])

lemma optElectrical_clean:
  assumes "optElectrical bs = Inr (ts, up, a, b, c)"
  shows "clean a \<and> clean b \<and> clean c"
proof -
  obtain vs where vs: "unpack_ints LE [CL, CH] (slice 0 6 bs) = Inr vs"
    using assms by (auto simp: optElectrical_def res_simps)
  then obtain t u where "vs = [t, u]"
    using unpack_length [OF vs] by (auto simp: length_Suc_conv)
  then show ?thesis using assms vs by (auto simp: optElectrical_def res_simps scaled_def)
qed

lemma parseNewOptData_clean: "parseNewOptData lt seId optItems bs = Inr d \<Longrightarrow> printable seId \<Longrightarrow> plain_dict d"
  unfolding parseNewOptData_def
  by (auto simp: res_simps item_names scaled_def Let_def intro!: devDataDict_clean dest!: optElectrical_clean)

lemma parseS440OptData_clean: "parseS440OptData lt seId optItems bs = Inr d \<Longrightarrow> printable seId \<Longrightarrow> plain_dict d"
  unfolding parseS440OptData_def
  by (auto simp: res_simps item_names intro!: devDataDict_clean dest!: optElectrical_clean)

lemma parseInvData_clean: "parseInvData lt seId invItems bs = Inr d \<Longrightarrow> printable seId \<Longrightarrow> plain_dict d"
  unfolding parseInvData_def
  by (auto simp: res_simps item_names intro!: devDataDict_clean dest!: selectFields_clean [OF _ in_fmts(2)])

lemma parseInv3PhData_clean: "parseInv3PhData lt seId inv3PhItems bs = Inr d \<Longrightarrow> printable seId \<Longrightarrow> plain_dict d"
  unfolding parseInv3PhData_def
  by (auto simp: res_simps item_names intro!: devDataDict_clean dest!: selectFields_clean [OF _ in_fmts(3)])

lemma formatDateTime_clean: "formatDateTime lt ts = Inr s \<Longrightarrow> text_ok s"
  by (auto simp: formatDateTime_def res_simps printable_text_ok split: sum.splits if_splits)

lemma dateTimeAt_clean: "dateTimeAt lt i vs = Inr vs' \<Longrightarrow> list_all clean vs \<Longrightarrow> list_all clean vs'"
  by (auto simp: dateTimeAt_def res_simps formatDateTime_clean intro!: list_update_clean)

lemma parseEventData_clean: "parseEventData lt seId eventItems bs = Inr d \<Longrightarrow> printable seId \<Longrightarrow> plain_dict d"
proof -
  assume "parseEventData lt seId eventItems bs = Inr d" and seId: "printable seId"
  then obtain ev ev1 ev2 kind where ev: "selectFields eventInFmt (slice 0 invInFmtLen bs) eventIdx = Inr ev"
      "dateTimeAt lt 2 ev = Inr ev1" "(if pyeq kind (PInt 0) then dateTimeAt lt 3 ev1 else dateTimeAt lt 4 ev1) = Inr ev2"
      "devDataDict lt seId eventItems ev2 = Inr d"
    by (auto simp: parseEventData_def res_simps)
  have "list_all clean ev" by (rule selectFields_clean [OF ev(1) in_fmts(4)])
  then have "list_all clean ev2" using dateTimeAt_clean ev(2,3) by (metis (full_types))
  then show ?thesis using devDataDict_clean [OF ev(4)] item_names(4) seId by blast
qed

lemma fixPmax_clean: "fixPmax d = Inr d' \<Longrightarrow> plain_dict d \<Longrightarrow> plain_dict d'"
  by (auto simp: fixPmax_def res_simps printable_text_ok intro!: clean_dict_dput split: if_splits)

subsection \<open>Device classes\<close>

text \<open>Fields of raw bytes are formatted as hexadecimal text.\<close>

definition item_ok :: "item \<Rightarrow> bool" where
  "item_ok it \<longleftrightarrow> printable (paramName it) \<and> (paramInFmt it = Hex \<longrightarrow> outFormatFn it = HexFn)"

lemma tables_ok: "list_all item_ok battery_table" "list_all item_ok meter_table" "list_all item_ok unknown_defn"
    "item_ok (undeciphered n)"
  by (simp_all add: battery_table_def meter_table_def unknown_defn_def undeciphered_def item_ok_def)

lemma grown_ok: "grown tbl ds \<Longrightarrow> list_all item_ok tbl \<Longrightarrow> list_all item_ok ds"
proof -
  assume g: "grown tbl ds" and t: "list_all item_ok tbl"
  have "list_all item_ok (drop (length tbl) ds)"
    using g tables_ok(4) unfolding grown_def list_all_iff by metis
  moreover have "list_all item_ok (take (length tbl) ds)" using g t by (simp add: grown_def)
  ultimately show "list_all item_ok ds" by (metis append_take_drop_id list_all_append)
qed

lemma parseField_clean:
  assumes "parseField data p it = Inr v" and "paramInFmt it = Fmt f"
  shows "clean v"
proof (cases "f = FF \<and> slice p (p + paramLen it) data = [0xff, 0xff, 0x7f, 0xff]")
  case False
  then obtain vs v0 where v: "unpack LE [f] (slice p (p + paramLen it) data) = Inr vs" "py_index vs 0 = Inr v0"
      "(case v0 of PBytes b \<Rightarrow> rbind (decode_utf8 b) (\<lambda>s. Inr (PStr (strip_nul s))) | _ \<Rightarrow> Inr v0) = Inr v"
    using assms by (auto simp: parseField_def Let_def res_simps)
  have "\<exists>bs. v0 = dec_any LE f bs" using v(1,2) by (auto simp: unpack_def py_index_def split: if_splits)
  then show ?thesis using v(3) by (cases f) (auto simp: dec_any_def res_simps decoded_text_ok)
qed (use assms in \<open>auto simp: parseField_def Let_def\<close>)

lemma formatField_clean:
  assumes "formatField lt it v (dput (KS (paramName it)) v d) = Inr d'" and "parseField data p it = Inr v"
    and "plain_dict d" and "item_ok it"
  shows "plain_dict d'"
proof -
  have name: "text_ok (paramName it)" using assms(4) by (simp add: item_ok_def printable_text_ok)
  show ?thesis
  proof (cases "outFormatFn it")
    case HexFn
    then obtain b where "d' = dput (KS (paramName it)) (PStr (hexData b)) d"
      using assms(1) by (auto simp: formatField_def dput_twice split: pyval.splits)
    then show ?thesis using assms(3) name by (auto intro!: clean_dict_dput simp: printable_text_ok)
  next
    case NoFn
    then obtain f where "paramInFmt it = Fmt f" using assms(4) by (cases "paramInFmt it") (auto simp: item_ok_def)
    then have "clean v" using parseField_clean assms(2) by blast
    then show ?thesis using assms(1,3) name NoFn by (auto simp: formatField_def intro!: clean_dict_dput)
  next
    case DateTime
    then obtain f where "paramInFmt it = Fmt f" using assms(4) by (cases "paramInFmt it") (auto simp: item_ok_def)
    then have "clean v" using parseField_clean assms(2) by blast
    then show ?thesis using assms(1,3) name DateTime
      by (auto simp: formatField_def printable_text_ok intro!: clean_dict_dput split: pyval.splits)
  qed
qed

lemma parseFields_clean:
  "parseFields lt data its p d = Inr d' \<Longrightarrow> list_all item_ok its \<Longrightarrow> plain_dict d \<Longrightarrow> plain_dict d'"
proof (induction its arbitrary: p d)
  case (Cons it its)
  obtain v d1 where v: "parseField data p it = Inr v" "formatField lt it v (dput (KS (paramName it)) v d) = Inr d1"
      "parseFields lt data its (p + paramLen it) d1 = Inr d'"
    using Cons.prems(1) by (auto simp: res_simps)
  show ?case using Cons.IH [OF v(3)] formatField_clean [OF v(2,1)] Cons.prems(2,3) by simp
qed simp

definition device_ok :: "string \<Rightarrow> device \<Rightarrow> bool" where
  "device_ok name dev \<longleftrightarrow> plain_dict (d_items dev) \<and> (\<exists>s. d_seId dev = KS s \<and> text_ok s) \<and>
     (\<exists>s. d_devType dev = name @ ''_'' @ s) \<and> text_ok (d_devType dev)"

lemma parseDevTable_clean:
  assumes "parseDevTable lt name data ds d = (ds', Inr dev)" and "list_all item_ok ds" "plain_dict d" "printable name"
  shows "device_ok name dev \<and> list_all item_ok ds'"
proof (cases "unpackHdr (slice 0 devHdrLen data)")
  case (Inr h)
  obtain seType seId devLen where h: "h = (seType, seId, devLen)" by (cases h)
  let ?d = "dupdate [(KS ''seType'', PStr (hex06 seType)), (KS ''seId'', PStr (parseId seId)),
      (KS ''devLen'', PInt devLen), (KS ''devType'', PStr (name @ ''_'' @ hex06 seType))] d"
  have d: "plain_dict ?d" using assms(3,4) by (intro clean_dict_dupdate) (simp_all add: printable_text_ok)
  have "list_all item_ok ds'" using assms(1,2) tables_ok(4) Inr h
    by (auto simp: parseDevTable_def Let_def split: if_splits)
  moreover obtain d' where "parseFields lt data ds' devHdrLen ?d = Inr d'" "d_items dev = d'"
      "d_seId dev = KS (parseId seId)" "d_devType dev = name @ ''_'' @ hex06 seType"
    using assms(1) Inr h by (auto simp: parseDevTable_def Let_def res_simps split: if_splits)
  ultimately show ?thesis using parseFields_clean [OF _ _ d] assms(4) by (auto simp: device_ok_def printable_text_ok)
qed (use assms in \<open>simp add: parseDevTable_def\<close>)

lemma deviceInit_clean:
  assumes "deviceInit lt name f hyps data ds d = (ds', Inr dev)" and "list_all item_ok ds" "plain_dict d" "printable name"
    and "\<forall>e e'. f e = Inr e' \<longrightarrow> plain_dict e \<longrightarrow> plain_dict e'"
  shows "device_ok name dev \<and> list_all item_ok ds'"
proof -
  obtain dev1 where dev1: "parseDevTable lt name data ds d = (ds', Inr dev1)"
      "f (d_items dev1) = Inr (d_items dev)" "d_seId dev = d_seId dev1" "d_devType dev = d_devType dev1"
    using assms(1) by (auto simp: deviceInit_def setDerivationDefaults_def res_simps split: prod.splits)
  show ?thesis using parseDevTable_clean [OF dev1(1) assms(2-4)] assms(5) dev1(2-4) by (auto simp: device_ok_def)
qed

lemma meterDerivations_clean: "meterDerivations e = Inr e' \<Longrightarrow> plain_dict e \<Longrightarrow> plain_dict e'"
  by (auto simp: meterDerivations_def res_simps printable_text_ok intro!: clean_dict_dput split: if_splits)

lemma known_devices_clean:
  "batteryInit lt data ds d = (ds', Inr dev) \<Longrightarrow> list_all item_ok ds \<Longrightarrow> plain_dict d \<Longrightarrow> device_ok ''batteries'' dev \<and> list_all item_ok ds'"
  "meterInit lt data ds d = (ds', Inr dev) \<Longrightarrow> list_all item_ok ds \<Longrightarrow> plain_dict d \<Longrightarrow> device_ok ''meters'' dev \<and> list_all item_ok ds'"
  "unknownInit lt data ds d = (ds', Inr dev) \<Longrightarrow> list_all item_ok ds \<Longrightarrow> plain_dict d \<Longrightarrow> device_ok ''Unknown_device'' dev \<and> list_all item_ok ds'"
  unfolding batteryInit_def meterInit_def unknownInit_def
  using deviceInit_clean meterDerivations_clean by (auto 0 4)

text \<open>The exploratory parser, which a block of type 0xffff gets: its identifier is an integer.\<close>

definition xclean :: "xstate \<Rightarrow> bool" where
  "xclean st \<longleftrightarrow> (\<forall>d. snd st = Inr d \<longrightarrow> plain_dict d)"

lemma printable_offset_name [simp]: "printable pre \<Longrightarrow> printable post \<Longrightarrow> printable (offset_name pre n post)"
  by (simp add: offset_name_def)

lemma xput_clean:
  assumes "xclean st" "printable name" "\<forall>x. v = Inr x \<longrightarrow> clean x"
  shows "xclean (xput name v st)"
proof -
  obtain names r where st: "st = (names, r)" by (cases st)
  have "plain_dict (dput (KS name) x d)" if "r = Inr d" "v = Inr x" for d x
    using assms that st by (intro clean_dict_dput) (simp_all add: xclean_def printable_text_ok)
  then show ?thesis by (cases r; cases v) (simp_all add: st xput_def xclean_def)
qed

lemma xdates_clean: "xclean st \<Longrightarrow> xclean (xdates lt n v st)"
proof -
  assume c: "xclean st"
  obtain names r where st: "st = (names, r)" by (cases st)
  show ?thesis
  proof (cases "\<exists>d x. r = Inr d \<and> v = Inr x")
    case True
    then obtain d x where r: "r = Inr d" "v = Inr x" by blast
    have d: "plain_dict d" using c by (simp add: xclean_def st r)
    show ?thesis
      by (auto simp: st r xdates_def xclean_def Let_def printable_text_ok d intro!: clean_dict_dput)
  next
    case False
    then show ?thesis by (cases r; cases v) (simp_all add: st xdates_def xclean_def)
  qed
qed

lemma unpack1_clean: "unpack1 en f bs = Inr v \<Longrightarrow> (\<And>n. f \<noteq> FS n) \<Longrightarrow> clean v"
  by (cases f) (auto simp: unpack1_def res_simps unpack_def py_index_def dec_any_def split: if_splits)

lemma parseAtOffset_clean: "xclean st \<Longrightarrow> xclean (parseAtOffset lt data offset devlen st)"
  unfolding parseAtOffset_def Let_def
  by (auto intro!: xput_clean xdates_clean simp: printable_text_ok dest: unpack1_clean)

lemma parseAtOffsets_clean: "xclean st \<Longrightarrow> xclean (fold (\<lambda>offset. parseAtOffset lt data offset devlen) offsets st)"
  by (induction offsets arbitrary: st) (simp_all add: parseAtOffset_clean)

definition explored :: "int \<Rightarrow> device \<Rightarrow> bool" where
  "explored seType dev \<longleftrightarrow> plain_dict (d_items dev) \<and> (\<exists>i. d_seId dev = KI i) \<and> d_devType dev = ''explore_'' @ hex06 seType"

lemma explorerInit_clean:
  assumes "explorerInit lt data names d = (names', Inr dev)" and "plain_dict d"
    and "unpackHdr (slice 0 devHdrLen data) = Inr (seType, seId, devLen)"
  shows "explored seType dev"
proof -
  let ?d = "dput (KS ''AllAsHex'') (PStr (hexData (drop devHdrLen data)))
      (dupdate [(KS ''seType'', PStr (hex06 seType)), (KS ''seId'', PStr (parseId seId)),
                (KS ''devLen'', PInt devLen), (KS ''devType'', PStr (''explore_'' @ hex06 seType))] d)"
  let ?st = "fold (\<lambda>offset. parseAtOffset lt (drop devHdrLen data) offset devLen) (map (\<lambda>i. 2 * i) [0..<(nat devLen + 1) div 2])
      (names, Inr ?d)"
  have "plain_dict ?d"
    using assms(2) by (intro clean_dict_dput clean_dict_dupdate) (simp_all add: printable_text_ok)
  then have "xclean ?st" by (intro parseAtOffsets_clean) (simp add: xclean_def)
  moreover obtain n r where st: "?st = (n, r)" by fastforce
  moreover have "explorerInit lt data names d = (n, rbind (rbind r (\<lambda>d. Inr \<lparr>d_items = d, d_seId = KI seId, d_devType = ''explore_'' @ hex06 seType\<rparr>))
      (\<lambda>dev. rbind (checkHypotheses [] (setDerivationDefaults [] (d_items dev))) (\<lambda>warnings. Inr dev)))"
    using assms(3) st by (simp add: explorerInit_def explorerTable_def Let_def)
  ultimately have "xclean (n, r)" and ok: "r = Inr (d_items dev)" "d_seId dev = KI seId" "d_devType dev = ''explore_'' @ hex06 seType"
    using assms(1) by (cases r; auto simp: res_simps)+
  then show ?thesis by (simp add: explored_def xclean_def)
qed

subsection \<open>A device and its identifiers\<close>

text \<open>
  The dictionaries of the collected devices have text as keys, except for the exploratory parser,
  whose devices are kept by number: each dictionary has keys of one kind.
\<close>

definition explore_name :: string where
  "explore_name = ''explore_0xffff''"

definition dev_value :: "pykey \<Rightarrow> pyval \<Rightarrow> bool" where
  "dev_value k v \<longleftrightarrow> (if k = KS explore_name then (\<exists>d. v = PDict d \<and> clean_dict is_KI (\<lambda>k. clean) d) else clean v)"

definition devs_ok :: "pydict \<Rightarrow> bool" where
  "devs_ok d \<longleftrightarrow> clean_dict plain_key dev_value d"

lemma plain_key_text_ok: "plain_key (KS s) \<Longrightarrow> text_ok s"
  by simp

lemma initTwice_explorer:
  assumes "initTwice (explorerInit lt data) names = (names', Inr dev)"
    and "unpackHdr (slice 0 devHdrLen data) = Inr (seType, seId, devLen)"
  shows "explored seType dev"
proof -
  obtain names1 dev1 where first: "explorerInit lt data names [] = (names1, Inr dev1)"
      "explorerInit lt data names1 (d_items dev1) = (names', Inr dev)"
    using assms(1) by (auto simp: initTwice_def split: prod.splits sum.splits)
  have "plain_dict (d_items dev1)" using explorerInit_clean [OF first(1) _ assms(2)] by (simp add: explored_def)
  from explorerInit_clean [OF first(2) this assms(2)] show ?thesis .
qed

definition known_device :: "devclass \<Rightarrow> device \<Rightarrow> bool" where
  "known_device c dev \<longleftrightarrow> (if c = Explorer then explored 0xffff dev
     else \<exists>name \<in> {''batteries'', ''meters'', ''Unknown_device''}. device_ok name dev)"

lemma newDevice_clean:
  assumes "newDevice lt data False cs = (cs', Inr (c, dev))" and "classes_ok cs"
  shows "known_device c dev"
proof (cases "unpackHdr (slice 0 devHdrLen data)")
  case (Inr h)
  obtain seType seId devLen where h: "h = (seType, seId, devLen)" by (cases h)
  note H = Inr [unfolded h]
  have ok: "list_all item_ok (battery_defn cs)" "list_all item_ok (meter_defn cs)"
    using assms(2) grown_ok tables_ok by (auto simp: classes_ok_def)
  consider "seType = 0x0030" | "seType = 0x0022" | "seType = 0xffff" | "seType \<noteq> 0x0030" "seType \<noteq> 0x0022" "seType \<noteq> 0xffff"
    by blast
  then show ?thesis
  proof cases
    case 1
    obtain ds where "batteryInit lt data (battery_defn cs) [] = (ds, Inr dev)" "c = Battery"
      using assms(1) by (auto simp: newDevice_known(1) [OF H 1] res_simps split: prod.splits)
    then show ?thesis using known_devices_clean(1) [OF _ ok(1)] by (auto simp: known_device_def)
  next
    case 2
    obtain ds where "meterInit lt data (meter_defn cs) [] = (ds, Inr dev)" "c = Meter"
      using assms(1) by (auto simp: newDevice_known(2) [OF H 2] res_simps split: prod.splits)
    then show ?thesis using known_devices_clean(2) [OF _ ok(2)] by (auto simp: known_device_def)
  next
    case 3
    obtain names where "initTwice (explorerInit lt data) (explorer_names cs) = (names, Inr dev)" "c = Explorer"
      using assms(1) H 3 by (auto simp: newDevice_def class_of_def res_simps split: prod.splits)
    then show ?thesis using initTwice_explorer H 3 by (auto simp: known_device_def)
  next
    case 4
    obtain ds where "unknownInit lt data unknown_defn [] = (ds, Inr dev)" "c = Unknown"
      using assms(1) H 4 by (auto simp: newDevice_def class_of_def res_simps split: prod.splits)
    then show ?thesis using known_devices_clean(3) [OF _ tables_ok(3)] by (auto simp: known_device_def)
  qed
qed (use assms in \<open>simp add: newDevice_def\<close>)

lemma printable_recTypeLabel [simp]: "printable (recTypeLabel r)"
  by (auto simp: recTypeLabel_def recTypeLabels_def dget_def split: option.split)

lemma hex06_ffff: "''explore_'' @ hex06 0xffff = explore_name"
proof -
  have "hexdig 15 = CHR ''f''" by (rule hexdig_chars)
  then show ?thesis by (simp add: explore_name_def hex06_def hex_str_def digits_of.simps zpad_def)
qed

lemma dlookup_clean: "plain_dict d \<Longrightarrow> dlookup d k = Inr v \<Longrightarrow> clean v"
  using clean_dict_dlookup by blast

lemma device_ok_dev_value:
  assumes "device_ok name dev" and "name \<in> {''batteries'', ''meters'', ''Unknown_device''}" and "plain_dict d"
  shows "devs_ok (wrapDevice dev d)"
proof -
  obtain s t where "d_seId dev = KS s" "text_ok s" "text_ok (d_devType dev)" "d_devType dev = name @ ''_'' @ t"
    using assms(1) unfolding device_ok_def by blast
  moreover then have "d_devType dev \<noteq> explore_name" using assms(2) by (auto simp: explore_name_def)
  ultimately show ?thesis
    using assms(3) by (simp add: devs_ok_def wrapDevice_def single_def dev_value_def)
qed

lemma wrap_in_ids_clean:
  assumes "wrap_in_ids c dev = Inr w" and "known_device c dev"
  shows "devs_ok w"
proof (cases "c = Explorer")
  case True
  then have "w = wrapDevice dev (d_items dev)" "explored 0xffff dev"
    using assms by (simp_all add: wrap_in_ids_def known_device_def)
  moreover have "text_ok explore_name" by (rule printable_text_ok) (simp add: explore_name_def)
  moreover obtain i where "d_seId dev = KI i" "d_devType dev = explore_name" "plain_dict (d_items dev)"
    using \<open>explored 0xffff dev\<close> unfolding explored_def hex06_ffff by blast
  ultimately show ?thesis by (simp add: devs_ok_def wrapDevice_def single_def dev_value_def)
next
  case False
  then obtain name where name: "name \<in> {''batteries'', ''meters'', ''Unknown_device''}" "device_ok name dev"
    using assms(2) by (auto simp: known_device_def)
  then have items: "plain_dict (d_items dev)" by (simp add: device_ok_def)
  have "\<exists>d. w = wrapDevice dev d \<and> plain_dict d"
  proof (cases c)
    case Battery
    then obtain v k where "dlookup (d_items dev) (KS ''batteryId'') = Inr v" "str_key v = Inr k" "w = wrapDevice dev (single k (d_items dev))"
      using assms(1) by (auto simp: wrap_in_ids_def wrapBattery_def res_simps)
    moreover then have "clean v" using dlookup_clean [OF items] by blast
    moreover then have "plain_key k" using \<open>str_key v = Inr k\<close> by (cases v) auto
    ultimately show ?thesis using items by (auto simp: single_def)
  next
    case Meter
    then obtain r where "w = wrapDevice dev (single (KS (recTypeLabel r)) (d_items dev))"
      using assms(1) by (auto simp: wrap_in_ids_def wrapMeter_def res_simps)
    then show ?thesis using items by (auto simp: single_def printable_text_ok)
  qed (use False items assms(1) in \<open>auto simp: wrap_in_ids_def\<close>)
  then show ?thesis using device_ok_dev_value [OF name(2,1)] by blast
qed

subsection \<open>Merging\<close>

lemma merge_clean:
  "merge_value vo v2 = Inr v \<Longrightarrow> (\<forall>v1. vo = Some v1 \<longrightarrow> clean v1) \<Longrightarrow> clean v2 \<Longrightarrow> clean v"
  "merge_update d1 d2 = Inr d \<Longrightarrow> clean_dict K (\<lambda>k. clean) d1 \<Longrightarrow> clean_dict K (\<lambda>k. clean) d2 \<Longrightarrow> clean_dict K (\<lambda>k. clean) d"
proof (induction vo v2 and d1 d2 arbitrary: v and K d rule: merge_value_merge_update.induct)
  case (2 v1 d2)
  then show ?case by (cases v1) (auto simp: res_simps split: if_splits)
next
  case (5 d1 k2 v2 rest)
  obtain v where v: "merge_value (dget d1 k2) v2 = Inr v" "merge_update (dput k2 v d1) rest = Inr d"
    using 5(3) by (auto simp: res_simps)
  have "K k2" "clean v2" "clean_dict K (\<lambda>k. clean) rest"
    using 5(5) by (auto simp: clean_dict_def dwf_def)
  moreover have "clean v" using 5(1) [OF v(1)] 5(4) clean_dict_dget \<open>clean v2\<close> by blast
  ultimately show ?case using 5(2) [OF v] 5(4) by (simp add: clean_dict_dput)
qed (auto split: if_splits)

lemma merge_devs:
  assumes "merge_update d1 [(k, v2)] = Inr d" and "devs_ok d1" "devs_ok [(k, v2)]"
  shows "devs_ok d"
proof -
  obtain v where v: "merge_value (dget d1 k) v2 = Inr v" "d = dput k v d1"
    using assms(1) by (auto simp: res_simps)
  have old: "dget d1 k = Some v1 \<Longrightarrow> dev_value k v1" for v1
    using assms(2) clean_dict_dget [of plain_key dev_value d1 k v1] by (simp add: devs_ok_def)
  have new: "plain_key k" "dev_value k v2" using assms(3) by (auto simp: devs_ok_def)
  have "dev_value k v"
  proof (cases "k = KS explore_name")
    case True
    then obtain d2 where d2: "v2 = PDict d2" "clean_dict is_KI (\<lambda>k. clean) d2" using new(2) by (auto simp: dev_value_def)
    show ?thesis
    proof (cases "dget d1 k")
      case (Some v1)
      then obtain e where "v1 = PDict e" "clean_dict is_KI (\<lambda>k. clean) e" using old True by (auto simp: dev_value_def)
      then show ?thesis using v(1) Some d2 True merge_clean(2) by (auto simp: dev_value_def res_simps)
    qed (use v(1) new(2) in simp)
  next
    case False
    then show ?thesis using merge_clean(1) [OF v(1)] old new(2) by (simp add: dev_value_def)
  qed
  then show ?thesis using assms(2) new(1) unfolding v(2) devs_ok_def by (intro clean_dict_dput)
qed

subsection \<open>A performance data message\<close>

definition acc_ok :: "parsed_devs \<Rightarrow> bool" where
  "acc_ok acc \<longleftrightarrow> plain_dict (invDict acc) \<and> plain_dict (optDict acc) \<and> plain_dict (eventDict acc) \<and> devs_ok (devsDict acc)"

lemma wrap_in_ids_single: "wrap_in_ids c dev = Inr w \<Longrightarrow> \<exists>k v. w = [(k, v)]"
  by (cases c) (auto simp: wrap_in_ids_def wrapBattery_def wrapMeter_def wrapDevice_def single_def res_simps)

lemma parseBlock_clean:
  assumes "parseBlock lt seType seId blk whole acc cs = (cs', Inr acc')" and "acc_ok acc" "classes_ok cs" "printable seId"
  shows "acc_ok acc'"
proof (cases "seType \<in> {0x0000, 0x0080, 0x0082, 0x0010, 0x0011, 0x0300}")
  case True
  have key: "plain_key (KS seId)" using assms(4) by (simp add: printable_text_ok)
  note put = clean_dict_dput [where K = plain_key and V = "\<lambda>k. clean"]
  note blocks = parseOptData_clean [OF _ assms(4)] parseNewOptData_clean [OF _ assms(4)] parseS440OptData_clean [OF _ assms(4)]
    parseInvData_clean [OF _ assms(4)] parseInv3PhData_clean [OF _ assms(4)] parseEventData_clean [OF _ assms(4)]
  from True assms(1,2) show ?thesis
    by (auto simp: parseBlock_def acc_ok_def res_simps intro!: put key [simplified] dest!: blocks)
      (erule (1) fixPmax_clean)
next
  case False
  then have "(case newDevice lt whole False cs of
             (cs', Inl e) \<Rightarrow> (cs', Inl e)
           | (cs', Inr (c, dev)) \<Rightarrow>
               (cs', rbind (wrap_in_ids c dev) (\<lambda>w. rbind (merge_update (devsDict acc) w) (\<lambda>m.
                  Inr (acc\<lparr>devsDict := m\<rparr>))))) = (cs', Inr acc')"
    using assms(1) by (simp add: parseBlock_def)
  then obtain c dev w m where new: "newDevice lt whole False cs = (cs', Inr (c, dev))" "wrap_in_ids c dev = Inr w"
      "merge_update (devsDict acc) w = Inr m" "acc' = acc\<lparr>devsDict := m\<rparr>"
    by (auto simp: res_simps split: prod.splits sum.splits)
  have "devs_ok w" using wrap_in_ids_clean [OF new(2) newDevice_clean [OF new(1) assms(3)]] .
  moreover obtain k v where "w = [(k, v)]" using wrap_in_ids_single [OF new(2)] by blast
  ultimately have "devs_ok m" using merge_devs new(3) assms(2) unfolding acc_ok_def by blast
  then show ?thesis using assms(2) by (simp add: new(4) acc_ok_def)
qed

lemma parseBlocks_clean:
  "parseBlocks lt data p acc cs = (cs', Inr acc') \<Longrightarrow> acc_ok acc \<Longrightarrow> classes_ok cs \<Longrightarrow> acc_ok acc'"
proof (induction lt data p acc cs rule: parseBlocks.induct)
  case (1 lt data p acc cs)
  show ?case
  proof (cases "p < length data")
    case True
    then obtain seType seId devLen where H: "unpackHdr (slice p (p + devHdrLen) data) = Inr (seType, seId, devLen)"
      using 1(2) by (cases "unpackHdr (slice p (p + devHdrLen) data)") (auto simp: parseBlocks.simps [of lt data p])
    let ?q = "p + devHdrLen"
    let ?e = "?q + nat devLen"
    let ?b = "parseBlock lt seType (parseId seId) (slice ?q ?e data) (slice (?q - devHdrLen) ?e data) acc cs"
    obtain cs1 acc1 where b: "?b = (cs1, Inr acc1)" and rest: "parseBlocks lt data ?e acc1 cs1 = (cs', Inr acc')"
      using 1(2) True H by (cases ?b, cases "snd ?b") (auto simp: parseBlocks.simps [of lt data p] Let_def)
    have "acc_ok acc1" using parseBlock_clean [OF b 1(3,4)] by simp
    moreover have "classes_ok cs1"
      using parseBlock_classes_ok [OF 1(4), of lt seType "parseId seId" "slice ?q ?e data"] b by (metis fst_conv)
    ultimately show ?thesis using 1(1) [OF True H refl refl refl refl b [symmetric] refl rest] by blast
  qed (use 1(2,3) in \<open>simp add: parseBlocks.simps\<close>)
qed

lemma devs_ok_ok: "devs_ok d \<Longrightarrow> writable (PDict d) \<and> readable (PDict d)"
proof -
  assume "devs_ok d"
  then have d: "clean_dict plain_key (\<lambda>k v. writable v \<and> readable v) d"
    unfolding devs_ok_def clean_dict_def
  proof (elim conjE, intro conjI ballI)
    fix kv
    assume all: "\<forall>(k, v) \<in> set d. plain_key k \<and> dev_value k v" and kv: "kv \<in> set d"
    obtain k v where "kv = (k, v)" by fastforce
    with all kv have kv': "plain_key k" "dev_value k v" "kv = (k, v)" by auto
    have "writable v \<and> readable v"
    proof (cases "k = KS explore_name")
      case True
      then obtain e where e: "v = PDict e" "clean_dict is_KI (\<lambda>k. clean) e" using kv'(2) by (auto simp: dev_value_def)
      have "writable (PDict e)" by (rule clean_dict_writable [OF e(2)]) (use clean_ok in blast)+
      moreover have "readable (PDict e)"
        by (rule clean_dict_readable [OF e(2)]) (use clean_ok in \<open>auto simp: key_text_def printable_text_ok elim!: is_KI.elims(2)\<close>)
      ultimately show ?thesis by (simp only: e(1))
    qed (use kv'(2) clean_ok in \<open>auto simp: dev_value_def\<close>)
    then show "case kv of (k, v) \<Rightarrow> plain_key k \<and> writable v \<and> readable v" using kv' by simp
  qed
  have "writable (PDict d)" by (rule clean_dict_writable [OF d]) (use plain_key_simps in blast)+
  moreover have "readable (PDict d)" by (rule clean_dict_readable [OF d]) (use plain_key_simps in blast)+
  ultimately show ?thesis by blast
qed

lemma parseDeviceData_clean:
  assumes "parseDeviceData lt data cs = (cs', Inr d)" and "classes_ok cs"
  shows "writable d \<and> readable d"
proof -
  obtain devs where p: "parseBlocks lt data 0 no_devs cs = (cs', Inr devs)"
      "d = PDict (dupdate [field_of ''inverters'' (PDict (invDict devs)), field_of ''optimizers'' (PDict (optDict devs)),
                           field_of ''events'' (PDict (eventDict devs))] (devsDict devs))"
    using assms(1) by (auto simp: parseDeviceData_def res_simps split: prod.splits)
  have "acc_ok no_devs" by (simp add: acc_ok_def no_devs_def devs_ok_def)
  then have "acc_ok devs" using parseBlocks_clean [OF p(1)] assms(2) by blast
  then have "devs_ok (dupdate [field_of ''inverters'' (PDict (invDict devs)), field_of ''optimizers'' (PDict (optDict devs)),
      field_of ''events'' (PDict (eventDict devs))] (devsDict devs))"
    unfolding devs_ok_def acc_ok_def
    by (intro clean_dict_dupdate) (simp_all add: dev_value_def explore_name_def printable_text_ok)
  then show ?thesis unfolding p(2) by (rule devs_ok_ok)
qed

lemma parseData_clean:
  "parseData lt PROT_CMD_SERVER_POST_DATA data cs = (cs', Inr d) \<Longrightarrow> classes_ok cs \<Longrightarrow> writable d \<and> readable d"
  using parseDeviceData_clean by (simp add: parseData_def noArgFunctions_def prot_defs)

text \<open>
  C3.  Performance data is always fit for the output: whatever the bytes of a message, and whatever was
  parsed before it, when they can be parsed the dictionary can be written as JSON, and the text is one
  printable line that \<^verbatim>\<open>json.loads\<close> turns back into the dictionary.
\<close>

theorem performance_data_is_json:
  assumes "classes_ok cs" and "parseData lt PROT_CMD_SERVER_POST_DATA data cs = (cs', Inr d)"
  shows "\<exists>s. dumps d = Inr s \<and> printable s \<and> json_loads (s @ [CHR 0x0A]) = Inr (decoded d)"
proof -
  have ok: "writable d" "readable d" using parseData_clean [OF assms(2,1)] by simp_all
  then obtain s where s: "dumps d = Inr s" using dumps_writable by blast
  moreover have "printable s" using dumps_one_line [of d] by (simp add: s)
  ultimately show ?thesis using loads_line [OF s ok(2)] by blast
qed

text \<open>One event.\<close>

definition event_data :: bytes where
  "event_data = [0,3, 7,0,0,0, 28,0, 0,0,0,0, 1,0,0,0, 1,0,0,0, 1,0,0,0, 1,0,0,0, 1,0,0,0, 1,0,0,0]"

definition event_items :: pydict where
  "event_items = [(KS ''Date'', PStr ''1970-01-01''), (KS ''Time'', PStr ''00:00:00''), (KS ''ID'', PStr ''7''),
     (KS ''Type'', PInt 1), (KS ''Event1'', PStr ''Thu Jan  1 00:00:01 1970''), (KS ''Event2'', PInt 1),
     (KS ''Event3'', PStr ''Thu Jan  1 00:00:01 1970'')]"

definition event_dict :: pyval where
  "event_dict = PDict [(KS ''inverters'', PDict []), (KS ''optimizers'', PDict []),
     (KS ''events'', PDict [(KS ''7'', PDict event_items)])]"

lemma event_msg_parsed: "snd (parseData utc_1970_01_01 PROT_CMD_SERVER_POST_DATA event_data initial_classes) = Inr event_dict"
  unfolding event_dict_def event_items_def event_data_def by code_simp

theorem performance_data_is_json_witness:
  "\<exists>s. dumps event_dict = Inr s \<and> printable s \<and> json_loads (s @ [CHR 0x0A]) = Inr (decoded event_dict)"
proof -
  obtain cs where "parseData utc_1970_01_01 PROT_CMD_SERVER_POST_DATA event_data initial_classes = (cs, Inr event_dict)"
    using event_msg_parsed by (metis prod.collapse)
  then show ?thesis by (rule performance_data_is_json [OF classes_ok_initial])
qed

end
