(* ===== verification/Feed.thy ===== *)
theory Feed
  imports MonitorProps JsonSafe
begin

text \<open>
  From the monitor to the scripts: what \<^verbatim>\<open>writeData\<close> has written, read line by line and decoded, is
  what the messages said.
\<close>

subsection \<open>The lines of a file\<close>





subsection \<open>The output of the monitor\<close>

definition json_file :: "pyval list \<Rightarrow> bytes" where
  "json_file vs = concat (map (\<lambda>v. case dumps v of Inr s \<Rightarrow> latin1 s @ [0x0A] | Inl e \<Rightarrow> []) vs)"




lemma json_file_simps [simp]: "json_file [] = []" "json_file (xs @ ys) = json_file xs @ json_file ys"
  by (simp_all add: json_file_def)

text \<open>
  In every mode, and however the reading ends, the output file holds whole lines of JSON only.
\<close>

definition holds_json :: "monitor \<Rightarrow> bool" where
  "holds_json st \<longleftrightarrow> (\<exists>vs. m_out st = Some (json_file vs))"

lemma writeData_holds_json: "preserves holds_json (writeData d)"
  unfolding preserves_def
proof (intro allI impI)
  fix st
  assume "holds_json st"
  then obtain vs where vs: "m_out st = Some (json_file vs)" by (auto simp: holds_json_def)
  show "holds_json (snd (writeData d st))"
  proof (cases "dumps d")
    case (Inl e)
    then show ?thesis using vs by (auto simp: writeData_def holds_json_def)
  next
    case (Inr s)
    then have "m_out (snd (writeData d st)) = Some (json_file (vs @ [d]))"
      using vs by (simp add: writeData_def json_file_def)
    then show ?thesis unfolding holds_json_def by blast
  qed
qed

interpretation out_kept: run_invariant holds_json
  by unfold_locales (auto simp: holds_json_def onWorld_def intro: writeData_holds_json)

theorem output_is_json:
  assumes "readData lt mode xerror updatefile st = Some (r, st')" and "m_out st = Some []"
  shows "\<exists>vs. m_out st' = Some (json_file vs)"
proof -
  have "holds_json st" using assms(2) by (auto simp: holds_json_def intro: exI [of _ "[]"])
  from out_kept.readData_ok [OF assms(1) this] show ?thesis by (simp add: holds_json_def)
qed












end
