(* ===== verification/Unwrap.thy ===== *)
theory Unwrap
  imports Json Merging
begin

text \<open>
  \<^verbatim>\<open>unwrap_metricsDict\<close> of \<^verbatim>\<open>conversion/common.py\<close>, which flattens the nested dictionaries of devices
  into names and items.  A generator that may raise is the list of the pairs it yields with the
  exception that ends it.
\<close>

subsection \<open>Names\<close>

text \<open>\<open>remove_text p s\<close> is \<^verbatim>\<open>s.replace(p, "")\<close> for a non-empty \<open>p\<close>.\<close>

fun remove_text :: "string \<Rightarrow> string \<Rightarrow> string" where
  "remove_text p [] = []"
| "remove_text p (c # s) =
     (if take (length p) (c # s) = p then remove_text p (drop (length p - 1) s)
      else c # remove_text p s)"

definition replace_char :: "char \<Rightarrow> char \<Rightarrow> string \<Rightarrow> string" where
  "replace_char a b s = map (\<lambda>c. if c = a then b else c) s"

definition nice_text :: "string \<Rightarrow> string" where
  "nice_text s = remove_text ''devices'' (replace_char (CHR '' '') (CHR ''_'') (remove_char (CHR 0x00) s))"

definition nice :: "pykey \<Rightarrow> string" where
  "nice k = nice_text (key_text k)"

subsection \<open>The generator\<close>

definition has_date :: "pydict \<Rightarrow> bool" where
  "has_date d \<longleftrightarrow> dget d (KS ''Date'') \<noteq> None"

definition glue :: "pykey \<Rightarrow> string \<times> pydict \<Rightarrow> string \<times> pydict" where
  "glue k kv = (case kv of (k2, v2) \<Rightarrow>
     if length (nice_text k2) = 0 then (nice k, v2)
     else if length (nice k) = 0 then (nice_text k2, v2)
     else (nice k @ ''.'' @ nice_text k2, v2))"

fun unwrap :: "pydict \<Rightarrow> (string \<times> pydict) generated" where
  "unwrap [] = ([], None)"
| "unwrap ((k, PDict v) # rest) =
     gen_then (if has_date v then ([(nice k, v)], None)
               else (case unwrap v of (ys, e) \<Rightarrow> (map (glue k) ys, e))) (unwrap rest)"
| "unwrap ((k, v) # rest) = ([], Some AttributeError)"

subsection \<open>The leaves of nested dictionaries\<close>

fun leaves :: "pydict \<Rightarrow> (pykey list \<times> pydict) list" where
  "leaves [] = []"
| "leaves ((k, PDict v) # rest) =
     (if has_date v then [([k], v)] else map (\<lambda>(ks, it). (k # ks, it)) (leaves v)) @ leaves rest"
| "leaves ((k, v) # rest) = leaves rest"

text \<open>Every value down to the dictionaries that hold a date is a dictionary.\<close>

fun devices_only :: "pydict \<Rightarrow> bool" where
  "devices_only [] = True"
| "devices_only ((k, PDict v) # rest) = ((has_date v \<or> devices_only v) \<and> devices_only rest)"
| "devices_only ((k, v) # rest) = False"

definition dotted :: "string list \<Rightarrow> string" where
  "dotted ps = join ''.'' (filter (\<lambda>p. p \<noteq> []) ps)"

text \<open>Removing \<open>devices\<close> once is enough.\<close>

definition steady_key :: "pykey \<Rightarrow> bool" where
  "steady_key k \<longleftrightarrow> nice_text (nice k) = nice k"

lemma remove_text_dot:
  "c \<notin> set p \<Longrightarrow> p \<noteq> [] \<Longrightarrow> remove_text p (a @ c # b) = remove_text p a @ remove_text p (c # b)"
proof (induction p a rule: remove_text.induct)
  case (2 p x s)
  have "take (length p) ((x # s) @ c # b) = p \<longleftrightarrow> take (length p) (x # s) = p"
  proof (cases "length p \<le> length (x # s)")
    case False
    then have "c \<in> set (take (length p) ((x # s) @ c # b))"
      by (auto simp: take_Cons')
    moreover have "length (take (length p) (x # s)) \<noteq> length p" using False by auto
    ultimately show ?thesis using "2.prems"(1) by metis
  next
    case True
    then have "take (length p) ((x # s) @ c # b) = take (length p) (x # s)"
      by (subst take_append) simp
    then show ?thesis by (simp only:)
  qed
  moreover have "drop (length p - 1) (s @ c # b) = drop (length p - 1) s @ c # b"
    if "take (length p) (x # s) = p"
  proof -
    have "length p \<le> Suc (length s)"
      using arg_cong [OF that, of length] by auto
    then show ?thesis by simp
  qed
  ultimately show ?case using "2.IH" "2.prems" by auto
qed simp

lemma remove_text_skip: "p \<noteq> [] \<Longrightarrow> c \<noteq> hd p \<Longrightarrow> remove_text p (c # b) = c # remove_text p b"
  by (cases p) auto

lemma nice_text_dot: "nice_text (a @ CHR ''.'' # b) = nice_text a @ CHR ''.'' # nice_text b"
  by (simp add: nice_text_def remove_char_def replace_char_def remove_text_dot remove_text_skip)

lemma nice_text_Nil [simp]: "nice_text [] = []"
  by (simp add: nice_text_def remove_char_def replace_char_def)

lemma nice_dotted:
  "(\<And>p. p \<in> set ps \<Longrightarrow> nice_text p = p) \<Longrightarrow> nice_text (join ''.'' ps) = join ''.'' ps"
  by (induction "''.''" ps rule: join.induct) (simp_all add: nice_text_dot)

lemma dotted_eq_Nil [simp]: "dotted ps = [] \<longleftrightarrow> (\<forall>p \<in> set ps. p = [])"
proof -
  have "join ''.'' qs = [] \<longleftrightarrow> qs = []" if "\<forall>q \<in> set qs. q \<noteq> []" for qs
    using that by (induction "''.''" qs rule: join.induct) simp_all
  then show ?thesis unfolding dotted_def by (simp add: filter_empty_conv)
qed

lemma join_Cons: "join sep (s # ss) = (if ss = [] then s else s @ sep @ join sep ss)"
  by (cases ss) simp_all

lemma dotted_Cons:
  "dotted (p # ps) = (if dotted ps = [] then p else if p = [] then dotted ps else p @ ''.'' @ dotted ps)"
proof -
  have "dotted ps = [] \<longleftrightarrow> filter (\<lambda>p. p \<noteq> []) ps = []"
    by (simp add: filter_empty_conv)
  then show ?thesis by (simp add: dotted_def join_Cons)
qed

lemma nice_text_dotted:
  "(\<And>k. k \<in> set ks \<Longrightarrow> steady_key k) \<Longrightarrow> nice_text (dotted (map nice ks)) = dotted (map nice ks)"
  unfolding dotted_def by (rule nice_dotted) (auto simp: steady_key_def)

lemma glue_dotted:
  "(\<And>k. k \<in> set ks \<Longrightarrow> steady_key k) \<Longrightarrow>
     glue k (dotted (map nice ks), it) = (dotted (map nice (k # ks)), it)"
  by (auto simp: glue_def nice_text_dotted dotted_Cons)

lemma dotted_single: "dotted [p] = p"
  by (simp add: dotted_def)

lemma unwrap_leaves:
  "devices_only d \<Longrightarrow> (\<And>ks it k. (ks, it) \<in> set (leaves d) \<Longrightarrow> k \<in> set ks \<Longrightarrow> steady_key k) \<Longrightarrow>
     unwrap d = (map (\<lambda>(ks, it). (dotted (map nice ks), it)) (leaves d), None)"
proof (induction d rule: unwrap.induct)
  case (2 k v rest)
  have rest: "unwrap rest = (map (\<lambda>(ks, it). (dotted (map nice ks), it)) (leaves rest), None)"
    using 2(2) 2(3,4) by fastforce
  show ?case
  proof (cases "has_date v")
    case True
    with rest show ?thesis by (simp add: dotted_single)
  next
    case False
    have steady_key: "steady_key k'" if "(ks, it) \<in> set (leaves v)" "k' \<in> set ks" for ks it k'
      using 2(4) [of "k # ks" it k'] that False by force
    have "unwrap v = (map (\<lambda>(ks, it). (dotted (map nice ks), it)) (leaves v), None)"
      using 2(1) [OF False] 2(3) False steady_key by simp
    moreover have "map (glue k) (map (\<lambda>(ks, it). (dotted (map nice ks), it)) (leaves v))
        = map (\<lambda>(ks, it). (dotted (map nice (k # ks)), it)) (leaves v)"
      using steady_key by (auto simp: glue_dotted simp del: list.map)
    ultimately show ?thesis using rest False by (auto simp: comp_def case_prod_beta)
  qed
qed auto

text \<open>
  The conversion scripts see every device once: flattening yields, in order, exactly the
  dictionaries that hold a date, each under the path of the keys that lead to it, cleaned of spaces,
  null characters and the level \<open>devices\<close> and joined with dots, and raises nothing.
\<close>

theorem unwrap_names:
  assumes "devices_only d" and "\<And>ks it k. (ks, it) \<in> set (leaves d) \<Longrightarrow> k \<in> set ks \<Longrightarrow> steady_key k"
  shows "unwrap d = (map (\<lambda>(ks, it). (dotted (map nice ks), it)) (leaves d), None)"
  using assms by (rule unwrap_leaves)

definition sample_line :: pydict where
  "sample_line =
     [(KS ''inverters'', PDict [(KS ''7E 1'', PDict [(KS ''Date'', PStr ''d''), (KS ''Vac'', PInt 1)])]),
      (KS ''devices'', PDict [(KS ''meters'', PDict [(KS ''8'', PDict [(KS ''Date'', PStr ''e'')])])]),
      (KS ''events'', PDict [])]"

theorem unwrap_names_witness:
  "unwrap sample_line =
     ([(''inverters.7E_1'', [(KS ''Date'', PStr ''d''), (KS ''Vac'', PInt 1)]),
       (''meters.8'', [(KS ''Date'', PStr ''e'')])], None)"
proof -
  have "devices_only sample_line"
    by (simp add: sample_line_def has_date_def dget_def)
  moreover have leaves: "leaves sample_line =
      [([KS ''inverters'', KS ''7E 1''], [(KS ''Date'', PStr ''d''), (KS ''Vac'', PInt 1)]),
       ([KS ''devices'', KS ''meters'', KS ''8''], [(KS ''Date'', PStr ''e'')])]"
    by (simp add: sample_line_def has_date_def dget_def)
  moreover have "steady_key k" if "(ks, it) \<in> set (leaves sample_line)" "k \<in> set ks" for ks it k
    using that unfolding leaves by (auto simp: steady_key_def nice_def nice_text_def key_text_def
      remove_char_def replace_char_def)
  ultimately show ?thesis
    using unwrap_names [of sample_line]
    by (simp add: leaves nice_def nice_text_def key_text_def remove_char_def replace_char_def dotted_def)
qed

text \<open>The inverse of wrapping a device in its identifiers.\<close>

lemma leaves_nest:
  "ks \<noteq> [] \<Longrightarrow> has_date items \<Longrightarrow> (\<forall>k \<in> set ks. k \<noteq> KS ''Date'') \<Longrightarrow> leaves (nest ks items) = [(ks, items)]"
proof (induction ks)
  case (Cons k ks)
  show ?case
  proof (cases ks)
    case (Cons k' ks')
    then have "KS ''Date'' \<noteq> k'" using Cons.prems by fastforce
    then have "\<not> has_date (nest ks items)" by (simp add: has_date_def dget_def Cons)
    with Cons Cons.IH Cons.prems show ?thesis by simp
  qed (use Cons.prems in simp)
qed simp

lemma devices_only_nest: "ks \<noteq> [] \<Longrightarrow> has_date items \<Longrightarrow> devices_only (nest ks items)"
proof (induction ks)
  case (Cons k ks)
  then show ?case by (cases ks) simp_all
qed simp

lemma unwrap_nest:
  assumes "ks \<noteq> []" and "has_date items" and "\<And>k. k \<in> set ks \<Longrightarrow> k \<noteq> KS ''Date'' \<and> steady_key k"
  shows "unwrap (nest ks items) = ([(dotted (map nice ks), items)], None)"
  using unwrap_leaves [OF devices_only_nest [OF assms(1,2)]] leaves_nest [OF assms(1,2)] assms(3)
  by auto

end
