(* ===== verification/Collected.thy ===== *)
theory Collected
  imports Unwrap Devices
begin

text \<open>
  The devices of a message meet the conversion scripts: what merging a device under its identifiers
  adds to the flattened dictionary.
\<close>

text \<open>Free of values at the path and of devices on the way to it.\<close>

fun free_path :: "pykey list \<Rightarrow> pydict \<Rightarrow> bool" where
  "free_path [] d = False"
| "free_path (k # ks) d = (case dget d k of
       None \<Rightarrow> True
     | Some (PDict d') \<Rightarrow> \<not> has_date d' \<and> free_path ks d'
     | Some _ \<Rightarrow> False)"

lemma free_path_room: "free_path ks d \<Longrightarrow> room ks d"
  by (induction ks d rule: free_path.induct) (auto split: option.splits pyval.splits)

lemma leaves_append: "leaves (d @ e) = leaves d @ leaves e"
  by (induction d rule: leaves.induct) auto

lemma devices_only_append: "devices_only (d @ e) \<longleftrightarrow> devices_only d \<and> devices_only e"
  by (induction d rule: devices_only.induct) auto

text \<open>The leaves below one key, with the key put in front of their paths.\<close>

definition below :: "pykey \<Rightarrow> (pykey list \<times> pydict) list \<Rightarrow> (pykey list \<times> pydict) list" where
  "below k ls = map (\<lambda>(ks, it). (k # ks, it)) ls"

lemma leaves_replace:
  "dget d k = Some (PDict d1) \<Longrightarrow> \<not> has_date d1 \<Longrightarrow> \<not> has_date d2 \<Longrightarrow>
     \<exists>xs ys. leaves d = xs @ below k (leaves d1) @ ys \<and> leaves (dput k (PDict d2) d) = xs @ below k (leaves d2) @ ys"
proof (induction d)
  case (Cons kv d)
  obtain k0 v0 where kv: "kv = (k0, v0)" by (cases kv)
  have split: "leaves ((k0, v) # e) = leaves [(k0, v)] @ leaves e" for v e
    using leaves_append [of "[(k0, v)]" e] by simp
  show ?case
  proof (cases "k0 = k")
    case True
    then have "v0 = PDict d1" using Cons.prems(1) by (simp add: kv dget_Cons)
    then show ?thesis
      using Cons.prems(2,3) True
      by (intro exI [of _ "[]"] exI [of _ "leaves d"]) (simp add: kv dput_def below_def)
  next
    case False
    then have "dget d k = Some (PDict d1)" using Cons.prems(1) by (simp add: kv dget_Cons)
    then obtain xs ys where xy: "leaves d = xs @ below k (leaves d1) @ ys"
        "leaves (dput k (PDict d2) d) = xs @ below k (leaves d2) @ ys"
      using Cons.IH Cons.prems(2,3) by blast
    have "dput k (PDict d2) (kv # d) = (k0, v0) # dput k (PDict d2) d"
      using False by (simp add: kv dput_def)
    then have "leaves (dput k (PDict d2) (kv # d)) = (leaves [(k0, v0)] @ xs) @ below k (leaves d2) @ ys"
      using split [of v0 "dput k (PDict d2) d"] xy(2) by (simp only: append_assoc)
    moreover have "leaves (kv # d) = (leaves [(k0, v0)] @ xs) @ below k (leaves d1) @ ys"
      using split [of v0 d] xy(1) by (simp only: kv append_assoc)
    ultimately show ?thesis by blast
  qed
qed simp

lemma devices_only_replace:
  "devices_only d \<Longrightarrow> devices_only d2 \<Longrightarrow> devices_only (dput k (PDict d2) d)"
proof (induction d)
  case Nil
  then show ?case by (simp add: dput_def)
next
  case (Cons kv d)
  obtain k0 v0 where kv: "kv = (k0, v0)" by (cases kv)
  have split: "devices_only ((k0, v) # e) \<longleftrightarrow> devices_only [(k0, v)] \<and> devices_only e" for v e
    using devices_only_append [of "[(k0, v)]" e] by simp
  show ?case
    using Cons split [of v0 d] split [of v0 "dput k (PDict d2) d"] by (auto simp: kv dput_def)
qed

lemma devices_only_dget: "devices_only d \<Longrightarrow> dget d k = Some (PDict d1) \<Longrightarrow> \<not> has_date d1 \<Longrightarrow> devices_only d1"
proof (induction d rule: devices_only.induct)
  case (2 k0 v rest)
  then show ?case by (cases "k0 = k") (auto simp: dget_Cons)
qed (auto simp: dget_Cons)

lemma has_date_nest: "k \<noteq> KS ''Date'' \<Longrightarrow> \<not> has_date (nest (k # ks) items)"
  by (simp add: has_date_def dget_Cons)

lemma merge_nest_leaves:
  "free_path ks d \<Longrightarrow> devices_only d \<Longrightarrow> has_date items \<Longrightarrow> \<forall>k \<in> set ks. k \<noteq> KS ''Date'' \<Longrightarrow>
     \<exists>d' xs ys. merge_update d (nest ks items) = Inr d' \<and> devices_only d' \<and>
       leaves d = xs @ ys \<and> leaves d' = xs @ [(ks, items)] @ ys"
proof (induction ks arbitrary: d)
  case (Cons k ks)
  show ?case
  proof (cases "dget d k")
    case None
    have new: "dput k (PDict (nest ks items)) d = d @ [(k, PDict (nest ks items))]"
      using None by (induction d) (auto simp: dput_def dget_def split: if_splits)
    have "leaves [(k, PDict (nest ks items))] = [(k # ks, items)]"
      using leaves_nest [of "k # ks" items] Cons.prems(3,4) by simp
    moreover have "devices_only [(k, PDict (nest ks items))]"
      using devices_only_nest [of "k # ks" items] Cons.prems(3) by simp
    ultimately show ?thesis
      using None Cons.prems(2)
      by (intro exI [of _ "dput k (PDict (nest ks items)) d"] exI [of _ "leaves d"] exI [of _ "[]"])
         (simp add: new leaves_append devices_only_append del: leaves.simps)
  next
    case (Some v)
    then obtain d1 where d1: "v = PDict d1" "\<not> has_date d1" "free_path ks d1"
      using Cons.prems(1) by (cases v) auto
    have only: "devices_only d1" using devices_only_dget [OF Cons.prems(2)] Some d1 by simp
    obtain d2 xs ys where d2: "merge_update d1 (nest ks items) = Inr d2" "devices_only d2"
        "leaves d1 = xs @ ys" "leaves d2 = xs @ [(ks, items)] @ ys"
      using Cons.IH [OF d1(3) only Cons.prems(3)] Cons.prems(4) by auto
    obtain k2 ks2 where ks: "ks = k2 # ks2" using d1(3) by (cases ks) auto
    have "dget d2 (KS ''Date'') = dget d1 (KS ''Date'')"
      using d2(1) Cons.prems(4) by (auto simp: ks res_simps)
    then have "\<not> has_date d2" using d1(2) by (simp add: has_date_def)
    then obtain us vs where uv: "leaves d = us @ below k (leaves d1) @ vs"
        "leaves (dput k (PDict d2) d) = us @ below k (leaves d2) @ vs"
      using leaves_replace [OF _ d1(2)] Some d1(1) by blast
    show ?thesis
    proof (intro exI conjI)
      show "merge_update d (nest (k # ks) items) = Inr (dput k (PDict d2) d)"
        using Some d1(1) d2(1) by simp
      show "devices_only (dput k (PDict d2) d)" using devices_only_replace [OF Cons.prems(2) d2(2)] .
      show "leaves d = (us @ below k xs) @ (below k ys @ vs)" using uv(1) by (simp add: d2(3) below_def)
      show "leaves (dput k (PDict d2) d) = (us @ below k xs) @ [(k # ks, items)] @ (below k ys @ vs)"
        using uv(2) by (simp add: d2(4) below_def)
    qed
  qed
qed simp

subsection \<open>Devices\<close>

text \<open>The identifiers of a device that follow its type and its number, by its class.\<close>

definition extra_ids :: "devclass \<Rightarrow> device \<Rightarrow> pykey list" where
  "extra_ids c dev = (case c of
       Battery \<Rightarrow> (case dget (d_items dev) (KS ''batteryId'') of Some (PStr s) \<Rightarrow> [KS s] | _ \<Rightarrow> [])
     | Meter \<Rightarrow> (case dget (d_items dev) (KS ''recType'') of Some (PInt r) \<Rightarrow> [KS (recTypeLabel r)] | _ \<Rightarrow> [])
     | _ \<Rightarrow> [])"

definition identifiers :: "devclass \<Rightarrow> device \<Rightarrow> pykey list" where
  "identifiers c dev = [KS (d_devType dev), d_seId dev] @ extra_ids c dev"

lemma str_key_Inr: "str_key v = Inr k \<longleftrightarrow> (\<exists>s. v = PStr s \<and> k = KS s)"
  and int_of_Inr: "int_of v = Inr i \<longleftrightarrow> v = PInt i"
  by (cases v; auto)+

lemma wrap_in_ids_nest: "wrap_in_ids c dev = Inr w \<Longrightarrow> w = nest (identifiers c dev) (d_items dev)"
  by (cases c)
     (auto simp: wrap_in_ids_def wrapBattery_def wrapMeter_def wrapDevice_def single_def identifiers_def extra_ids_def
        res_simps dlookup_def str_key_Inr int_of_Inr split: option.splits)

lemma merged_device_unwraps:
  assumes "free_path ks devs" and "devices_only devs" and "has_date items"
    and "\<forall>k \<in> set ks. k \<noteq> KS ''Date'' \<and> steady_key k"
    and "\<forall>(ks', it) \<in> set (leaves devs). \<forall>k \<in> set ks'. steady_key k"
  shows "\<exists>devs' xs ys. merge_update devs (nest ks items) = Inr devs' \<and> unwrap devs = (xs @ ys, None) \<and>
    unwrap devs' = (xs @ [(dotted (map nice ks), items)] @ ys, None)"
proof -
  obtain devs' xs ys where m: "merge_update devs (nest ks items) = Inr devs'" "devices_only devs'"
      "leaves devs = xs @ ys" "leaves devs' = xs @ [(ks, items)] @ ys"
    using merge_nest_leaves [OF assms(1-3)] assms(4) by blast
  let ?name = "\<lambda>(ks, it). (dotted (map nice ks), it :: pydict)"
  have "unwrap devs = (map ?name (xs @ ys), None)"
    unfolding m(3) [symmetric] by (rule unwrap_leaves [OF assms(2)]) (use assms(5) in auto)
  moreover have "unwrap devs' = (map ?name (xs @ [(ks, items)] @ ys), None)"
    unfolding m(4) [symmetric] by (rule unwrap_leaves [OF m(2)]) (use assms(4,5) m(3,4) in fastforce)
  ultimately show ?thesis using m(1) by auto
qed

text \<open>
  C37.  A battery, meter or unknown device reaches the conversion scripts: when the monitor wraps it in
  its identifiers and merges it into the devices collected so far, at a place where nothing is yet,
  flattening the result yields what it yielded before, in the same order, with one new entry, the items
  of the device under the dotted name of its type, its number and, for batteries and meters, the
  battery or the kind of record.
\<close>

theorem device_reaches_scripts:
  assumes "wrap_in_ids c dev = Inr w" and "has_date (d_items dev)"
    and "free_path (identifiers c dev) devs" and "devices_only devs"
    and "\<forall>k \<in> set (identifiers c dev). k \<noteq> KS ''Date'' \<and> steady_key k"
    and "\<forall>(ks, it) \<in> set (leaves devs). \<forall>k \<in> set ks. steady_key k"
  shows "\<exists>devs' xs ys. merge_update devs w = Inr devs' \<and> unwrap devs = (xs @ ys, None) \<and>
    unwrap devs' = (xs @ [(dotted (map nice (identifiers c dev)), d_items dev)] @ ys, None)"
  unfolding wrap_in_ids_nest [OF assms(1)] using assms(3,4,2,5,6) by (rule merged_device_unwraps)

definition sample_meter :: device where
  "sample_meter = \<lparr>d_items = [(KS ''Date'', PStr ''d''), (KS ''recType'', PInt 5)], d_seId = KS ''7E2'', d_devType = ''meters_0x0022''\<rparr>"

theorem device_reaches_scripts_witness:
  "\<exists>w devs'. wrap_in_ids Meter sample_meter = Inr w \<and> merge_update sample_line w = Inr devs' \<and>
     (''meters_0x0022.7E2.5_GridImportExport'', d_items sample_meter) \<in> set (fst (unwrap devs'))"
proof -
  note text_simps = nice_def nice_text_def key_text_def remove_char_def replace_char_def
  have ids: "identifiers Meter sample_meter = [KS ''meters_0x0022'', KS ''7E2'', KS ''5_GridImportExport'']"
    by (simp add: identifiers_def extra_ids_def sample_meter_def recTypeLabel_def recTypeLabels_def dget_Cons)
  have steady: "steady_key (KS ''meters_0x0022'')" "steady_key (KS ''7E2'')" "steady_key (KS ''5_GridImportExport'')"
      "steady_key (KS ''inverters'')" "steady_key (KS ''7E 1'')" "steady_key (KS ''devices'')"
      "steady_key (KS ''meters'')" "steady_key (KS ''8'')"
    by (simp_all add: steady_key_def text_simps)
  obtain w where w: "wrap_in_ids Meter sample_meter = Inr w"
    by (simp add: wrap_in_ids_def wrapMeter_def sample_meter_def dlookup_def dget_Cons)
  have "has_date (d_items sample_meter)" by (simp add: has_date_def sample_meter_def dget_Cons)
  moreover have "free_path (identifiers Meter sample_meter) sample_line" "devices_only sample_line"
    by (simp_all add: ids sample_line_def has_date_def dget_Cons)
  moreover have "\<forall>k \<in> set (identifiers Meter sample_meter). k \<noteq> KS ''Date'' \<and> steady_key k"
    using steady by (simp add: ids)
  moreover have "\<forall>(ks, it) \<in> set (leaves sample_line). \<forall>k \<in> set ks. steady_key k"
    using steady by (auto simp: sample_line_def has_date_def dget_Cons)
  ultimately obtain devs' xs ys where "merge_update sample_line w = Inr devs'"
      "unwrap devs' = (xs @ [(dotted (map nice (identifiers Meter sample_meter)), d_items sample_meter)] @ ys, None)"
    using device_reaches_scripts [OF w, of sample_line] by blast
  moreover have "dotted (map nice (identifiers Meter sample_meter)) = ''meters_0x0022.7E2.5_GridImportExport''"
    unfolding ids by (simp add: dotted_def text_simps)
  ultimately show ?thesis using w by simp
qed

end
