(* ===== verification/ArgParse.thy ===== *)
theory ArgParse
  imports Env PyVal
begin

text \<open>
  \<^verbatim>\<open>argparse\<close> of the standard library, as far as the programs use it: options with one value or none,
  long options with their abbreviations, and at most one optional operand.  A parser is a table; the
  values have any type.  Messages are left out: \<^verbatim>\<open>parse_args\<close> either returns the namespace, or prints
  the help, or prints the usage and exits with an error.
\<close>

subsection \<open>Tables\<close>

datatype 'v action = ShowHelp | Flag "'v \<Rightarrow> 'v" | Store "string \<Rightarrow> 'v option"

record 'v opt =
  o_names :: "string list"
  o_dest :: string
  o_action :: "'v action"
  o_required :: bool

record 'v argparser =
  p_options :: "'v opt list"
  p_operand :: "(string \<times> (string \<Rightarrow> 'v option)) option"
  p_defaults :: "(string \<times> 'v) list"

datatype exit = HelpShown | UsageError

text \<open>An option with one value, and a switch.\<close>

definition valued :: "string list \<Rightarrow> string \<Rightarrow> (string \<Rightarrow> 'v option) \<Rightarrow> 'v opt" where
  "valued ns d conv = \<lparr>o_names = ns, o_dest = d, o_action = Store conv, o_required = False\<rparr>"

definition switch :: "string list \<Rightarrow> string \<Rightarrow> ('v \<Rightarrow> 'v) \<Rightarrow> 'v opt" where
  "switch ns d f = \<lparr>o_names = ns, o_dest = d, o_action = Flag f, o_required = False\<rparr>"

definition helpOption :: "'v opt" where
  "helpOption = \<lparr>o_names = [''-h'', ''--help''], o_dest = ''help'', o_action = ShowHelp, o_required = False\<rparr>"

type_synonym 'v strings = "(string \<times> 'v opt) list"

definition option_strings :: "'v argparser \<Rightarrow> 'v strings" where
  "option_strings p = concat (map (\<lambda>o1. map (\<lambda>n. (n, o1)) (o_names o1)) (helpOption # p_options p))"

definition takes_value :: "'v opt \<Rightarrow> bool" where
  "takes_value o1 = (case o_action o1 of Store conv \<Rightarrow> True | _ \<Rightarrow> False)"

subsection \<open>Words\<close>

text \<open>
  A word is an argument, \<^verbatim>\<open>--\<close>, an option as it was spelled, with an explicit value (and whether an
  equals sign precedes it), or looks like an option and is none.
\<close>

datatype 'v token = TArg string | TDash | TOpt "'v opt" string "(bool \<times> string) option" | TUnknown string

definition starts :: "string \<Rightarrow> string \<Rightarrow> bool" where
  "starts pre s \<longleftrightarrow> take (length pre) s = pre"

definition partition_eq :: "string \<Rightarrow> string \<times> (bool \<times> string) option" where
  "partition_eq s = (case dropWhile (\<lambda>c. c \<noteq> CHR ''='') s of
       [] \<Rightarrow> (s, None) | e # x \<Rightarrow> (takeWhile (\<lambda>c. c \<noteq> CHR ''='') s, Some (True, x)))"

definition option_tuples :: "'v strings \<Rightarrow> string \<Rightarrow> 'v token list" where
  "option_tuples tbl s =
     (if take 2 s = ''--''
      then (case partition_eq s of (pre, x) \<Rightarrow> map (\<lambda>(n, o1). TOpt o1 n x) (filter (\<lambda>(n, o1). starts pre n) tbl))
      else concat (map (\<lambda>(n, o1).
             if n = take 2 s then [TOpt o1 n (Some (False, drop 2 s))]
             else if starts s n then [TOpt o1 n None] else []) tbl))"

definition negative_number :: "string \<Rightarrow> bool" where
  "negative_number s = (take 1 s = ''-'' \<and>
     (dec_digits (chomp (tl s)) \<or>
      (case split_on (CHR ''.'') (chomp (tl s)) of [a, b] \<Rightarrow> (a = [] \<or> dec_digits a) \<and> dec_digits b | _ \<Rightarrow> False)))"

text \<open>No parser of the programs has an option that looks like a negative number.\<close>

definition parse_optional :: "'v strings \<Rightarrow> string \<Rightarrow> exit + 'v token" where
  "parse_optional tbl s =
     (if take 1 s \<noteq> ''-'' then Inr (TArg s)
      else case map_of tbl s of
        Some o1 \<Rightarrow> Inr (TOpt o1 s None)
      | None \<Rightarrow>
          if s = ''-'' then Inr (TArg s)
          else case partition_eq s of (n, x) \<Rightarrow>
            (case (if x = None then None else map_of tbl n) of
               Some o1 \<Rightarrow> Inr (TOpt o1 n x)
             | None \<Rightarrow>
                 (case option_tuples tbl s of
                    [] \<Rightarrow> if negative_number s \<or> CHR '' '' \<in> set s then Inr (TArg s) else Inr (TUnknown s)
                  | [t] \<Rightarrow> Inr t
                  | _ \<Rightarrow> Inl UsageError)))"

fun tokens :: "'v strings \<Rightarrow> string list \<Rightarrow> exit + 'v token list" where
  "tokens tbl [] = Inr []"
| "tokens tbl (a # as) =
     (if a = ''--'' then Inr (TDash # map TArg as)
      else (case parse_optional tbl a of
          Inl e \<Rightarrow> Inl e
        | Inr t \<Rightarrow> (case tokens tbl as of Inl e \<Rightarrow> Inl e | Inr ts \<Rightarrow> Inr (t # ts))))"

subsection \<open>Taking the actions\<close>

type_synonym 'v namespace = "(string \<times> 'v) list"

definition take_action :: "'v opt \<Rightarrow> string \<Rightarrow> 'v namespace \<Rightarrow> exit + 'v namespace" where
  "take_action o1 a ns =
     (case o_action o1 of
        ShowHelp \<Rightarrow> Inl HelpShown
      | Flag f \<Rightarrow> (case dget ns (o_dest o1) of None \<Rightarrow> Inr ns | Some v \<Rightarrow> Inr (dput (o_dest o1) (f v) ns))
      | Store conv \<Rightarrow> (case conv a of None \<Rightarrow> Inl UsageError | Some v \<Rightarrow> Inr (dput (o_dest o1) v ns)))"

fun take_actions :: "('v opt \<times> string) list \<Rightarrow> 'v namespace \<Rightarrow> exit + 'v namespace" where
  "take_actions [] ns = Inr ns"
| "take_actions ((o1, a) # xs) ns =
     (case take_action o1 a ns of Inl e \<Rightarrow> Inl e | Inr ns' \<Rightarrow> take_actions xs ns')"

text \<open>
  An option with an explicit value: a switch of one letter leaves the rest of the word to further
  options.  The result is the actions, the option that still waits for its value, and whether
  something is left that is no option.
\<close>

fun cluster ::
  "'v strings \<Rightarrow> 'v opt \<Rightarrow> bool \<Rightarrow> bool \<Rightarrow> string \<Rightarrow> exit + ('v opt \<times> string) list \<times> 'v opt option \<times> bool" where
  "cluster tbl o1 single eq [] = (if takes_value o1 then Inr ([(o1, [])], None, False) else Inl UsageError)"
| "cluster tbl o1 single eq [c] =
     (if takes_value o1 then Inr ([(o1, [c])], None, False)
      else if \<not> single \<or> eq \<or> c = CHR ''-'' then Inl UsageError
      else (case map_of tbl [CHR ''-'', c] of
          None \<Rightarrow> Inr ([(o1, [])], None, True)
        | Some o2 \<Rightarrow> if takes_value o2 then Inr ([(o1, [])], Some o2, False)
                     else Inr ([(o1, []), (o2, [])], None, False)))"
| "cluster tbl o1 single eq (c # d # x) =
     (if takes_value o1 then Inr ([(o1, c # d # x)], None, False)
      else if \<not> single \<or> eq \<or> c = CHR ''-'' then Inl UsageError
      else (case map_of tbl [CHR ''-'', c] of
          None \<Rightarrow> Inr ([(o1, [])], None, True)
        | Some o2 \<Rightarrow> (case (if d = CHR ''='' then cluster tbl o2 True True x else cluster tbl o2 True False (d # x)) of
              Inl e \<Rightarrow> Inl e
            | Inr (acts, waiting, extra) \<Rightarrow> Inr ((o1, []) # acts, waiting, extra))))"

record 'v parsing =
  ns :: "'v namespace"
  seen :: "string list"
  slot :: bool
  extras :: bool

definition acted :: "('v opt \<times> string) list \<Rightarrow> 'v parsing \<Rightarrow> exit + 'v parsing" where
  "acted acts st = (case take_actions acts (ns st) of
       Inl e \<Rightarrow> Inl e
     | Inr ns' \<Rightarrow> Inr (st\<lparr>ns := ns', seen := map (o_dest \<circ> fst) acts @ seen st\<rparr>))"

definition operand_taken :: "string \<times> (string \<Rightarrow> 'v option) \<Rightarrow> string \<Rightarrow> 'v parsing \<Rightarrow> exit + 'v parsing" where
  "operand_taken pos a st = (case pos of (d, conv) \<Rightarrow> (case conv a of
       None \<Rightarrow> Inl UsageError
     | Some v \<Rightarrow> Inr (st\<lparr>ns := dput d v (ns st), slot := False\<rparr>)))"

definition then_do :: "'e + 'a \<Rightarrow> ('a \<Rightarrow> 'e + 'b) \<Rightarrow> 'e + 'b" where
  "then_do r k = (case r of Inl e \<Rightarrow> Inl e | Inr x \<Rightarrow> k x)"

lemma then_do_simps [simp]: "then_do (Inl e) k = Inl e" "then_do (Inr x) k = k x"
  by (simp_all add: then_do_def)

lemma then_do_cong [fundef_cong]: "r = r' \<Longrightarrow> (\<And>x. r' = Inr x \<Longrightarrow> k x = k' x) \<Longrightarrow> then_do r k = then_do r' k'"
  by (simp add: then_do_def split: sum.split)

text \<open>
  The words one after the other.  Only the first operand has a place; \<^verbatim>\<open>--\<close> next to it goes with it.
\<close>

definition skip_dash :: "'v token list \<Rightarrow> 'v token list" where
  "skip_dash ts = (case ts of TDash # r \<Rightarrow> r | _ \<Rightarrow> ts)"

lemma length_skip_dash: "length (skip_dash ts) < Suc (length ts)"
  by (auto simp: skip_dash_def split: list.split token.split)

function consume ::
  "'v strings \<Rightarrow> (string \<times> (string \<Rightarrow> 'v option)) \<Rightarrow> 'v token list \<Rightarrow> 'v parsing \<Rightarrow> exit + 'v parsing" where
  "consume tbl pos [] st = Inr st"
| "consume tbl pos (TArg a # ts) st =
     (if slot st then then_do (operand_taken pos a st) (consume tbl pos (skip_dash ts))
      else consume tbl pos ts (st\<lparr>extras := True\<rparr>))"
| "consume tbl pos (TDash # ts) st =
     (if slot st then (case ts of
          TArg a # r \<Rightarrow> then_do (operand_taken pos a st) (consume tbl pos r)
        | _ \<Rightarrow> consume tbl pos ts (st\<lparr>slot := False\<rparr>))
      else consume tbl pos ts (st\<lparr>extras := True\<rparr>))"
| "consume tbl pos (TUnknown s # ts) st = consume tbl pos ts (st\<lparr>extras := True\<rparr>)"
| "consume tbl pos (TOpt o1 n None # ts) st =
     (if takes_value o1 then (case ts of
          TArg a # r \<Rightarrow> then_do (acted [(o1, a)] st) (consume tbl pos r)
        | _ \<Rightarrow> Inl UsageError)
      else then_do (acted [(o1, [])] st) (consume tbl pos ts))"
| "consume tbl pos (TOpt o1 n (Some (eq, x)) # ts) st =
     (case cluster tbl o1 (take 2 n \<noteq> ''--'') eq x of
        Inl e \<Rightarrow> Inl e
      | Inr (acts, None, extra) \<Rightarrow>
          then_do (acted acts (if extra then st\<lparr>extras := True\<rparr> else st)) (consume tbl pos ts)
      | Inr (acts, Some o2, extra) \<Rightarrow> (case ts of
            TArg a # r \<Rightarrow> then_do (acted (acts @ [(o2, a)]) st) (consume tbl pos r)
          | _ \<Rightarrow> Inl UsageError))"
  by pat_completeness auto
termination
  by (relation "measure (\<lambda>(tbl, pos, ts, st). length ts)") (simp_all add: length_skip_dash)

definition parse_args :: "'v argparser \<Rightarrow> string list \<Rightarrow> exit + 'v namespace" where
  "parse_args p argv =
     (let tbl = option_strings p; pos = (case p_operand p of Some x \<Rightarrow> x | None \<Rightarrow> ([], \<lambda>s. None))
      in then_do (tokens tbl argv) (\<lambda>ts.
         then_do (consume tbl pos ts
             \<lparr>ns = p_defaults p, seen = [], slot = (p_operand p \<noteq> None), extras = False\<rparr>) (\<lambda>st.
           if list_all (\<lambda>o1. o_required o1 \<longrightarrow> o_dest o1 \<in> set (seen st)) (p_options p) \<and> \<not> extras st
           then Inr (ns st) else Inl UsageError)))"

subsection \<open>Values keep their kind\<close>

text \<open>
  A property of destinations and values that the defaults have, and that every conversion and switch
  gives, holds of the whole namespace.
\<close>

fun action_keeps :: "(string \<Rightarrow> 'v \<Rightarrow> bool) \<Rightarrow> string \<Rightarrow> 'v action \<Rightarrow> bool" where
  "action_keeps P d ShowHelp \<longleftrightarrow> True"
| "action_keeps P d (Flag f) \<longleftrightarrow> (\<forall>v. P d v \<longrightarrow> P d (f v))"
| "action_keeps P d (Store conv) \<longleftrightarrow> (\<forall>s v. conv s = Some v \<longrightarrow> P d v)"

definition option_keeps :: "(string \<Rightarrow> 'v \<Rightarrow> bool) \<Rightarrow> 'v opt \<Rightarrow> bool" where
  "option_keeps P o1 \<longleftrightarrow> action_keeps P (o_dest o1) (o_action o1)"

definition holds :: "(string \<Rightarrow> 'v \<Rightarrow> bool) \<Rightarrow> 'v namespace \<Rightarrow> bool" where
  "holds P xs \<longleftrightarrow> (\<forall>d v. dget xs d = Some v \<longrightarrow> P d v)"

lemma holds_list: "list_all (\<lambda>(d, v). P d v) xs \<Longrightarrow> holds P xs"
  by (auto simp: holds_def list_all_iff dget_def dest!: map_of_SomeD)

lemma holds_dput: "holds P xs \<Longrightarrow> P d v \<Longrightarrow> holds P (dput d v xs)"
  by (auto simp: holds_def)

lemma take_action_holds: "take_action o1 a xs = Inr ys \<Longrightarrow> option_keeps P o1 \<Longrightarrow> holds P xs \<Longrightarrow> holds P ys"
  by (cases "o_action o1")
    (auto simp: take_action_def option_keeps_def holds_def split: option.splits if_splits)

lemma take_actions_holds:
  "take_actions acts xs = Inr ys \<Longrightarrow> list_all (option_keeps P \<circ> fst) acts \<Longrightarrow> holds P xs \<Longrightarrow> holds P ys"
proof (induction acts arbitrary: xs)
  case (Cons act acts)
  obtain o1 a where act: "act = (o1, a)" by (cases act)
  obtain zs where "take_action o1 a xs = Inr zs" "take_actions acts zs = Inr ys"
    using Cons.prems(1) by (auto simp: act split: sum.splits)
  then show ?case using Cons.IH Cons.prems(2,3) take_action_holds by (force simp: act)
qed simp

definition known :: "'v strings \<Rightarrow> 'v opt \<Rightarrow> bool" where
  "known tbl o1 \<longleftrightarrow> o1 \<in> snd ` set tbl"

lemma map_of_known: "map_of tbl s = Some o1 \<Longrightarrow> known tbl o1"
  by (force simp: known_def dest: map_of_SomeD)

lemma cluster_known:
  "cluster tbl o1 single eq x = Inr (acts, waiting, extra) \<Longrightarrow> known tbl o1 \<Longrightarrow>
     list_all (known tbl \<circ> fst) acts \<and> (\<forall>o2. waiting = Some o2 \<longrightarrow> known tbl o2)"
proof (induction tbl o1 single eq x arbitrary: acts waiting extra rule: cluster.induct)
  case (3 tbl o1 single eq c d x)
  show ?case
  proof (cases "takes_value o1 \<or> map_of tbl [CHR ''-'', c] = None")
    case False
    then obtain o2 where o2: "map_of tbl [CHR ''-'', c] = Some o2" by auto
    with 3 False show ?thesis
      by (auto simp: map_of_known split: if_splits sum.splits prod.splits)
  qed (use 3 in \<open>auto split: if_splits\<close>)
qed (auto dest: map_of_known split: if_splits option.splits)

fun token_known :: "'v strings \<Rightarrow> 'v token \<Rightarrow> bool" where
  "token_known tbl (TOpt o1 n x) \<longleftrightarrow> known tbl o1"
| "token_known tbl t \<longleftrightarrow> True"

lemma option_tuples_known: "t \<in> set (option_tuples tbl s) \<Longrightarrow> token_known tbl t"
  by (force simp: option_tuples_def known_def split: if_splits prod.splits)

lemma parse_optional_known: "parse_optional tbl s = Inr t \<Longrightarrow> token_known tbl t"
  using option_tuples_known [of t tbl s]
  by (auto simp: parse_optional_def map_of_known split: if_splits option.splits prod.splits list.splits)

lemma tokens_known: "tokens tbl as = Inr ts \<Longrightarrow> list_all (token_known tbl) ts"
proof (induction tbl as arbitrary: ts rule: tokens.induct)
  case (2 tbl a as)
  then show ?case
    by (auto simp: list_all_iff parse_optional_known split: if_splits sum.splits)
qed simp

lemma acted_holds:
  "acted acts st = Inr st' \<Longrightarrow> list_all (option_keeps P \<circ> fst) acts \<Longrightarrow> holds P (ns st) \<Longrightarrow> holds P (ns st')"
  by (auto simp: acted_def dest: take_actions_holds split: sum.splits)

lemma operand_taken_holds:
  "operand_taken pos a st = Inr st' \<Longrightarrow> (\<forall>s v. snd pos s = Some v \<longrightarrow> P (fst pos) v) \<Longrightarrow> holds P (ns st) \<Longrightarrow> holds P (ns st')"
  by (auto simp: operand_taken_def intro!: holds_dput split: prod.splits option.splits)

lemma then_do_eq_Inr: "then_do r k = Inr y \<longleftrightarrow> (\<exists>x. r = Inr x \<and> k x = Inr y)"
  by (cases r) simp_all

lemma consume_holds:
  assumes keeps: "\<And>o1. known tbl o1 \<Longrightarrow> option_keeps P o1" and pos: "\<forall>s v. snd pos s = Some v \<longrightarrow> P (fst pos) v"
  shows "consume tbl pos ts st = Inr st' \<Longrightarrow> list_all (token_known tbl) ts \<Longrightarrow> holds P (ns st) \<Longrightarrow> holds P (ns st')"
  using keeps pos
proof (induction tbl pos ts st rule: consume.induct)
  case (2 tbl pos a ts st)
  have ts: "list_all (token_known tbl) ts" "list_all (token_known tbl) (skip_dash ts)"
    using 2(4) by (auto simp: skip_dash_def split: list.split token.split)
  show ?case
  proof (cases "slot st")
    case True
    then obtain st1 where st1: "operand_taken pos a st = Inr st1" "consume tbl pos (skip_dash ts) st1 = Inr st'"
      using 2(3) by (auto simp: then_do_eq_Inr)
    show ?thesis using 2(1) [OF True st1 ts(2)] operand_taken_holds [OF st1(1), of P] 2(5-7) by blast
  next
    case False
    then show ?thesis using 2(2) [OF False] 2(3,5-7) ts by simp
  qed
next
  case (3 tbl pos ts st)
  show ?case
  proof (cases "slot st \<and> (\<exists>a r. ts = TArg a # r)")
    case True
    then obtain a r st1 where st1: "slot st" "ts = TArg a # r" "operand_taken pos a st = Inr st1" "consume tbl pos r st1 = Inr st'"
      using "3.prems"(1) by (auto simp: then_do_eq_Inr)
    have "holds P (ns st1)" using operand_taken_holds [OF st1(3), of P] "3.prems"(3,5) by blast
    then show ?thesis using "3.IH"(2) [OF st1(1,2) refl st1(3,4)] "3.prems"(2,4,5) by (simp add: st1(2))
  next
    case False
    then show ?thesis using "3.IH" "3.prems" by (auto split: list.splits token.splits if_splits)
  qed
next
  case (5 tbl pos o1 n ts st)
  have keeps: "option_keeps P o1" using 5(4,6) by simp
  show ?case
  proof (cases "takes_value o1")
    case True
    then obtain a r st1 where st1: "ts = TArg a # r" "acted [(o1, a)] st = Inr st1" "consume tbl pos r st1 = Inr st'"
      using 5(3) by (auto simp: then_do_eq_Inr split: list.splits token.splits)
    have "holds P (ns st1)" using acted_holds [OF st1(2), of P] keeps 5(5) by simp
    then show ?thesis using 5(1) [OF True st1(1) refl st1(2,3)] 5(4,6,7) by (simp add: st1(1))
  next
    case False
    then obtain st1 where st1: "acted [(o1, [])] st = Inr st1" "consume tbl pos ts st1 = Inr st'"
      using 5(3) by (auto simp: then_do_eq_Inr)
    have "holds P (ns st1)" using acted_holds [OF st1(1), of P] keeps 5(5) by simp
    then show ?thesis using 5(2) [OF False st1] 5(4,6,7) by simp
  qed
next
  case (6 tbl pos o1 n eq x ts st)
  obtain acts waiting extra where c: "cluster tbl o1 (take 2 n \<noteq> ''--'') eq x = Inr (acts, waiting, extra)"
    using 6(3) by (auto split: sum.splits prod.splits)
  then have known: "list_all (known tbl \<circ> fst) acts" "\<forall>o2. waiting = Some o2 \<longrightarrow> known tbl o2"
    using cluster_known 6(4) by fastforce+
  then have acts: "list_all (option_keeps P \<circ> fst) acts" using 6(6) by (auto simp: list_all_iff)
  show ?case
  proof (cases waiting)
    case None
    then obtain st1 where st1: "acted acts (if extra then st\<lparr>extras := True\<rparr> else st) = Inr st1" "consume tbl pos ts st1 = Inr st'"
      using 6(3) c by (auto simp: then_do_eq_Inr)
    have "holds P (ns st1)" using acted_holds [OF st1(1) acts] 6(5) by (simp split: if_splits)
    then show ?thesis using 6(1) [OF c refl refl None st1] 6(4,6,7) by auto
  next
    case (Some o2)
    then obtain a r st1 where st1: "ts = TArg a # r" "acted (acts @ [(o2, a)]) st = Inr st1" "consume tbl pos r st1 = Inr st'"
      using 6(3) c by (auto simp: then_do_eq_Inr split: list.splits token.splits)
    have "list_all (option_keeps P \<circ> fst) (acts @ [(o2, a)])" using acts known(2) Some 6(6) by simp
    then have "holds P (ns st1)" using acted_holds [OF st1(2)] 6(5) by blast
    then show ?thesis using 6(2) [OF c refl refl Some st1(1) refl st1(2,3)] 6(4,6,7) by (simp add: st1(1))
  qed
qed simp_all

lemma parse_args_holds:
  assumes "parse_args p argv = Inr xs" and "holds P (p_defaults p)" and "list_all (option_keeps P) (p_options p)"
    and "\<forall>d conv s v. p_operand p = Some (d, conv) \<longrightarrow> conv s = Some v \<longrightarrow> P d v"
  shows "holds P xs"
proof -
  let ?pos = "case p_operand p of Some x \<Rightarrow> x | None \<Rightarrow> ([], \<lambda>s. None)"
  obtain ts st where run: "tokens (option_strings p) argv = Inr ts" "consume (option_strings p) ?pos ts
      \<lparr>ns = p_defaults p, seen = [], slot = (p_operand p \<noteq> None), extras = False\<rparr> = Inr st" "xs = ns st"
    using assms(1) by (auto simp: parse_args_def Let_def then_do_eq_Inr split: if_splits)
  have "option_keeps P o1" if "known (option_strings p) o1" for o1
    using that assms(3) by (auto simp: known_def option_strings_def list_all_iff option_keeps_def helpOption_def)
  moreover have "\<forall>s v. snd ?pos s = Some v \<longrightarrow> P (fst ?pos) v"
    using assms(4) by (auto split: option.split)
  ultimately show ?thesis
    unfolding run(3) by (rule consume_holds [OF _ _ run(2) tokens_known [OF run(1)]]) (simp_all add: assms(2))
qed

subsection \<open>Command lines that are read as meant\<close>

text \<open>An option spelled with its value in the next word; values must not look like options.\<close>

type_synonym 'v spelled = "'v opt \<times> string \<times> string option"

definition plain_word :: "'v strings \<Rightarrow> string \<Rightarrow> bool" where
  "plain_word tbl s \<longleftrightarrow> take 1 s \<noteq> ''-'' \<or> s = ''-'' \<and> map_of tbl s = None"

definition fits :: "'v strings \<Rightarrow> 'v spelled \<Rightarrow> bool" where
  "fits tbl g = (case g of (o1, n, a) \<Rightarrow>
     map_of tbl n = Some o1 \<and> take 1 n = ''-'' \<and> n \<noteq> ''--'' \<and>
     (case a of None \<Rightarrow> \<not> takes_value o1 | Some v \<Rightarrow> takes_value o1 \<and> plain_word tbl v))"

definition spelling :: "'v spelled \<Rightarrow> string list" where
  "spelling g = (case g of (o1, n, a) \<Rightarrow> n # (case a of None \<Rightarrow> [] | Some v \<Rightarrow> [v]))"

definition asked :: "'v spelled \<Rightarrow> 'v opt \<times> string" where
  "asked g = (case g of (o1, n, a) \<Rightarrow> (o1, case a of None \<Rightarrow> [] | Some v \<Rightarrow> v))"

definition word_tokens :: "'v spelled \<Rightarrow> 'v token list" where
  "word_tokens g = (case g of (o1, n, a) \<Rightarrow> TOpt o1 n None # (case a of None \<Rightarrow> [] | Some v \<Rightarrow> [TArg v]))"

lemma plain_word_token: "plain_word tbl s \<Longrightarrow> s \<noteq> ''--'' \<and> parse_optional tbl s = Inr (TArg s)"
  by (auto simp: plain_word_def parse_optional_def split: option.split)

lemma tokens_spelled:
  assumes "list_all (fits tbl) os" and "list_all (plain_word tbl) args"
  shows "tokens tbl (concat (map spelling os) @ args) = Inr (concat (map word_tokens os) @ map TArg args)"
  using assms(1)
proof (induction os)
  case Nil
  show ?case using assms(2) by (induction args) (auto dest: plain_word_token)
next
  case (Cons g os)
  obtain o1 n a where g: "g = (o1, n, a)" by (cases g)
  have "n \<noteq> ''--''" "parse_optional tbl n = Inr (TOpt o1 n None)"
    using Cons.prems by (auto simp: g fits_def parse_optional_def)
  then show ?case
    using Cons by (cases a) (auto simp: g fits_def spelling_def word_tokens_def dest: plain_word_token)
qed

lemma consume_spelled:
  assumes "list_all (fits tbl) os" and "length args \<le> 1" and "args \<noteq> [] \<longrightarrow> slot st"
  shows "consume tbl pos (concat (map word_tokens os) @ map TArg args) st =
    then_do (take_actions (map asked os) (ns st)) (\<lambda>xs.
      let st' = st\<lparr>ns := xs, seen := rev (map (o_dest \<circ> fst \<circ> asked) os) @ seen st\<rparr>
      in case args of [] \<Rightarrow> Inr st' | a # _ \<Rightarrow> operand_taken pos a st')"
  using assms(1,3)
proof (induction os arbitrary: st)
  case Nil
  then show ?case using assms(2)
    by (cases args) (simp_all add: skip_dash_def then_do_def split: sum.split)
next
  case (Cons g os)
  obtain o1 n a where g: "g = (o1, n, a)" by (cases g)
  have fits: "fits tbl g" "list_all (fits tbl) os" using Cons.prems(1) by simp_all
  let ?v = "case a of None \<Rightarrow> [] | Some v \<Rightarrow> v"
  have step: "consume tbl pos (word_tokens g @ ts) st = then_do (acted [(o1, ?v)] st) (consume tbl pos ts)" for ts
    using fits(1) by (cases a) (simp_all add: g fits_def word_tokens_def)
  show ?case
  proof (cases "take_action o1 ?v (ns st)")
    case (Inl e)
    then show ?thesis using step by (simp add: acted_def g asked_def)
  next
    case (Inr xs)
    let ?st = "st\<lparr>ns := xs, seen := o_dest o1 # seen st\<rparr>"
    have "acted [(o1, ?v)] st = Inr ?st" using Inr by (simp add: acted_def)
    moreover have "args \<noteq> [] \<longrightarrow> slot ?st" using Cons.prems(2) by simp
    ultimately show ?thesis using step Cons.IH [OF fits(2), of ?st] Inr by (simp add: g asked_def)
  qed
qed

theorem parse_args_spelled:
  assumes "list_all (fits (option_strings p)) os" and "list_all (plain_word (option_strings p)) args"
    and "length args \<le> (case p_operand p of None \<Rightarrow> 0 | Some x \<Rightarrow> 1)"
  shows "parse_args p (concat (map spelling os) @ args) =
    then_do (take_actions (map asked os) (p_defaults p)) (\<lambda>xs.
      then_do (case (p_operand p, args) of
          (Some (d, conv), a # _) \<Rightarrow> (case conv a of None \<Rightarrow> Inl UsageError | Some v \<Rightarrow> Inr (dput d v xs))
        | _ \<Rightarrow> Inr xs) (\<lambda>ys.
      if list_all (\<lambda>o1. o_required o1 \<longrightarrow> o_dest o1 \<in> set (map (o_dest \<circ> fst \<circ> asked) os)) (p_options p)
      then Inr ys else Inl UsageError))"
proof -
  let ?tbl = "option_strings p" and ?pos = "case p_operand p of Some x \<Rightarrow> x | None \<Rightarrow> ([], \<lambda>s. None)"
  let ?st = "\<lparr>ns = p_defaults p, seen = [], slot = (p_operand p \<noteq> None), extras = False\<rparr>"
  have "length args \<le> 1" "args \<noteq> [] \<longrightarrow> slot ?st" using assms(3) by (auto split: option.splits)
  note run = consume_spelled [OF assms(1) this, of ?pos]
  show ?thesis
    using assms(3) unfolding parse_args_def Let_def tokens_spelled [OF assms(1,2)] then_do_simps run
    by (cases "take_actions (map asked os) (p_defaults p)")
      (auto simp: operand_taken_def list_all_iff split: list.splits option.splits)
qed

end
