(* ===== verification/Transitions.thy ===== *)
theory Transitions
  imports Prelude
begin

text \<open>
  Transition systems that can always come nearer to a goal: the interface behind the statements that
  concurrent parts of the program reach a state.
\<close>

locale approach =
  fixes step :: "'s \<Rightarrow> 's \<Rightarrow> bool"
    and good :: "'s \<Rightarrow> bool"
    and goal :: "'s \<Rightarrow> bool"
    and distance :: "'s \<Rightarrow> nat"
  assumes nearer: "good s \<Longrightarrow> \<not> goal s \<Longrightarrow> \<exists>s'. step s s' \<and> good s' \<and> distance s' < distance s"
begin

lemma reaches: "good s \<Longrightarrow> \<exists>s'. step\<^sup>*\<^sup>* s s' \<and> good s' \<and> goal s'"
proof (induction "distance s" arbitrary: s rule: less_induct)
  case less
  show ?case
  proof (cases "goal s")
    case False
    then obtain t where "step s t" "good t" "distance t < distance s" using nearer less.prems by blast
    then show ?thesis using less.hyps by (meson converse_rtranclp_into_rtranclp)
  qed (use less.prems in blast)
qed

lemma not_stuck: "good s \<Longrightarrow> \<forall>s'. \<not> step s s' \<Longrightarrow> goal s"
  using nearer by blast

end

end
