(* ===== verification/Master.thy ===== *)
theory Master
  imports MonitorProps Transitions
begin

text \<open>
  The two threads of the monitor as an RS485 master, \<^verbatim>\<open>masterCommands\<close> with \<open>masterGrant\<close> and the
  reading loop of \<^verbatim>\<open>semonitor.py\<close>, and the timer threads that \<open>masterGrant\<close> starts: a step relation
  that interleaves their statements.  The lock, the event and the state variables are shared.

  A statement that changes shared state is one step, together with the \<^verbatim>\<open>setState\<close> that records it.
  A timer that has expired but has not yet run its function can no longer be cancelled; there may be
  several of them.
\<close>

subsection \<open>Threads\<close>

datatype thread = Reader | Grantor

text \<open>Where the master thread is in \<^verbatim>\<open>masterGrant\<close> for a slave; the list holds the slaves that follow.\<close>

datatype master_pc =
    NextSlave "string list"
  | Sending string "string list"
  | StartTimer "string list"
  | ClearEvent "string list"
  | WaitEvent "string list"
  | CancelTimer "string list"
  | MasterDead

datatype reader_pc =
    Reading
  | WantLock bytes bool
  | Processing bytes bool
  | ReaderDone

record system =
  s_mon :: monitor
  s_lock :: "thread option"
  s_timer :: bool
  s_expired :: nat
  s_master :: master_pc
  s_reader :: reader_pc

text \<open>\<^verbatim>\<open>while True: for slaveAddr in slaveAddrs: ...\<close>: after the last slave the round starts again.\<close>

definition nextRound :: "string list \<Rightarrow> string list \<Rightarrow> string list" where
  "nextRound addrs rest = (if rest = [] then addrs else rest)"

definition setEvent :: "bool \<Rightarrow> monitor \<Rightarrow> monitor" where
  "setEvent b st = onWorld (setState ''masterEvent'' (PBool b)) (st\<lparr>m_event := b\<rparr>)"

definition setTimer :: "bool \<Rightarrow> monitor \<Rightarrow> monitor" where
  "setTimer b = onWorld (setState ''masterTimer'' (PBool b))"

text \<open>
  The argument \<open>early\<close> says whether a timer may expire before the statement after its start, which
  clears the event, has run.
\<close>

inductive sys_step :: "clock \<Rightarrow> run_mode \<Rightarrow> bool \<Rightarrow> string list \<Rightarrow> bool \<Rightarrow> system \<Rightarrow> system \<Rightarrow> bool"
  for lt mode xerror addrs early where
  grant_lock:
    "s_master s = NextSlave rest \<Longrightarrow> nextRound addrs rest = slave # rest' \<Longrightarrow> s_lock s = None \<Longrightarrow>
     sys_step lt mode xerror addrs early s (s\<lparr>s_lock := Some Grantor, s_master := Sending slave rest'\<rparr>)"
| grant_send:
    "s_master s = Sending slave rest \<Longrightarrow> sendGrant slave (s_mon s) = (Inr (), st) \<Longrightarrow>
     sys_step lt mode xerror addrs early s (s\<lparr>s_mon := st, s_lock := None, s_master := StartTimer rest\<rparr>)"
| grant_fail:
    "s_master s = Sending slave rest \<Longrightarrow> sendGrant slave (s_mon s) = (Inl e, st) \<Longrightarrow>
     sys_step lt mode xerror addrs early s (s\<lparr>s_mon := st, s_lock := None, s_master := MasterDead\<rparr>)"
| timer_start:
    "s_master s = StartTimer rest \<Longrightarrow>
     sys_step lt mode xerror addrs early s
       (s\<lparr>s_mon := setTimer True (s_mon s), s_timer := True, s_master := ClearEvent rest\<rparr>)"
| event_clear:
    "s_master s = ClearEvent rest \<Longrightarrow>
     sys_step lt mode xerror addrs early s (s\<lparr>s_mon := setEvent False (s_mon s), s_master := WaitEvent rest\<rparr>)"
| event_wake:
    "s_master s = WaitEvent rest \<Longrightarrow> m_event (s_mon s) \<Longrightarrow>
     sys_step lt mode xerror addrs early s (s\<lparr>s_mon := setEvent True (s_mon s), s_master := CancelTimer rest\<rparr>)"
| timer_cancel:
    "s_master s = CancelTimer rest \<Longrightarrow>
     sys_step lt mode xerror addrs early s
       (s\<lparr>s_mon := setTimer False (s_mon s), s_timer := False, s_master := NextSlave rest\<rparr>)"
| timer_expire:
    "s_timer s \<Longrightarrow> early \<or> (\<forall>rest. s_master s \<noteq> ClearEvent rest) \<Longrightarrow>
     sys_step lt mode xerror addrs early s (s\<lparr>s_timer := False, s_expired := Suc (s_expired s)\<rparr>)"
| timer_fire:
    "s_expired s = Suc n \<Longrightarrow>
     sys_step lt mode xerror addrs early s
       (s\<lparr>s_mon := setTimer False (setEvent True (s_mon s)), s_expired := n\<rparr>)"
| read_message:
    "s_reader s = Reading \<Longrightarrow> readMsg mode (m_world (s_mon s)) = Some (Inr (msg, eof), w) \<Longrightarrow>
     msg \<noteq> replicate (length msg) 0 \<Longrightarrow>
     sys_step lt mode xerror addrs early s (s\<lparr>s_mon := setWorld w (s_mon s), s_reader := WantLock msg eof\<rparr>)"
| read_zeros:
    "s_reader s = Reading \<Longrightarrow> readMsg mode (m_world (s_mon s)) = Some (Inr (msg, eof), w) \<Longrightarrow>
     msg = replicate (length msg) 0 \<Longrightarrow>
     sys_step lt mode xerror addrs early s
       (s\<lparr>s_mon := setWorld w (s_mon s), s_reader := (if eof then ReaderDone else Reading)\<rparr>)"
| read_fail:
    "s_reader s = Reading \<Longrightarrow> readMsg mode (m_world (s_mon s)) = Some (Inl e, w) \<Longrightarrow>
     sys_step lt mode xerror addrs early s (s\<lparr>s_mon := setWorld w (s_mon s), s_reader := ReaderDone\<rparr>)"
| read_lock:
    "s_reader s = WantLock msg eof \<Longrightarrow> s_lock s = None \<Longrightarrow>
     sys_step lt mode xerror addrs early s (s\<lparr>s_lock := Some Reader, s_reader := Processing msg eof\<rparr>)"
| read_process:
    "s_reader s = Processing msg eof \<Longrightarrow> handleMsg lt mode xerror msg (s_mon s) = (r, st) \<Longrightarrow>
     sys_step lt mode xerror addrs early s
       (s\<lparr>s_mon := st, s_lock := None,
          s_reader := (if eof \<or> (\<exists>e. r = Inl e) then ReaderDone else Reading)\<rparr>)"

inductive_cases sys_stepE: "sys_step lt mode xerror addrs early s s'"

definition start_system :: "monitor \<Rightarrow> system" where
  "start_system st =
     \<lparr>s_mon = st, s_lock = None, s_timer = False, s_expired = 0, s_master = NextSlave [], s_reader = Reading\<rparr>"

inductive reachable :: "clock \<Rightarrow> run_mode \<Rightarrow> bool \<Rightarrow> string list \<Rightarrow> bool \<Rightarrow> monitor \<Rightarrow> system \<Rightarrow> bool"
  for lt mode xerror addrs early st where
  start: "reachable lt mode xerror addrs early st (start_system st)"
| step: "reachable lt mode xerror addrs early st s \<Longrightarrow> sys_step lt mode xerror addrs early s s' \<Longrightarrow>
    reachable lt mode xerror addrs early st s'"

subsection \<open>The lock\<close>

fun sending :: "master_pc \<Rightarrow> bool" where
  "sending (Sending slave rest) = True"
| "sending _ = False"

fun processing :: "reader_pc \<Rightarrow> bool" where
  "processing (Processing msg eof) = True"
| "processing _ = False"

definition lock_inv :: "system \<Rightarrow> bool" where
  "lock_inv s \<longleftrightarrow> (s_lock s = Some Grantor \<longleftrightarrow> sending (s_master s)) \<and> (s_lock s = Some Reader \<longleftrightarrow> processing (s_reader s))"

lemma lock_inv_step: "sys_step lt mode xerror addrs early s s' \<Longrightarrow> lock_inv s \<Longrightarrow> lock_inv s'"
  by (induction rule: sys_step.induct) (auto simp: lock_inv_def)

lemma lock_inv_reachable: "reachable lt mode xerror addrs early st s \<Longrightarrow> lock_inv s"
  by (induction rule: reachable.induct) (auto simp: lock_inv_def start_system_def dest: lock_inv_step)

text \<open>
  C12.  In no interleaving are the master thread and the reading thread in their critical sections at
  the same time, so that a grant and a reply are never mixed on the bus; and the lock is held
  exactly while one of the threads is in its critical section, also after an exception.
\<close>

theorem critical_sections_exclusive:
  assumes "reachable lt mode xerror addrs early st s"
  shows "\<not> (sending (s_master s) \<and> processing (s_reader s)) \<and>
    (s_lock s = None \<longleftrightarrow> \<not> sending (s_master s) \<and> \<not> processing (s_reader s))"
proof -
  have "lock_inv s" using assms by (rule lock_inv_reachable)
  then show ?thesis by (cases "s_lock s"; cases "the (s_lock s)") (auto simp: lock_inv_def)
qed

subsection \<open>The wait for the slave\<close>

interpretation ev: reading_invariant m_event
  by unfold_locales (auto simp: onWorld_def intro!: writeData_preserves)

text \<open>While the master waits, the event is set or a timer will still set it.\<close>

definition wake_inv :: "system \<Rightarrow> bool" where
  "wake_inv s \<longleftrightarrow> (case s_master s of
       ClearEvent rest \<Rightarrow> s_timer s
     | WaitEvent rest \<Rightarrow> m_event (s_mon s) \<or> s_timer s \<or> 0 < s_expired s
     | _ \<Rightarrow> True)"

lemma wake_inv_step: "sys_step lt mode xerror addrs False s s' \<Longrightarrow> wake_inv s \<Longrightarrow> wake_inv s'"
proof (induction rule: sys_step.induct)
  case (read_process s msg eof r st)
  then show ?case using preservesD [OF ev.handleMsg_ok read_process(2)]
    by (auto simp: wake_inv_def split: master_pc.splits)
qed (auto simp: wake_inv_def setTimer_def setEvent_def onWorld_def split: master_pc.splits)

lemma wake_inv_reachable: "reachable lt mode xerror addrs False st s \<Longrightarrow> wake_inv s"
  by (induction rule: reachable.induct) (auto simp: wake_inv_def start_system_def dest: wake_inv_step)

text \<open>The wait of the master, seen alone: where it ends, and how many steps that takes.\<close>

definition waiting :: "string list \<Rightarrow> reader_pc \<Rightarrow> system \<Rightarrow> bool" where
  "waiting rest rd s \<longleftrightarrow> s_reader s = rd \<and> (s_master s = CancelTimer rest \<or>
     s_master s = WaitEvent rest \<and> (m_event (s_mon s) \<or> s_timer s \<or> 0 < s_expired s))"

definition wait_steps :: "system \<Rightarrow> nat" where
  "wait_steps s = (case s_master s of
       WaitEvent rest \<Rightarrow> if m_event (s_mon s) then 1 else if 0 < s_expired s then 2 else 3
     | _ \<Rightarrow> 0)"

interpretation wait: approach "sys_step lt mode xerror addrs False" "waiting rest rd"
  "\<lambda>s. s_master s = CancelTimer rest" wait_steps for lt mode xerror addrs rest rd
proof
  fix s
  assume good: "waiting rest rd s" and "s_master s \<noteq> CancelTimer rest"
  then have w: "s_master s = WaitEvent rest" by (simp add: waiting_def)
  let ?R = "sys_step lt mode xerror addrs False"
  consider "m_event (s_mon s)" | n where "\<not> m_event (s_mon s)" "s_expired s = Suc n"
    | "\<not> m_event (s_mon s)" "s_expired s = 0" "s_timer s"
    using good w by (cases "s_expired s") (auto simp: waiting_def)
  then show "\<exists>s'. ?R s s' \<and> waiting rest rd s' \<and> wait_steps s' < wait_steps s"
  proof cases
    case 1
    then have "?R s (s\<lparr>s_mon := setEvent True (s_mon s), s_master := CancelTimer rest\<rparr>)" using w by (intro event_wake)
    then show ?thesis
      by - (rule exI, rule conjI, assumption, use good w 1 in \<open>simp add: waiting_def wait_steps_def\<close>)
  next
    case (2 n)
    have "?R s (s\<lparr>s_mon := setTimer False (setEvent True (s_mon s)), s_expired := n\<rparr>)" using 2(2) by (rule timer_fire)
    then show ?thesis
      by - (rule exI, rule conjI, assumption, use good w 2 in \<open>simp add: waiting_def wait_steps_def setTimer_def setEvent_def onWorld_def\<close>)
  next
    case 3
    have "?R s (s\<lparr>s_timer := False, s_expired := Suc (s_expired s)\<rparr>)" using 3 w by (intro timer_expire) simp_all
    then show ?thesis by - (rule exI, rule conjI, assumption, use good w 3 in \<open>simp add: waiting_def wait_steps_def\<close>)
  qed
qed

text \<open>
  C13.  The master never waits for ever for a slave that does not answer: provided that the timer of
  ten seconds does not expire between two adjacent statements, every state in which the master
  waits can go on, by steps of the timer and the master alone, to the state after the wait.
\<close>

theorem wait_ends:
  assumes "reachable lt mode xerror addrs False st s" and "s_master s = WaitEvent rest"
  shows "\<exists>s'. (sys_step lt mode xerror addrs False)\<^sup>*\<^sup>* s s' \<and> s_master s' = CancelTimer rest \<and> s_reader s' = s_reader s"
proof -
  have "waiting rest (s_reader s) s"
    using wake_inv_reachable [OF assms(1)] assms(2) by (simp add: wake_inv_def waiting_def)
  from wait.reaches [OF this, of lt mode xerror addrs] show ?thesis by (auto simp: waiting_def)
qed

subsection \<open>Races\<close>

text \<open>The master of slave 1 on an RS485 line; the bytes that will be read are an argument.\<close>

definition rs485_master :: run_mode where
  "rs485_master = \<lparr>serialDevice = True, networkDevice = False, serialType = Some ''4'', passiveMode = False,
                   masterMode = True, following = False\<rparr>"

definition start_bus :: "bytes \<Rightarrow> monitor" where
  "start_bus bs = start_monitor (start_world bs [])"

lemma grant_sent:
  assumes "m_seqFile st = None"
  shows "\<exists>st'. sendGrant ''1'' st = (Inr (), st') \<and> source st' = source st \<and> m_event st' = m_event st"
proof -
  have one: "py_int 16 ''1'' = Inr 1" by code_simp
  obtain m where m: "formatMsg 1 MASTER_ADDR 1 PROT_CMD_POLESTAR_MASTER_GRANT [] = Inr m"
    by (simp add: formatMsg_ok hdr_ok_def in_range_def MASTER_ADDR_def PROT_CMD_POLESTAR_MASTER_GRANT_def)
  show ?thesis
    by (simp add: sendGrant_def setVar_def onWorld_def nextSeq_def assms seqNext_new sbind_Inr one m
        source_def sendMsg_def)
qed

definition state_ok :: "bytes \<Rightarrow> system \<Rightarrow> bool" where
  "state_ok bs s \<longleftrightarrow> source (s_mon s) = source (start_bus bs) \<and> \<not> m_event (s_mon s) \<and> s_lock s = None \<and>
     s_expired s = 0 \<and> s_reader s = Reading"

abbreviation bus_reachable :: "bool \<Rightarrow> bytes \<Rightarrow> system \<Rightarrow> bool" where
  "bus_reachable early bs \<equiv> reachable utc_1970_01_01 rs485_master False [''1''] early (start_bus bs)"

lemma reach_sending: "bus_reachable early bs ((start_system (start_bus bs))\<lparr>s_lock := Some Grantor, s_master := Sending ''1'' []\<rparr>)"
  by (rule reachable.step [OF reachable.start grant_lock [where rest = "[]"]]) (simp_all add: start_system_def nextRound_def)

lemma reach_sent:
  "\<exists>s. bus_reachable early bs s \<and> state_ok bs s \<and> \<not> s_timer s \<and> s_master s = StartTimer []"
proof -
  let ?s = "(start_system (start_bus bs))\<lparr>s_lock := Some Grantor, s_master := Sending ''1'' []\<rparr>"
  have "m_seqFile (s_mon ?s) = None" by (simp add: start_system_def start_bus_def start_monitor_def)
  from grant_sent [OF this] obtain st where
    st: "sendGrant ''1'' (s_mon ?s) = (Inr (), st)" "source st = source (s_mon ?s)" "m_event st = m_event (s_mon ?s)"
    by blast
  have "bus_reachable early bs (?s\<lparr>s_mon := st, s_lock := None, s_master := StartTimer []\<rparr>)"
    using reach_sending by (rule reachable.step) (rule grant_send [OF _ st(1)], simp)
  then show ?thesis using st(2,3)
    by - (rule exI, rule conjI, assumption, simp add: state_ok_def start_system_def start_bus_def start_monitor_def)
qed

lemma reach_started:
  "\<exists>s. bus_reachable early bs s \<and> state_ok bs s \<and> s_timer s \<and> s_master s = ClearEvent []"
proof -
  obtain s where s: "bus_reachable early bs s" "state_ok bs s" "s_master s = StartTimer []" using reach_sent by blast
  have "bus_reachable early bs (s\<lparr>s_mon := setTimer True (s_mon s), s_timer := True, s_master := ClearEvent []\<rparr>)"
    using s(1) by (rule reachable.step) (rule timer_start [OF s(3)])
  then show ?thesis using s(2)
    by - (rule exI, rule conjI, assumption, simp add: state_ok_def setTimer_def onWorld_def source_def)
qed

lemma reach_waiting: "\<exists>s. bus_reachable early bs s \<and> s_master s = WaitEvent []"
proof -
  obtain s where s: "bus_reachable early bs s" "s_master s = ClearEvent []" using reach_started by blast
  have "bus_reachable early bs (s\<lparr>s_mon := setEvent False (s_mon s), s_master := WaitEvent []\<rparr>)"
    using s(1) by (rule reachable.step) (rule event_clear [OF s(2)])
  then show ?thesis by - (rule exI, rule conjI, assumption, simp)
qed

theorem critical_sections_exclusive_witness:
  "\<exists>s. bus_reachable False [] s \<and> sending (s_master s) \<and> \<not> processing (s_reader s)"
  using reach_sending [of False "[]"] critical_sections_exclusive [OF reach_sending [of False "[]"]]
  by - (rule exI, rule conjI, assumption, simp)

theorem wait_ends_witness:
  "\<exists>s s'. bus_reachable False [] s \<and> s_master s = WaitEvent [] \<and>
     (sys_step utc_1970_01_01 rs485_master False [''1''] False)\<^sup>*\<^sup>* s s' \<and> s_master s' = CancelTimer []"
proof -
  obtain s where s: "bus_reachable False [] s" "s_master s = WaitEvent []" using reach_waiting by blast
  from wait_ends [OF s] s show ?thesis by blast
qed

text \<open>
  If the timer may expire before the event is cleared, the master can end up waiting without any
  timer: nothing but a message from the bus can wake it up again.
\<close>

theorem timeout_can_be_lost:
  "\<exists>s. bus_reachable True bs s \<and> s_master s = WaitEvent [] \<and> \<not> m_event (s_mon s) \<and> \<not> s_timer s \<and> s_expired s = 0"
proof -
  obtain s where s: "bus_reachable True bs s" "state_ok bs s" "s_timer s" "s_master s = ClearEvent []"
    using reach_started by blast
  let ?a = "s\<lparr>s_timer := False, s_expired := Suc (s_expired s)\<rparr>"
  let ?b = "?a\<lparr>s_mon := setTimer False (setEvent True (s_mon ?a)), s_expired := 0\<rparr>"
  let ?c = "?b\<lparr>s_mon := setEvent False (s_mon ?b), s_master := WaitEvent []\<rparr>"
  have "bus_reachable True bs ?a" using s(1) by (rule reachable.step) (rule timer_expire, simp_all add: s)
  then have "bus_reachable True bs ?b"
    by (rule reachable.step) (rule timer_fire, use s(2) in \<open>simp add: state_ok_def\<close>)
  then have "bus_reachable True bs ?c" by (rule reachable.step) (rule event_clear, simp add: s)
  then show ?thesis by - (rule exI, rule conjI, assumption, simp add: setEvent_def setTimer_def onWorld_def)
qed

text \<open>The release message of slave 1, with the magic number that follows it on the line.\<close>

definition release :: bytes where
  "release = [0, 0, 255, 255, 1, 0, 1, 0, 0, 0, 254, 255, 255, 255, 154, 3, 61, 89]"

lemma release_message: "formatMsg 1 1 MASTER_ADDR PROT_RESP_POLESTAR_MASTER_GRANT_ACK [] = Inr release"
  by code_simp

lemma release_frames: "frames (release @ magic) = [release, []]"
proof -
  have "\<not> has_magic ([] @ release)" by (simp add: release_def magic_def)
  from split_magic_block [OF this, of "[]"] show ?thesis by (simp add: frames_def)
qed

lemma release_sets_event: "m_event (snd (handleMsg lt rs485_master False release st))"
proof -
  let ?f = "PROT_RESP_POLESTAR_MASTER_GRANT_ACK"
  have f: "?f \<noteq> 0" "?f \<noteq> PROT_CMD_SERVER_POST_DATA" "?f \<noteq> PROT_CMD_UPGRADE_WRITE" "?f \<noteq> 0x0503"
    "?f \<noteq> PROT_CMD_SERVER_GET_GMT" "?f \<in> set noArgFunctions"
    by (simp_all add: prot_defs noArgFunctions_def)
  have reply: "sendReply lt 1 1 MASTER_ADDR ?f st = (Inr (), setEvent True st)" for st
    using f by (simp add: sendReply_def replyTo_def setVar_def setEvent_def sbind_def)
  have "processMsg lt rs485_master release st = (Inr (), setEvent True st)" for st
    using f by (simp add: processMsg_def parse_formatted [OF release_message] parsePayload_def parseData_def
        hexJoin_def storeData_def rs485_master_def reply sbind_def)
  moreover have "release \<noteq> replicate (length release) 0" by (simp add: release_def)
  ultimately show ?thesis by (simp add: handleMsg_def setVar_def onWorld_def setEvent_def)
qed

text \<open>
  Waiting on a line on which nothing more arrives: only the expiry of the timer can change anything but
  the reader.
\<close>

definition forgotten :: "system \<Rightarrow> bool" where
  "forgotten s \<longleftrightarrow> s_master s = WaitEvent [] \<and> \<not> m_event (s_mon s) \<and> s_expired s = 0 \<and>
     (s_reader s = ReaderDone \<or>
      s_reader s = Reading \<and> pending (w_file (m_world (s_mon s))) = [] \<and> ends rs485_master (w_file (m_world (s_mon s))))"

lemma forgotten_step:
  assumes "sys_step lt rs485_master False addrs early s s'" and "forgotten s" and "s_expired s' \<le> s_expired s"
  shows "forgotten s'"
proof -
  have zeros: "\<exists>w'. readMsg rs485_master w = Some (Inr ([], True), w')" if "ends rs485_master (w_file w)" "pending (w_file w) = []" for w
  proof -
    have "\<not> activeRead rs485_master" by (simp add: activeRead_def rs485_master_def)
    from readMsg_ends [OF this that(1)] show ?thesis by (auto simp: that(2) frames_def)
  qed
  show ?thesis
    using assms
  proof (induction rule: sys_step.induct)
    case (read_message s msg eof w)
    then show ?case using zeros [of "m_world (s_mon s)"] by (auto simp: forgotten_def)
  next
    case (read_zeros s msg eof w)
    then show ?case using zeros [of "m_world (s_mon s)"] by (auto simp: forgotten_def)
  next
    case (read_fail s e w)
    then show ?case using zeros [of "m_world (s_mon s)"] by (auto simp: forgotten_def)
  qed (auto simp: forgotten_def)
qed

lemma forgotten_stays:
  assumes "forgotten s"
  shows "\<forall>u. (\<lambda>s s'. sys_step lt rs485_master False addrs early s s' \<and> s_expired s' \<le> s_expired s)\<^sup>*\<^sup>* s u \<longrightarrow>
    s_master u = WaitEvent [] \<and> \<not> m_event (s_mon u)"
proof (intro allI impI)
  fix u
  assume "(\<lambda>s s'. sys_step lt rs485_master False addrs early s s' \<and> s_expired s' \<le> s_expired s)\<^sup>*\<^sup>* s u"
  then have "forgotten u"
    by (induction rule: rtranclp_induct) (auto intro: forgotten_step assms)
  then show "s_master u = WaitEvent [] \<and> \<not> m_event (s_mon u)" by (simp add: forgotten_def)
qed

lemma three_steps: "Q a b \<Longrightarrow> Q b c \<Longrightarrow> Q c d \<Longrightarrow> Q\<^sup>*\<^sup>* a d"
  by (meson rtranclp.rtrancl_into_rtrancl rtranclp.rtrancl_refl)

text \<open>
  C17.  A release of the bus can be forgotten.  There is a run in which the grant has been sent, the
  event is not set and the slave's release is still on the line (\<open>a\<close>); the reading thread receives and
  processes it, which sets the event, while the master is still before the start of its timer (\<open>b\<close>);
  and the next two statements of the master start the timer and clear the event again (\<open>c\<close>).  Then the
  master waits: as long as the timer does not expire, in whatever order the threads go on, it stays
  at the wait with the event cleared.
\<close>

theorem release_can_be_forgotten:
  "\<exists>a b b' c. bus_reachable False (release @ magic) a \<and> s_master a = StartTimer [] \<and> \<not> m_event (s_mon a) \<and>
       pending (w_file (m_world (s_mon a))) = release @ magic \<and>
     (\<lambda>s s'. sys_step utc_1970_01_01 rs485_master False [''1''] False s s' \<and> s_master s' = s_master s)\<^sup>*\<^sup>* a b \<and>
       m_event (s_mon b) \<and> pending (w_file (m_world (s_mon b))) = [] \<and>
     sys_step utc_1970_01_01 rs485_master False [''1''] False b b' \<and>
     sys_step utc_1970_01_01 rs485_master False [''1''] False b' c \<and> s_timer c \<and>
     (\<forall>s. (\<lambda>s s'. sys_step utc_1970_01_01 rs485_master False [''1''] False s s' \<and> s_expired s' \<le> s_expired s)\<^sup>*\<^sup>* c s \<longrightarrow>
        s_master s = WaitEvent [] \<and> \<not> m_event (s_mon s))"
proof -
  let ?R = "sys_step utc_1970_01_01 rs485_master False [''1''] False"
  let ?Q = "\<lambda>s s'. ?R s s' \<and> s_master s' = s_master s"
  obtain s where s: "bus_reachable False (release @ magic) s" "state_ok (release @ magic) s" "s_master s = StartTimer []"
    using reach_sent by blast
  have src_file: "w_file (m_world (s_mon s)) = \<lparr>avail = release @ magic, later = [], fails = False\<rparr>"
    using s(2) by (simp add: state_ok_def source_def start_bus_def start_monitor_def start_world_def)
  then have line: "pending (w_file (m_world (s_mon s))) = release @ magic" by (simp add: pending_def)
  have "ends rs485_master (w_file (m_world (s_mon s)))" "\<not> activeRead rs485_master"
    by (simp_all add: src_file ends_def rs485_master_def activeRead_def)
  from readMsg_ends [OF this(2,1)] obtain w where
    r: "readMsg rs485_master (m_world (s_mon s)) = Some (Inr (release, False), w)"
    and w: "frames (pending (w_file w)) = [[]]" "ends rs485_master (w_file w)"
    by (auto simp: line release_frames)
  have empty: "pending (w_file w) = []" using frames_unframe [of "pending (w_file w)" "[]"] w(1) by simp
  have nz: "release \<noteq> replicate (length release) 0" by (simp add: release_def)
  let ?a = "s\<lparr>s_mon := setWorld w (s_mon s), s_reader := WantLock release False\<rparr>"
  let ?b = "?a\<lparr>s_lock := Some Reader, s_reader := Processing release False\<rparr>"
  obtain x st where h: "handleMsg utc_1970_01_01 rs485_master False release (s_mon ?b) = (x, st)"
    by (cases "handleMsg utc_1970_01_01 rs485_master False release (s_mon ?b)")
  then have ev: "m_event st" using release_sets_event by (metis snd_conv)
  have "source st = source (s_mon ?b)" using preservesD [OF src_kept.handleMsg_ok h] by simp
  then have same: "w_file (m_world st) = w_file w" by (simp add: source_def)
  let ?c = "?b\<lparr>s_mon := st, s_lock := None, s_reader := (if False \<or> (\<exists>e. x = Inl e) then ReaderDone else Reading)\<rparr>"
  let ?d = "?c\<lparr>s_mon := setTimer True (s_mon ?c), s_timer := True, s_master := ClearEvent []\<rparr>"
  let ?e = "?d\<lparr>s_mon := setEvent False (s_mon ?d), s_master := WaitEvent []\<rparr>"
  have "?R s ?a" using s(2) r nz by (intro read_message) (simp_all add: state_ok_def)
  then have "?Q s ?a" by simp
  moreover have "?R ?a ?b" using s(2) by (intro read_lock) (simp_all add: state_ok_def)
  then have "?Q ?a ?b" by simp
  moreover have "?R ?b ?c" using h by (intro read_process) simp_all
  then have "?Q ?b ?c" by simp
  ultimately have run: "?Q\<^sup>*\<^sup>* s ?c" by (rule three_steps)
  have d: "?R ?c ?d" using s(3) by (intro timer_start) simp
  have e: "?R ?d ?e" by (rule event_clear) simp
  have "forgotten ?e"
    using s(2) same empty w(2) by (auto simp: forgotten_def setEvent_def setTimer_def onWorld_def state_ok_def)
  then have stays: "\<forall>u. (\<lambda>s s'. ?R s s' \<and> s_expired s' \<le> s_expired s)\<^sup>*\<^sup>* ?e u \<longrightarrow> s_master u = WaitEvent [] \<and> \<not> m_event (s_mon u)"
    by (rule forgotten_stays)
  have c: "m_event (s_mon ?c)" "pending (w_file (m_world (s_mon ?c))) = []" using ev same empty by simp_all
  have a: "\<not> m_event (s_mon s)" using s(2) by (simp add: state_ok_def)
  have timer: "s_timer ?e" by simp
  show ?thesis
    by (rule exI [of _ s], rule exI [of _ ?c], rule exI [of _ ?d], rule exI [of _ ?e], intro conjI)
       (fact s(1), fact s(3), fact a, fact line, fact run, fact c(1), fact c(2), fact d, fact e, fact timer, fact stays)
qed

theorem release_can_be_forgotten_witness:
  "\<exists>b c. m_event (s_mon b) \<and> pending (w_file (m_world (s_mon b))) = [] \<and>
     (sys_step utc_1970_01_01 rs485_master False [''1''] False)\<^sup>*\<^sup>* b c \<and>
     s_timer c \<and> s_master c = WaitEvent [] \<and> \<not> m_event (s_mon c)"
proof -
  let ?R = "sys_step utc_1970_01_01 rs485_master False [''1''] False"
  obtain a b b' c where run: "m_event (s_mon b)" "pending (w_file (m_world (s_mon b))) = []" "?R b b'" "?R b' c" "s_timer c"
    and stays: "\<forall>s. (\<lambda>s s'. ?R s s' \<and> s_expired s' \<le> s_expired s)\<^sup>*\<^sup>* c s \<longrightarrow> s_master s = WaitEvent [] \<and> \<not> m_event (s_mon s)"
    using release_can_be_forgotten by blast
  have "s_master c = WaitEvent [] \<and> \<not> m_event (s_mon c)" using stays by blast
  moreover have "?R\<^sup>*\<^sup>* b c" using run(3,4) by (meson converse_rtranclp_into_rtranclp r_into_rtranclp)
  ultimately show ?thesis using run by blast
qed

end
