(* ===== verification/Control.thy ===== *)
theory Control
  imports Master
begin

text \<open>
  Command mode, \<^verbatim>\<open>doCommands\<close> of \<^verbatim>\<open>semonitor.py\<close>: each command given on the command line is sent to
  the slave, and the message read next is parsed and written as its response.  No other thread runs
  in this mode, so that the wait in \<^verbatim>\<open>masterGrant\<close> ends with its timer.
\<close>

subsection \<open>The parameters of a command\<close>

text \<open>
  A command is the function code in hexadecimal, followed by parameters of a format letter and a
  hexadecimal number.
\<close>

fun first_char :: "string \<Rightarrow> char res" where
  "first_char [] = Inl IndexError"
| "first_char (c # cs) = Inr c"

definition commandParts :: "string list \<Rightarrow> (int \<times> string \<times> int list) res" where
  "commandParts command =
     rbind (rbind (py_index command 0) (py_int 16)) (\<lambda>function.
     rbind (rmap first_char (tl command)) (\<lambda>format.
     rbind (rmap (\<lambda>p. py_int 16 (tl p)) (tl command)) (\<lambda>params. Inr (function, format, params))))"

definition code_of :: "char \<Rightarrow> icode option" where
  "code_of c =
     (if c = CHR ''b'' then Some Cb else if c = CHR ''h'' then Some Ch else if c = CHR ''l'' then Some Cl
      else if c = CHR ''B'' then Some CB else if c = CHR ''H'' then Some CH else if c = CHR ''L'' then Some CL
      else None)"

text \<open>\<^verbatim>\<open>struct.pack("<" + format, *params)\<close> for the letters the validator lets through\<close>

definition packFormat :: "string \<Rightarrow> int list \<Rightarrow> bytes res" where
  "packFormat format params =
     (if list_all (\<lambda>c. code_of c \<noteq> None) format then pack LE (map (\<lambda>c. the (code_of c)) format) params
      else Inl StructError)"

subsection \<open>Sending a command and writing the response\<close>

text \<open>\<^verbatim>\<open>masterGrant\<close> without another thread: the timer sets the event.\<close>

definition soloGrant :: "string \<Rightarrow> unit mon" where
  "soloGrant slaveAddr =
     sbind (sendGrant slaveAddr) (\<lambda>_. modify (\<lambda>st.
       setTimer False (setEvent True (setTimer False (setEvent True (setEvent False (setTimer True st)))))))"

definition issueCommand :: "run_mode \<Rightarrow> string list \<Rightarrow> string list \<Rightarrow> (int \<times> int) mon" where
  "issueCommand mode addrs command =
     sbind (lift (commandParts command)) (\<lambda>(function, format, params).
     sbind nextSeq (\<lambda>seq.
     sbind (lift (py_index addrs 0)) (\<lambda>slaveAddr.
     sbind (lift (py_int 16 slaveAddr)) (\<lambda>slave.
     sbind (lift (packFormat format params)) (\<lambda>payload.
     sbind (lift (formatMsg seq MASTER_ADDR slave function payload)) (\<lambda>m.
     sbind (modify (onWorld (sendMsg m))) (\<lambda>_.
     sbind (if masterMode mode then soloGrant slaveAddr else ret ()) (\<lambda>_. ret (function, seq)))))))))"

definition writeResponse :: "clock \<Rightarrow> int \<Rightarrow> int \<Rightarrow> bytes \<Rightarrow> unit mon" where
  "writeResponse lt function seq msg =
     sbind (lift (parseMsg msg)) (\<lambda>(msgSeq, fromAddr, toAddr, response, data).
     sbind (parsePayload lt response data) (\<lambda>msgData.
       writeData (PDict [field_of ''command'' (PInt function), field_of ''response'' (PInt response),
                         field_of ''sequence'' (PInt seq), field_of ''data'' msgData])))"

definition doCommand :: "clock \<Rightarrow> run_mode \<Rightarrow> string list \<Rightarrow> string list \<Rightarrow> monitor \<Rightarrow> (unit res \<times> monitor) option" where
  "doCommand lt mode addrs command st =
     (case issueCommand mode addrs command st of
        (Inl e, st1) \<Rightarrow> Some (Inl e, st1)
      | (Inr (function, seq), st1) \<Rightarrow>
          (case readMsg mode (m_world st1) of
             None \<Rightarrow> None
           | Some (Inl e, w) \<Rightarrow> Some (Inl e, setWorld w st1)
           | Some (Inr (msg, eof), w) \<Rightarrow> Some (writeResponse lt function seq msg (setWorld w st1))))"

fun doCommands :: "clock \<Rightarrow> run_mode \<Rightarrow> string list \<Rightarrow> string list list \<Rightarrow> monitor \<Rightarrow> (unit res \<times> monitor) option" where
  "doCommands lt mode addrs [] st = Some (Inr (), st)"
| "doCommands lt mode addrs (command # rest) st =
     (case doCommand lt mode addrs command st of
        None \<Rightarrow> None
      | Some (Inl e, st') \<Rightarrow> Some (Inl e, st')
      | Some (Inr _, st') \<Rightarrow> doCommands lt mode addrs rest st')"

subsection \<open>Commands that the command line accepts\<close>

lemma split_on_snoc: "x \<noteq> c \<Longrightarrow> split_on c (s @ [x]) = butlast (split_on c s) @ [last (split_on c s) @ [x]]"
proof (induction s)
  case (Cons y s)
  obtain p ps where "split_on c s = p # ps" by (cases "split_on c s") auto
  then show ?case using Cons by (cases ps) auto
qed simp

text \<open>\<open>nl_last xs ys\<close>: \<open>ys\<close> is \<open>xs\<close>, or \<open>xs\<close> with a newline after its last string.\<close>

definition hexnl :: "string \<Rightarrow> bool" where
  "hexnl s \<longleftrightarrow> hex_digits (chomp s)"

lemma chomp_snoc [simp]: "chomp (s @ [CHR 0x0A]) = s"
  by (simp add: chomp_def)

lemma hexnl_plain: "hex_digits s \<Longrightarrow> hexnl s" "hex_digits s \<Longrightarrow> hexnl (s @ [CHR 0x0A])"
proof -
  assume h: "hex_digits s"
  have "hexval (CHR 0x0A) = None" by (simp add: hexval_def)
  moreover have "s \<noteq> []" "list_all (\<lambda>c. hexval c \<noteq> None) s" using h by (simp_all add: hex_digits_def)
  then have "hexval (last s) \<noteq> None" by (simp add: list_all_iff)
  ultimately have "last s \<noteq> CHR 0x0A" by auto
  then show "hexnl s" using h by (simp add: hexnl_def chomp_def)
  show "hexnl (s @ [CHR 0x0A])" using h by (simp add: hexnl_def)
qed

definition param_nl :: "string \<Rightarrow> bool" where
  "param_nl p \<longleftrightarrow> (\<exists>c s. p = c # s \<and> code_of c \<noteq> None \<and> hexnl s)"

lemma param_nl_plain: "param_ok p \<Longrightarrow> param_nl p" "param_ok p \<Longrightarrow> param_nl (p @ [CHR 0x0A])"
  by (cases p; use hexnl_plain in \<open>auto simp: param_nl_def code_of_def\<close>)+

lemma command_ok_parts:
  assumes "command_ok c"
  shows "\<exists>f ps. split_on (CHR '','') c = f # ps \<and> hexnl f \<and> list_all param_nl ps"
proof -
  obtain f ps where s: "split_on (CHR '','') (chomp c) = f # ps" "hex_digits f" "list_all param_ok ps"
    using assms by (auto simp: command_ok_def split: list.splits)
  have ok: "hexnl f" "list_all param_nl ps"
    using s hexnl_plain(1) param_nl_plain(1) by (auto simp: list_all_iff)
  show ?thesis
  proof (cases "c \<noteq> [] \<and> last c = CHR 0x0A")
    case True
    then have "c = chomp c @ [CHR 0x0A]" by (metis append_butlast_last_id chomp_def)
    then have e: "split_on (CHR '','') c = butlast (f # ps) @ [last (f # ps) @ [CHR 0x0A]]"
      using split_on_snoc [of "CHR 0x0A" "CHR '',''" "chomp c"] s(1) by simp
    show ?thesis
    proof (cases ps rule: rev_cases)
      case Nil
      then show ?thesis using e s(2) hexnl_plain(2) by simp
    next
      case (snoc qs q)
      then show ?thesis using e ok s(3) param_nl_plain(2) by simp
    qed
  next
    case False
    then have "chomp c = c" by (auto simp: chomp_def)
    then show ?thesis using s ok by simp
  qed
qed

lemma rmap_params:
  "list_all param_nl ps \<Longrightarrow> \<exists>fs vs. rmap first_char ps = Inr fs \<and> rmap (\<lambda>p. py_int 16 (tl p)) ps = Inr (map int vs) \<and>
     list_all (\<lambda>c. code_of c \<noteq> None) fs \<and> length fs = length ps \<and> length vs = length ps"
proof (induction ps)
  case (Cons p ps)
  then obtain fs vs where "rmap first_char ps = Inr fs" "rmap (\<lambda>p. py_int 16 (tl p)) ps = Inr (map int vs)"
     "list_all (\<lambda>c. code_of c \<noteq> None) fs" "length fs = length ps" "length vs = length ps" by auto
  moreover obtain c s where "p = c # s" "code_of c \<noteq> None" "hexnl s" using Cons.prems by (auto simp: param_nl_def)
  moreover obtain n where "py_int 16 s = Inr (int n)" using calculation(8) py_int_hex_digits by (auto simp: hexnl_def)
  ultimately show ?case by (intro exI [of _ "c # fs"] exI [of _ "n # vs"]) simp
qed simp

text \<open>
  Every command that the command line validator accepts can be taken apart without an exception
  (the newline that the validator lets through at the end included), into a function code, format
  letters and as many numbers; packing the numbers then raises \<^verbatim>\<open>struct.error\<close> exactly if one of
  them does not fit its format letter.
\<close>

theorem accepted_commands_parse:
  assumes "validated_commands s = Inr cs"
  shows "list_all (\<lambda>c. \<exists>fn format params. commandParts c = Inr (int fn, format, map int params) \<and>
      list_all (\<lambda>l. code_of l \<noteq> None) format \<and> length params = length format \<and>
      (packFormat format (map int params) = Inl StructError \<or>
       (\<exists>payload. packFormat format (map int params) = Inr payload \<and>
          unpack_ints LE (map (\<lambda>l. the (code_of l)) format) payload = Inr (map int params)))) cs"
proof -
  have acc: "list_all command_ok (split_on (CHR ''/'') s)" and cs: "cs = map (split_on (CHR '','')) (split_on (CHR ''/'') s)"
  proof -
    show "list_all command_ok (split_on (CHR ''/'') s)"
      using assms check_all_error [of command_ok "split_on (CHR ''/'') s" "''Invalid command: ''"]
      by (auto simp: validated_commands_def split: sum.splits)
    then show "cs = map (split_on (CHR '','')) (split_on (CHR ''/'') s)"
      using assms by (simp add: validated_commands_def check_all_ok)
  qed
  have "\<exists>fn format params. commandParts (split_on (CHR '','') c) = Inr (int fn, format, map int params) \<and>
      list_all (\<lambda>l. code_of l \<noteq> None) format \<and> length params = length format \<and>
      (packFormat format (map int params) = Inl StructError \<or>
       (\<exists>payload. packFormat format (map int params) = Inr payload \<and>
          unpack_ints LE (map (\<lambda>l. the (code_of l)) format) payload = Inr (map int params)))"
    if c: "command_ok c" for c
  proof -
    obtain f ps where s: "split_on (CHR '','') c = f # ps" "hexnl f" "list_all param_nl ps"
      using command_ok_parts [OF c] by blast
    obtain n where n: "py_int 16 f = Inr (int n)" using s(2) py_int_hex_digits by (auto simp: hexnl_def)
    obtain fs vs where p: "rmap first_char ps = Inr fs" "rmap (\<lambda>p. py_int 16 (tl p)) ps = Inr (map int vs)"
       "list_all (\<lambda>c. code_of c \<noteq> None) fs" "length fs = length ps" "length vs = length ps"
      using rmap_params [OF s(3)] by blast
    have "packFormat fs (map int vs) = Inl StructError \<or>
       (\<exists>payload. packFormat fs (map int vs) = Inr payload \<and>
          unpack_ints LE (map (\<lambda>l. the (code_of l)) fs) payload = Inr (map int vs))"
      using p(3) pack_error unpack_pack
      by (cases "pack LE (map (\<lambda>c. the (code_of c)) fs) (map int vs)") (auto simp: packFormat_def)
    moreover have "commandParts (split_on (CHR '','') c) = Inr (int n, fs, map int vs)"
      by (simp add: commandParts_def s(1) py_index_def n p(1,2))
    ultimately show ?thesis using p(3-5) by auto
  qed
  then show ?thesis using acc by (auto simp: cs list_all_iff)
qed

text \<open>The sequence number depends on the sequence file only, and the file is all it changes.\<close>

lemma nextSeq_cong: "m_seqFile st = m_seqFile st' \<Longrightarrow> fst (nextSeq st) = fst (nextSeq st')"
  by (simp add: nextSeq_def split: prod.split)

lemma nextSeq_sent: "nextSeq st = (r, st') \<Longrightarrow> sentBytes st' = sentBytes st"
  by (auto simp: nextSeq_def sentBytes_def split: prod.splits)

lemma soloGrant_sends:
  assumes "soloGrant slaveAddr st = (Inr u, st')"
  shows "\<exists>seq slave g. fst (nextSeq st) = Inr seq \<and> py_int 16 slaveAddr = Inr slave \<and>
    formatMsg seq MASTER_ADDR slave PROT_CMD_POLESTAR_MASTER_GRANT [] = Inr g \<and> sentBytes st' = sentBytes st @ magic @ g"
proof -
  let ?st = "onWorld (setState ''threadLock'' (PBool True)) st"
  obtain seq st1 slave g where q: "nextSeq ?st = (Inr seq, st1)" and s: "py_int 16 slaveAddr = Inr slave"
    and g: "formatMsg seq MASTER_ADDR slave PROT_CMD_POLESTAR_MASTER_GRANT [] = Inr g"
    and st': "sentBytes st' = sentBytes (onWorld (sendMsg g) st1)"
    using assms by (auto simp: soloGrant_def sendGrant_def setVar_def eff_simps setTimer_def setEvent_def sentBytes_def onWorld_def)
  have "fst (nextSeq st) = Inr seq" using nextSeq_cong [of st ?st] q by (simp add: onWorld_def)
  moreover have "sentBytes st1 = sentBytes st" using nextSeq_sent [OF q] by (simp add: sentBytes_def onWorld_def)
  ultimately show ?thesis using s g st' by (auto simp: sentBytes_def onWorld_def sendMsg_def)
qed

text \<open>
  C18.  A command that is issued without an exception puts exactly one message on the line, and in
  master mode exactly one more, the grant of the bus.  From the first the parser reads back the next
  sequence number, the master's and the slave's address, the function code and a payload that
  unpacks to the parameters; from the second the sequence number after it, the same addresses, the
  function code of the grant and no data.
\<close>

theorem command_on_the_wire:
  assumes "issueCommand mode addrs command st = (Inr (function, seq), st')"
  shows "\<exists>m slave payload format params rest. sentBytes st' = sentBytes st @ magic @ m @ rest \<and>
    parseMsg m = Inr (seq, MASTER_ADDR, slave, function, payload) \<and>
    commandParts command = Inr (function, format, params) \<and>
    fst (nextSeq st) = Inr seq \<and> rbind (py_index addrs 0) (py_int 16) = Inr slave \<and>
    unpack_ints LE (map (\<lambda>l. the (code_of l)) format) payload = Inr params \<and>
    (if masterMode mode
     then \<exists>g seq2. rest = magic @ g \<and> fst (nextSeq (snd (nextSeq st))) = Inr seq2 \<and>
       parseMsg g = Inr (seq2, MASTER_ADDR, slave, PROT_CMD_POLESTAR_MASTER_GRANT, [])
     else rest = [])"
proof -
  obtain format params st1 slaveAddr slave payload m u where
    p: "commandParts command = Inr (function, format, params)" and
    q: "nextSeq st = (Inr seq, st1)" and
    a: "py_index addrs 0 = Inr slaveAddr" "py_int 16 slaveAddr = Inr slave" and
    pl: "packFormat format params = Inr payload" and
    m: "formatMsg seq MASTER_ADDR slave function payload = Inr m" and
    g: "(if masterMode mode then soloGrant slaveAddr else ret ()) (onWorld (sendMsg m) st1) = (Inr u, st')"
    using assms unfolding issueCommand_def by (auto simp: eff_simps split: prod.splits)
  have s2: "sentBytes (onWorld (sendMsg m) st1) = sentBytes st @ magic @ m"
    using nextSeq_sent [OF q] by (simp add: sentBytes_def onWorld_def sendMsg_def)
  obtain rest where rest: "sentBytes st' = sentBytes st @ magic @ m @ rest"
    "if masterMode mode
     then \<exists>g seq2. rest = magic @ g \<and> fst (nextSeq (snd (nextSeq st))) = Inr seq2 \<and>
       parseMsg g = Inr (seq2, MASTER_ADDR, slave, PROT_CMD_POLESTAR_MASTER_GRANT, [])
     else rest = []"
  proof (cases "masterMode mode")
    case True
    then have "soloGrant slaveAddr (onWorld (sendMsg m) st1) = (Inr u, st')" using g by simp
    from soloGrant_sends [OF this] obtain seq2 h where h: "fst (nextSeq (onWorld (sendMsg m) st1)) = Inr seq2"
        "formatMsg seq2 MASTER_ADDR slave PROT_CMD_POLESTAR_MASTER_GRANT [] = Inr h"
        "sentBytes st' = sentBytes st @ magic @ m @ magic @ h"
      using a(2) s2 by auto
    have "fst (nextSeq (snd (nextSeq st))) = Inr seq2"
      using h(1) nextSeq_cong [of st1 "onWorld (sendMsg m) st1"] by (simp add: q onWorld_def)
    with h(3) parse_formatted(1) [OF h(2)] True show thesis by (intro that [of "magic @ h"]) auto
  next
    case False
    then show thesis using that [of "[]"] g s2 by simp
  qed
  have unpack: "unpack_ints LE (map (\<lambda>l. the (code_of l)) format) payload = Inr params"
    using pl unpack_pack by (auto simp: packFormat_def split: if_splits)
  have sq: "fst (nextSeq st) = Inr seq" "rbind (py_index addrs 0) (py_int 16) = Inr slave" using q a by simp_all
  show ?thesis
    by (rule exI [of _ m], rule exI [of _ slave], rule exI [of _ payload], rule exI [of _ format],
      rule exI [of _ params], rule exI [of _ rest], intro conjI)
      (fact rest(1), fact parse_formatted(1) [OF m], fact p, fact sq(1), fact sq(2), fact unpack, fact rest(2))
qed

subsection \<open>Examples\<close>

lemma command_example: "commandParts [''12'', ''H41''] = Inr (0x12, ''H'', [0x41])"
  by code_simp

theorem accepted_commands_parse_witness:
  "validated_commands ''12,H41'' = Inr [[''12'', ''H41'']] \<and>
   (\<exists>payload. packFormat ''H'' [0x41] = Inr payload \<and> unpack_ints LE [CH] payload = Inr [0x41])"
proof -
  have v: "validated_commands ''12,H41'' = Inr [[''12'', ''H41'']]" by code_simp
  have "packFormat ''H'' [0x41] \<noteq> Inl StructError" by code_simp
  then show ?thesis
    using v accepted_commands_parse [OF v] by (auto simp: command_example code_of_def)
qed

theorem command_on_the_wire_witness:
  "\<exists>st' m. issueCommand file_mode [''1''] [''12'', ''H41''] (start_bus []) = (Inr (0x12, 1), st') \<and>
     sentBytes st' = magic @ m \<and> (\<exists>slave payload. parseMsg m = Inr (1, MASTER_ADDR, slave, 0x12, payload))"
proof -
  have parts: "packFormat ''H'' [0x41] = Inr [0x41, 0]" "py_int 16 ''1'' = Inr 1" by code_simp+
  obtain m where m: "formatMsg 1 MASTER_ADDR 1 0x12 [0x41, 0] = Inr m"
    by (simp add: formatMsg_ok hdr_ok_def in_range_def MASTER_ADDR_def)
  have n: "nextSeq (start_bus []) = (Inr 1, (start_bus []) \<lparr>m_seqFile := Some (dec_str 1 @ [CHR 0x0A])\<rparr>)"
    by (simp add: nextSeq_def seqNext_new start_bus_def start_monitor_def)
  have mode: "\<not> masterMode file_mode" by (simp add: file_mode_def)
  obtain st' where "issueCommand file_mode [''1''] [''12'', ''H41''] (start_bus []) = (Inr (0x12, 1), st')"
    by (simp add: issueCommand_def command_example sbind_Inr [where m = nextSeq, OF n] py_index_def parts m mode)
  with command_on_the_wire [OF this] mode show ?thesis
    by (auto simp: sentBytes_def start_bus_def start_monitor_def start_world_def)
qed

end
