(* ===== verification/Program.thy ===== *)
theory Program
  imports Control
begin

text \<open>
  The main program of \<^verbatim>\<open>semonitor.py\<close> with \<^verbatim>\<open>se/files.py\<close>: which source and which files it opens, and
  what it then does, as decided by the command line.
\<close>

subsection \<open>Files\<close>

datatype source = NetworkSocket "nat list" | SerialPort string int | Stdin | InputFile string

datatype sink = NoFile | Stdout | OutputFile string bool \<comment> \<open>True: append\<close>

definition openInFile :: "string \<Rightarrow> source" where
  "openInFile inFileName = (if inFileName = ''stdin'' then Stdin else InputFile inFileName)"

text \<open>
  \<open>openDataSocket\<close>: the calls on the listening sockets, named by their ports, and the port whose
  connection is taken.  Which ports are in use and which listener gets the connection are arguments.
\<close>

datatype socket_call =
    NewSocket nat | ReuseAddress nat | BindPort nat | Listen nat | Select "nat list" | Accept nat
  | CloseListener nat | SetTimeout

fun openListeners :: "(nat \<Rightarrow> bool) \<Rightarrow> nat list \<Rightarrow> socket_call generated" where
  "openListeners busy [] = ([], None)"
| "openListeners busy (p # ps) =
     (if busy p then ([NewSocket p, ReuseAddress p, BindPort p], Some OSError)
      else gen_then ([NewSocket p, ReuseAddress p, BindPort p, Listen p], None) (openListeners busy ps))"

definition openDataSocket :: "(nat \<Rightarrow> bool) \<Rightarrow> (nat list \<Rightarrow> nat) \<Rightarrow> nat list \<Rightarrow> socket_call list \<times> nat res" where
  "openDataSocket busy ready ports = (case openListeners busy ports of
       (calls, Some e) \<Rightarrow> (calls, Inl e)
     | (calls, None) \<Rightarrow>
         (calls @ [Select ports, Accept (ready ports)] @ map CloseListener ports @ [SetTimeout], Inr (ready ports)))"

lemma openListeners_free:
  "list_all (\<lambda>p. \<not> busy p) ports \<Longrightarrow>
     openListeners busy ports = (concat (map (\<lambda>p. [NewSocket p, ReuseAddress p, BindPort p, Listen p]) ports), None)"
  by (induction ports) auto

text \<open>
  With all ports free, exactly one connection is taken, from one of the ports, and no socket goes on
  listening; with a port in use there is no connection.
\<close>

lemma openDataSocket_ok:
  assumes "list_all (\<lambda>p. \<not> busy p) ports" and "ready ports \<in> set ports"
  shows "\<exists>calls. openDataSocket busy ready ports = (calls, Inr (ready ports)) \<and>
    filter (\<lambda>c. \<exists>p. c = Accept p) calls = [Accept (ready ports)] \<and>
    (\<forall>p. Listen p \<in> set calls \<longrightarrow> CloseListener p \<in> set calls)"
  using assms
  by (auto simp: openDataSocket_def openListeners_free filter_concat filter_empty_conv comp_def)

lemma openDataSocket_busy:
  "list_ex busy ports \<Longrightarrow> snd (openDataSocket busy ready ports) = Inl OSError"
proof -
  have "list_ex busy ports \<Longrightarrow> snd (openListeners busy ports) = Some OSError"
  proof (induction ports)
    case (Cons p ports)
    then show ?case by (cases "openListeners busy ports") auto
  qed simp
  then show "list_ex busy ports \<Longrightarrow> snd (openDataSocket busy ready ports) = Inl OSError"
    by (cases "openListeners busy ports") (auto simp: openDataSocket_def)
qed

definition openSource :: "arguments \<Rightarrow> run_mode \<Rightarrow> nat list \<Rightarrow> int \<Rightarrow> source" where
  "openSource args mode ports baudrate =
     (if datasource args = ''network'' then NetworkSocket ports
      else if serialDevice mode then SerialPort (datasource args) baudrate
      else openInFile (datasource args))"

definition openOutFile :: "string option \<Rightarrow> bool \<Rightarrow> sink" where
  "openOutFile fileName appending = (case fileName of
       None \<Rightarrow> NoFile
     | Some n \<Rightarrow> if n = [] then NoFile else OutputFile n appending)"

definition openResult :: "string \<Rightarrow> bool \<Rightarrow> sink" where
  "openResult outfile appending = (if outfile = ''stdout'' then Stdout else openOutFile (Some outfile) appending)"

text \<open>The files closed at the end, standard output among them.\<close>

definition closeOutFiles :: "sink \<Rightarrow> sink \<Rightarrow> sink list" where
  "closeOutFiles recFile outFile = (if recFile = NoFile then [] else [recFile]) @ (if outFile = NoFile then [] else [outFile])"

subsection \<open>What the program does\<close>

text \<open>Read in the main thread, send the commands, or read in a thread with or without a bus master.\<close>

datatype activity = ReadHere | SendCommands | ReadThread bool

definition activity_of :: "arguments \<Rightarrow> run_mode \<Rightarrow> activity" where
  "activity_of args mode =
     (if passiveMode mode then ReadHere
      else if commands args \<noteq> [] then SendCommands
      else ReadThread (master args))"

definition program :: "string list \<Rightarrow> nat list \<Rightarrow> int \<Rightarrow> arguments \<Rightarrow> string + (source \<times> activity)" where
  "program serial_ports ports baudrate args =
     (case getArgs serial_ports args of
        Inl e \<Rightarrow> Inl e
      | Inr (args', mode) \<Rightarrow> Inr (openSource args' mode ports baudrate, activity_of args' mode))"

text \<open>What the arguments ask to read.\<close>

definition requested :: "arguments \<Rightarrow> nat list \<Rightarrow> int \<Rightarrow> source" where
  "requested args ports baudrate =
     (if arg_type args = Some ''n'' \<or> datasource args = ''network'' then NetworkSocket ports
      else if arg_type args = Some ''2'' \<or> arg_type args = Some ''4'' then SerialPort (datasource args) baudrate
      else if datasource args = ''-'' \<or> datasource args = ''stdin'' then Stdin
      else InputFile (datasource args))"

lemma getArgs_source:
  "getArgs serial_ports args = Inr (args', m) \<Longrightarrow> openSource args' m ports baudrate = requested args ports baudrate"
  by (auto simp: getArgs_def source_checks_def serial_checks_def master_checks_def command_checks_def Let_def
      openSource_def openInFile_def requested_def split: if_splits)

lemma getArgs_activity:
  "getArgs serial_ports args = Inr (args', m) \<Longrightarrow>
     commands args' = commands args \<and> master args' = master args \<and>
     (passiveMode m \<longleftrightarrow> \<not> master args \<and> commands args = [])"
  by (auto simp: getArgs_def source_checks_def serial_checks_def master_checks_def command_checks_def Let_def
      split: if_splits)

text \<open>
  What a command line makes the program do: it reads the requested source; with commands it sends
  them; with master mode alone it starts the reading and the master thread; otherwise it reads in the
  main thread.  The reading thread without a master, meant for interacting over the network, is never
  started.
\<close>

theorem program_activity:
  assumes "program serial_ports ports baudrate args = Inr (src, act)"
  shows "src = requested args ports baudrate \<and>
    act = (if commands args \<noteq> [] then SendCommands else if master args then ReadThread True else ReadHere) \<and>
    act \<noteq> ReadThread False"
proof -
  obtain args' m where g: "getArgs serial_ports args = Inr (args', m)"
      "src = openSource args' m ports baudrate" "act = activity_of args' m"
    using assms by (auto simp: program_def split: sum.splits)
  show ?thesis
    using getArgs_source [OF g(1)] getArgs_activity [OF g(1)] by (simp add: g(2,3) activity_of_def)
qed

theorem program_activity_witness:
  "program [] [22222] 115200 \<lparr>commands = [], follow = False, arg_following = False, master = False, slaves = [],
      arg_type = Some ''n'', datasource = ''stdin''\<rparr> = Inr (NetworkSocket [22222], ReadHere)"
proof -
  let ?a = "\<lparr>commands = [], follow = False, arg_following = False, master = False, slaves = [],
      arg_type = Some ''n'', datasource = ''stdin''\<rparr>"
  obtain src act where p: "program [] [22222] 115200 ?a = Inr (src, act)"
    by (simp add: program_def getArgs_def source_checks_def serial_checks_def master_checks_def command_checks_def)
  from program_activity [OF this] show ?thesis unfolding p by (simp add: requested_def)
qed

end
