(* ===== verification/LogUtils.thy ===== *)
theory LogUtils
  imports Devices PyInt
begin

text \<open>
  Hex dumps in the log, \<^verbatim>\<open>format_data\<close> of \<^verbatim>\<open>se/logutils.py\<close>, and how a line of such a dump is turned
  back into the bytes it shows.
\<close>

subsection \<open>The dump\<close>

definition format_data :: "bytes \<Rightarrow> string list" where
  "format_data data =
     map (\<lambda>k. ''data:       '' @ join '' '' (map hex2 (slice (16 * k) (16 * k + 16) data))) [0..<(length data + 15) div 16]"

subsection \<open>The lines of a dump\<close>

definition dumpLine :: "string \<Rightarrow> bool" where
  "dumpLine line \<longleftrightarrow> slice 0 5 line = ''data:''"

definition dumpText :: "string \<Rightarrow> string" where
  "dumpText line = strip_chars is_space (remove_char (CHR '' '') (drop 5 line))"

text \<open>
  \<open>shows_bytes ls bs\<close>: every line of a dump in \<open>ls\<close> shows some bytes, and \<open>bs\<close> are the bytes of all of
  them; lines of another kind do not matter.
\<close>

inductive shows_bytes :: "string list \<Rightarrow> bytes \<Rightarrow> bool" where
  no_lines: "shows_bytes [] []"
| other_line: "\<not> dumpLine l \<Longrightarrow> shows_bytes ls bs \<Longrightarrow> shows_bytes (l # ls) bs"
| dump_line: "dumpLine l \<Longrightarrow> unhexlify (dumpText l) = Inr b \<Longrightarrow> b \<noteq> [] \<Longrightarrow> shows_bytes ls bs \<Longrightarrow>
    shows_bytes (l # ls) (b @ bs)"

lemma shows_bytes_append: "shows_bytes ls a \<Longrightarrow> shows_bytes ms b \<Longrightarrow> shows_bytes (ls @ ms) (a @ b)"
  by (induction rule: shows_bytes.induct) (auto intro: shows_bytes.intros)

lemma shows_no_bytes: "\<forall>l \<in> set ls. \<not> dumpLine l \<Longrightarrow> shows_bytes ls []"
  by (induction ls) (auto intro: shows_bytes.intros)

subsection \<open>The conversion inverts the dump\<close>

lemma hex_encode_digits: "hex_encode b = [] \<or> plain_digits 16 (hex_encode b)"
proof -
  have "digit_in 16 c \<noteq> None" if "c \<in> set (hex2 x)" for c x
    using that unat_byte_less [of x] by (auto simp: hex2_def digit_in_def)
  then show ?thesis by (auto simp: plain_digits_def hex_encode_def list_all_iff)
qed

lemma strip_hex_encode: "strip_chars is_space (hex_encode b @ [CHR 0x0A]) = hex_encode b"
proof (cases "hex_encode b = []")
  case True
  then show ?thesis by (simp add: strip_chars_def is_space_def)
next
  case False
  then have "plain_digits 16 (hex_encode b)" using hex_encode_digits by blast
  then have "list_all (\<lambda>c. \<not> is_space c) (hex_encode b)"
    using digit_not_space by (fastforce simp: plain_digits_def list_all_iff)
  then show ?thesis using False by (intro strip_newline)
qed

lemma dump_line_bytes:
  defines "line b \<equiv> (''data:       '' @ join '' '' (map hex2 b)) @ [CHR 0x0A]"
  shows "dumpLine (line b)" and "unhexlify (dumpText (line b)) = Inr b"
proof -
  have "filter (\<lambda>x. x \<noteq> CHR '' '') (join '' '' (map hex2 b)) = hex_encode b"
    using hex2_chars by (simp add: filter_join hex_encode_def comp_def filter_id_conv)
  then have "remove_char (CHR '' '') (drop 5 (line b)) = hex_encode b @ [CHR 0x0A]"
    by (simp add: remove_char_def line_def)
  then show "unhexlify (dumpText (line b)) = Inr b"
    by (simp add: dumpText_def strip_hex_encode unhexlify_hex_encode)
  show "dumpLine (line b)" by (simp add: dumpLine_def slice_def line_def)
qed

lemma concat_slices: "concat (map (\<lambda>k. slice (n * k) (n * k + n) data) [0..<m]) = take (n * m) data"
proof (induction m)
  case (Suc m)
  then show ?case by (simp add: slice_def take_add add.commute [of n])
qed simp

lemma format_data_shows: "shows_bytes (map (\<lambda>l. l @ [CHR 0x0A]) (format_data data)) data"
proof -
  let ?n = "(length data + 15) div 16" and ?part = "\<lambda>k. slice (16 * k) (16 * k + 16) data"
  have "shows_bytes (map (\<lambda>k. (''data:       '' @ join '' '' (map hex2 (?part k))) @ [CHR 0x0A]) ks)
      (concat (map ?part ks))" if "\<forall>k \<in> set ks. k < ?n" for ks
    using that
  proof (induction ks)
    case (Cons k ks)
    then have "?part k \<noteq> []" by (auto simp: slice_def)
    with Cons show ?case
      using dump_line [OF dump_line_bytes [of "?part k"]] by simp
  qed (simp add: no_lines)
  from this [of "[0..<?n]"] show ?thesis
    by (simp add: format_data_def comp_def concat_slices)
qed

end
