(* ===== verification/Logging.thy ===== *)
theory Logging
  imports LogUtils
begin

text \<open>
  The log: the levels and the handler that \<^verbatim>\<open>se/env.py\<close> chooses from the command line, the message
  dumps of \<^verbatim>\<open>se/logutils.py\<close> and the lines that the records of a run make.  The time at which a record
  is written is part of the record.
\<close>

subsection \<open>Levels and handlers\<close>

definition ERROR :: nat where "ERROR = 40"
definition INFO :: nat where "INFO = 20"
definition DEBUG :: nat where "DEBUG = 10"
definition LOG_LEVEL_DATA :: nat where "LOG_LEVEL_DATA = 9"
definition LOG_LEVEL_RAW :: nat where "LOG_LEVEL_RAW = 8"

definition logLevel :: "nat \<Rightarrow> nat" where
  "logLevel verbosity =
     (let v = min verbosity 4
      in if v = 1 then INFO else if v = 2 then DEBUG else if v = 3 then LOG_LEVEL_DATA
         else if v = 4 then LOG_LEVEL_RAW else ERROR)"

datatype handler = Syslog | StderrLog | StdoutLog | LogFile string bool \<comment> \<open>True: append\<close>

text \<open>\<open>None\<close>: no handler has been assigned, and adding it raises \<^verbatim>\<open>UnboundLocalError\<close>.\<close>

definition logHandler :: "string \<Rightarrow> bool \<Rightarrow> handler option" where
  "logHandler logfile appending =
     (if logfile = ''syslog'' then Some Syslog
      else if logfile = ''stderr'' then Some StderrLog
      else if logfile = ''stdout'' then Some StdoutLog
      else if logfile \<noteq> [] then Some (LogFile logfile appending)
      else None)"

text \<open>The formatters: only a file has the time before the message.\<close>

definition formatRecord :: "handler \<Rightarrow> string \<Rightarrow> string \<Rightarrow> string" where
  "formatRecord h time text = (case h of LogFile name app \<Rightarrow> time @ '' '' @ text | _ \<Rightarrow> text)"

subsection \<open>Records\<close>

text \<open>
  A call of a logging method at some time: a record of one line with its level, the dump of bytes at the
  level of data (of a message or a part of one that is rejected, surplus, ignored or not interpreted,
  in \<^verbatim>\<open>se/msg.py\<close>, \<^verbatim>\<open>se/data.py\<close> and \<^verbatim>\<open>semonitor.py\<close>), or a message received or sent.
\<close>

datatype log_call =
    Plain string nat string
  | Dump string bytes
  | Message string string nat bytes string

definition isEnabledFor :: "nat \<Rightarrow> nat \<Rightarrow> bool" where
  "isEnabledFor level lvl \<longleftrightarrow> level \<le> lvl"

text \<open>\<^verbatim>\<open>logger.data\<close> of each line of a dump.\<close>

definition data_log :: "nat \<Rightarrow> string list \<Rightarrow> string list" where
  "data_log level lines = (if isEnabledFor level LOG_LEVEL_DATA then lines else [])"

definition message_log :: "nat \<Rightarrow> string \<Rightarrow> nat \<Rightarrow> bytes \<Rightarrow> string \<Rightarrow> string list" where
  "message_log level direction seq msg endPoint =
     (if \<not> isEnabledFor level DEBUG then []
      else (endPoint @ '' '' @ direction @ '' message: '' @ dec_str seq @ '' length: '' @ dec_str (length msg)) #
           (if isEnabledFor level LOG_LEVEL_RAW then format_data msg else []))"

definition records :: "nat \<Rightarrow> log_call \<Rightarrow> (string \<times> string) list" where
  "records level c = (case c of
       Plain t lvl text \<Rightarrow> if isEnabledFor level lvl then [(t, text)] else []
     | Dump t data \<Rightarrow> map (Pair t) (data_log level (format_data data))
     | Message t direction seq msg endPoint \<Rightarrow> map (Pair t) (message_log level direction seq msg endPoint))"

text \<open>The lines of the log.\<close>

definition logText :: "nat \<Rightarrow> handler \<Rightarrow> log_call list \<Rightarrow> string list" where
  "logText level h calls = map (\<lambda>(t, text). formatRecord h t text @ [CHR 0x0A]) (concat (map (records level) calls))"

end
