(* ===== verification/Options.thy ===== *)
theory Options
  imports ArgParse Program Logging
begin

text \<open>
  The command line of \<^verbatim>\<open>semonitor.py\<close> from the words to the running program: the options of
  \<^verbatim>\<open>getArgs\<close>, its checks, and what the main program opens and starts.
\<close>

subsection \<open>Values of options\<close>

datatype optval =
    ONone | OBool bool | ONum int | OText string | OTexts "string list" | OCommands "string list list"
  | OPorts "nat list" | OFile string string

definition textOpt :: "string \<Rightarrow> optval option" where
  "textOpt s = Some (OText s)"

definition intOpt :: "string \<Rightarrow> optval option" where
  "intOpt s = (case py_int 10 s of Inr n \<Rightarrow> Some (ONum n) | Inl e \<Rightarrow> None)"

definition choiceOpt :: "string list \<Rightarrow> string \<Rightarrow> optval option" where
  "choiceOpt cs s = (if s \<in> set cs then Some (OText s) else None)"

definition checkedOpt :: "(string \<Rightarrow> string + 'a) \<Rightarrow> ('a \<Rightarrow> optval) \<Rightarrow> string \<Rightarrow> optval option" where
  "checkedOpt f mk s = (case f s of Inr x \<Rightarrow> Some (mk x) | Inl e \<Rightarrow> None)"

text \<open>\<^verbatim>\<open>argparse.FileType(mode)\<close>: a hyphen is a standard stream; \<open>ok\<close> tells which files can be opened.\<close>

definition fileOpt :: "(string \<Rightarrow> bool) \<Rightarrow> string \<Rightarrow> string \<Rightarrow> optval option" where
  "fileOpt ok m s = (if s = ''-'' \<or> ok s then Some (OFile s m) else None)"

definition setTrue :: "optval \<Rightarrow> optval" where
  "setTrue v = OBool True"

definition countUp :: "optval \<Rightarrow> optval" where
  "countUp v = (case v of ONum n \<Rightarrow> ONum (n + 1) | _ \<Rightarrow> v)"

fun the_text :: "optval option \<Rightarrow> string option" where
  "the_text (Some (OText s)) = Some s"
| "the_text v = None"

fun the_num :: "optval option \<Rightarrow> int" where
  "the_num (Some (ONum n)) = n"
| "the_num v = 0"

fun the_texts :: "optval option \<Rightarrow> string list" where
  "the_texts (Some (OTexts xs)) = xs"
| "the_texts v = []"

fun the_commands :: "optval option \<Rightarrow> string list list" where
  "the_commands (Some (OCommands cs)) = cs"
| "the_commands v = []"

fun the_ports :: "optval option \<Rightarrow> nat list" where
  "the_ports (Some (OPorts ps)) = ps"
| "the_ports v = []"

fun the_file :: "optval option \<Rightarrow> string option" where
  "the_file (Some (OFile n m)) = Some n"
| "the_file v = None"

abbreviation isSet :: "optval namespace \<Rightarrow> string \<Rightarrow> bool" where
  "isSet xs d \<equiv> dget xs d = Some (OBool True)"

subsection \<open>The options of \<^verbatim>\<open>semonitor.py\<close>\<close>

text \<open>\<open>creatable\<close>: the files that can be opened for writing, for the option \<^verbatim>\<open>-u\<close>.\<close>

definition semonitorOptions :: "(string \<Rightarrow> bool) \<Rightarrow> optval opt list" where
  "semonitorOptions creatable = [
     switch [''-a''] ''append'' setTrue,
     valued [''-b''] ''baudrate'' intOpt,
     valued [''-c''] ''commands'' (checkedOpt validated_commands OCommands),
     valued [''-d''] ''logfile'' textOpt,
     switch [''-f''] ''follow'' setTrue,
     switch [''-m''] ''master'' setTrue,
     valued [''-o''] ''outfile'' textOpt,
     valued [''-p''] ''ports'' (checkedOpt validated_ports OPorts),
     valued [''-r''] ''record'' textOpt,
     valued [''-s''] ''slaves'' (checkedOpt validated_slaves OTexts),
     valued [''-t''] ''type'' (choiceOpt [''2'', ''4'', ''n'']),
     valued [''-u''] ''updatefile'' (fileOpt creatable ''w''),
     switch [''-v''] ''verbose'' countUp,
     switch [''-x''] ''xerror'' setTrue]"

definition semonitorDefaults :: "optval namespace" where
  "semonitorDefaults = [
     (''append'', OBool False), (''baudrate'', ONum 115200), (''commands'', OCommands []),
     (''logfile'', OText ''stderr''), (''follow'', OBool False), (''master'', OBool False),
     (''outfile'', OText ''stdout''), (''ports'', OPorts [22222, 22221, 80]), (''record'', ONone),
     (''slaves'', OTexts []), (''type'', ONone), (''updatefile'', ONone), (''verbose'', ONum 0),
     (''xerror'', OBool False), (''datasource'', OText ''stdin'')]"

definition semonitorParser :: "(string \<Rightarrow> bool) \<Rightarrow> optval argparser" where
  "semonitorParser creatable =
     \<lparr>p_options = semonitorOptions creatable, p_operand = Some (''datasource'', textOpt), p_defaults = semonitorDefaults\<rparr>"

definition arguments_of :: "optval namespace \<Rightarrow> arguments" where
  "arguments_of xs =
     \<lparr>commands = the_commands (dget xs ''commands''), follow = isSet xs ''follow'', arg_following = False,
      master = isSet xs ''master'', slaves = the_texts (dget xs ''slaves''), arg_type = the_text (dget xs ''type''),
      datasource = (case the_text (dget xs ''datasource'') of Some s \<Rightarrow> s | None \<Rightarrow> [])\<rparr>"

subsection \<open>Starting the program\<close>

record started =
  r_args :: arguments
  r_source :: source
  r_activity :: activity
  r_level :: nat
  r_handler :: handler
  r_output :: sink
  r_record :: sink
  r_update :: "string option"
  r_xerror :: bool

datatype launch = Leaves exit | Crashes | Runs started

text \<open>
  \<^verbatim>\<open>getArgs\<close> and the beginning of the main program.  With an empty name of the log file no handler is
  defined, which raises \<^verbatim>\<open>UnboundLocalError\<close>; \<^verbatim>\<open>parser.error\<close> exits like a wrong option.
\<close>

definition semonitor :: "(string \<Rightarrow> bool) \<Rightarrow> string list \<Rightarrow> string list \<Rightarrow> launch" where
  "semonitor creatable serial_ports argv =
     (case parse_args (semonitorParser creatable) argv of
        Inl e \<Rightarrow> Leaves e
      | Inr xs \<Rightarrow>
          (let appending = isSet xs ''append''; logfile = the_text (dget xs ''logfile'') in
           case logHandler (case logfile of Some s \<Rightarrow> s | None \<Rightarrow> []) appending of
             None \<Rightarrow> Crashes
           | Some h \<Rightarrow>
               (case program serial_ports (the_ports (dget xs ''ports'')) (the_num (dget xs ''baudrate'')) (arguments_of xs) of
                  Inl msg \<Rightarrow> Leaves UsageError
                | Inr (src, act) \<Rightarrow> Runs
                    \<lparr>r_args = arguments_of xs, r_source = src, r_activity = act,
                     r_level = logLevel (nat (the_num (dget xs ''verbose''))), r_handler = h,
                     r_output = openResult (case the_text (dget xs ''outfile'') of Some s \<Rightarrow> s | None \<Rightarrow> []) appending,
                     r_record = openOutFile (the_text (dget xs ''record'')) appending,
                     r_update = the_file (dget xs ''updatefile''), r_xerror = isSet xs ''xerror''\<rparr>)))"

subsection \<open>What an accepted command line holds\<close>

text \<open>The kind of value of each destination.\<close>

definition kindOf :: "string \<Rightarrow> optval \<Rightarrow> bool" where
  "kindOf d v \<longleftrightarrow>
     (if d = ''commands'' then \<exists>cs. v = OCommands cs \<and> (cs = [] \<or> (\<exists>s. validated_commands s = Inr cs))
      else if d = ''slaves'' then \<exists>xs. v = OTexts xs \<and> (xs = [] \<or> (\<exists>s. validated_slaves s = Inr xs))
      else if d = ''ports'' then \<exists>ps. v = OPorts ps
      else if d \<in> {''baudrate'', ''verbose''} then \<exists>n. v = ONum n
      else if d \<in> {''append'', ''follow'', ''master'', ''xerror''} then \<exists>b. v = OBool b
      else if d \<in> {''logfile'', ''outfile'', ''datasource''} then \<exists>s. v = OText s
      else if d \<in> {''record'', ''type''} then v = ONone \<or> (\<exists>s. v = OText s)
      else d = ''updatefile'' \<and> (v = ONone \<or> (\<exists>s. v = OFile s ''w'')))"

lemma kindOf_simps [simp]:
  "kindOf ''commands'' v \<longleftrightarrow> (\<exists>cs. v = OCommands cs \<and> (cs = [] \<or> (\<exists>s. validated_commands s = Inr cs)))"
  "kindOf ''slaves'' v \<longleftrightarrow> (\<exists>xs. v = OTexts xs \<and> (xs = [] \<or> (\<exists>s. validated_slaves s = Inr xs)))"
  "kindOf ''ports'' v \<longleftrightarrow> (\<exists>ps. v = OPorts ps)"
  "kindOf ''baudrate'' v \<longleftrightarrow> (\<exists>n. v = ONum n)" "kindOf ''verbose'' v \<longleftrightarrow> (\<exists>n. v = ONum n)"
  "kindOf ''append'' v \<longleftrightarrow> (\<exists>b. v = OBool b)" "kindOf ''follow'' v \<longleftrightarrow> (\<exists>b. v = OBool b)"
  "kindOf ''master'' v \<longleftrightarrow> (\<exists>b. v = OBool b)" "kindOf ''xerror'' v \<longleftrightarrow> (\<exists>b. v = OBool b)"
  "kindOf ''logfile'' v \<longleftrightarrow> (\<exists>s. v = OText s)" "kindOf ''outfile'' v \<longleftrightarrow> (\<exists>s. v = OText s)"
  "kindOf ''datasource'' v \<longleftrightarrow> (\<exists>s. v = OText s)"
  "kindOf ''record'' v \<longleftrightarrow> v = ONone \<or> (\<exists>s. v = OText s)" "kindOf ''type'' v \<longleftrightarrow> v = ONone \<or> (\<exists>s. v = OText s)"
  "kindOf ''updatefile'' v \<longleftrightarrow> v = ONone \<or> (\<exists>s. v = OFile s ''w'')"
  by (simp_all add: kindOf_def)

lemma conversion_kinds [simp]:
  "textOpt s = Some v \<longleftrightarrow> v = OText s"
  "intOpt s = Some v \<longleftrightarrow> (\<exists>n. py_int 10 s = Inr n \<and> v = ONum n)"
  "choiceOpt cs s = Some v \<longleftrightarrow> s \<in> set cs \<and> v = OText s"
  "checkedOpt f mk s = Some v \<longleftrightarrow> (\<exists>x. f s = Inr x \<and> v = mk x)"
  "fileOpt ok m s = Some v \<longleftrightarrow> (s = ''-'' \<or> ok s) \<and> v = OFile s m"
  by (auto simp: textOpt_def intOpt_def choiceOpt_def checkedOpt_def fileOpt_def split: sum.splits)

lemma semonitor_kinds:
  assumes "parse_args (semonitorParser creatable) argv = Inr xs"
  shows "holds kindOf xs"
proof (rule parse_args_holds [OF assms])
  show "holds kindOf (p_defaults (semonitorParser creatable))"
    by (rule holds_list) (auto simp: semonitorParser_def semonitorDefaults_def)
  have "kindOf d v \<Longrightarrow> kindOf d (countUp v)" if "d = ''verbose''" for d v
    using that by (auto simp: countUp_def)
  then show "list_all (option_keeps kindOf) (p_options (semonitorParser creatable))"
    by (auto simp: semonitorParser_def semonitorOptions_def option_keeps_def switch_def valued_def setTrue_def)
  show "\<forall>d conv s v. p_operand (semonitorParser creatable) = Some (d, conv) \<longrightarrow> conv s = Some v \<longrightarrow> kindOf d v"
    by (simp add: semonitorParser_def)
qed

lemma validated_slaves_parse:
  assumes "validated_slaves s = Inr xs" and "x \<in> set xs"
  shows "\<exists>n. py_int 16 x = Inr (int n)"
proof -
  have "list_all (\<lambda>x. hex_digits (chomp x)) (split_on (CHR '','') s)"
    using assms(1) check_all_error [of "\<lambda>x. hex_digits (chomp x)" "split_on (CHR '','') s" "''Invalid slave ID: ''"]
    by (auto simp: validated_slaves_def)
  moreover then have "xs = split_on (CHR '','') s" using assms(1) by (simp add: validated_slaves_def check_all_ok)
  ultimately have "hexnl x" using assms(2) by (auto simp: list_all_iff hexnl_def)
  then show ?thesis using py_int_hex_digits by (auto simp: hexnl_def)
qed

lemma arguments_parse:
  assumes "holds kindOf xs"
  shows "list_all (\<lambda>c. \<exists>fn format params. commandParts c = Inr (int fn, format, map int params)) (commands (arguments_of xs))"
    and "list_all (\<lambda>s. \<exists>n. py_int 16 s = Inr (int n)) (slaves (arguments_of xs))"
proof -
  show "list_all (\<lambda>c. \<exists>fn format params. commandParts c = Inr (int fn, format, map int params)) (commands (arguments_of xs))"
  proof (cases "dget xs ''commands''")
    case (Some v)
    then obtain cs where "v = OCommands cs" "cs = [] \<or> (\<exists>s. validated_commands s = Inr cs)"
      using assms unfolding holds_def by (metis kindOf_simps(1))
    then show ?thesis using accepted_commands_parse Some by (fastforce simp: arguments_of_def list_all_iff)
  qed (simp add: arguments_of_def)
  show "list_all (\<lambda>s. \<exists>n. py_int 16 s = Inr (int n)) (slaves (arguments_of xs))"
  proof (cases "dget xs ''slaves''")
    case (Some v)
    then obtain ss where "v = OTexts ss" "ss = [] \<or> (\<exists>s. validated_slaves s = Inr ss)"
      using assms unfolding holds_def by (metis kindOf_simps(2))
    then show ?thesis using validated_slaves_parse Some by (auto simp: arguments_of_def list_all_iff)
  qed (simp add: arguments_of_def)
qed

text \<open>
  C9.  From the words of the command line to the running program, on a machine without a serial port
  that is called "network".  Of a program that starts: every command can be taken apart into a function
  code, format letters and numbers, and every slave identifier is a hexadecimal number (whether these
  numbers fit the fields of a message is not checked before they are sent, which can still raise);
  commands are sent to exactly one slave; the master runs on an RS485 line and has a slave; a program
  without commands that is not the master reads in the main thread; and the source is a serial port
  exactly for the types 2 and 4, and the network for the type n.
\<close>

theorem semonitor_starts:
  assumes "semonitor creatable serial_ports argv = Runs r" and "''network'' \<notin> set serial_ports"
  shows "list_all (\<lambda>c. \<exists>fn format params. commandParts c = Inr (int fn, format, map int params)) (commands (r_args r)) \<and>
    list_all (\<lambda>s. \<exists>n. py_int 16 s = Inr (int n)) (slaves (r_args r)) \<and>
    (case r_activity r of
       SendCommands \<Rightarrow> commands (r_args r) \<noteq> [] \<and> length (slaves (r_args r)) = 1
     | ReadThread m \<Rightarrow> m \<and> slaves (r_args r) \<noteq> [] \<and> arg_type (r_args r) = Some ''4''
     | ReadHere \<Rightarrow> commands (r_args r) = [] \<and> \<not> master (r_args r)) \<and>
    ((\<exists>b. r_source r = SerialPort (datasource (r_args r)) b) \<longleftrightarrow> arg_type (r_args r) = Some ''2'' \<or> arg_type (r_args r) = Some ''4'') \<and>
    (arg_type (r_args r) = Some ''n'' \<longrightarrow> (\<exists>ps. r_source r = NetworkSocket ps))"
proof -
  obtain xs h where run: "parse_args (semonitorParser creatable) argv = Inr xs"
      "program serial_ports (the_ports (dget xs ''ports'')) (the_num (dget xs ''baudrate'')) (arguments_of xs)
         = Inr (r_source r, r_activity r)" "r_args r = arguments_of xs"
    using assms(1) by (auto simp: semonitor_def Let_def split: sum.splits option.splits prod.splits)
  let ?ports = "the_ports (dget xs ''ports'')" and ?baud = "the_num (dget xs ''baudrate'')" and ?args = "arguments_of xs"
  obtain args' m where g: "getArgs serial_ports ?args = Inr (args', m)" "r_activity r = activity_of args' m"
      "r_source r = requested ?args ?ports ?baud"
    using run(2) getArgs_source by (fastforce simp: program_def split: sum.splits)
  note act = getArgs_activity [OF g(1)]
  have mode: "commands ?args \<noteq> [] \<longrightarrow> length (slaves ?args) = 1"
      "master ?args \<longrightarrow> arg_type ?args = Some ''4'' \<and> slaves ?args \<noteq> []"
    using g(1) by (auto simp: getArgs_def source_checks_def serial_checks_def master_checks_def command_checks_def Let_def
        split: if_splits)
  have "case r_activity r of
       SendCommands \<Rightarrow> commands ?args \<noteq> [] \<and> length (slaves ?args) = 1
     | ReadThread m \<Rightarrow> m \<and> slaves ?args \<noteq> [] \<and> arg_type ?args = Some ''4''
     | ReadHere \<Rightarrow> commands ?args = [] \<and> \<not> master ?args"
    using act mode by (auto simp: g(2) activity_of_def)
  moreover have "(\<exists>b. r_source r = SerialPort (datasource ?args) b) \<longleftrightarrow> arg_type ?args = Some ''2'' \<or> arg_type ?args = Some ''4''"
  proof -
    have "datasource ?args \<noteq> ''network'' \<or> \<not> (arg_type ?args = Some ''2'' \<or> arg_type ?args = Some ''4'')"
      using g(1) assms(2) by (auto simp: getArgs_def source_checks_def serial_checks_def Let_def split: if_splits)
    then show ?thesis by (auto simp: g(3) requested_def)
  qed
  moreover have "arg_type ?args = Some ''n'' \<longrightarrow> (\<exists>ps. r_source r = NetworkSocket ps)"
    by (simp add: g(3) requested_def)
  ultimately show ?thesis
    unfolding run(3) using arguments_parse [OF semonitor_kinds [OF run(1)]] by blast
qed

theorem semonitor_starts_witness:
  "\<exists>r. semonitor (\<lambda>f. True) [''/dev/ttyUSB0''] [''-mt4'', ''-v'', ''-s'', ''7f101409'', ''/dev/ttyUSB0''] = Runs r \<and>
     r_activity r = ReadThread True \<and> list_all (\<lambda>s. \<exists>n. py_int 16 s = Inr (int n)) (slaves (r_args r))"
proof -
  let ?argv = "[''-mt4'', ''-v'', ''-s'', ''7f101409'', ''/dev/ttyUSB0'']"
  have "validated_slaves ''7f101409'' = Inr [''7f101409'']" by code_simp
  then have "\<exists>xs. parse_args (semonitorParser (\<lambda>f. True)) ?argv = Inr xs \<and> arguments_of xs =
      \<lparr>commands = [], follow = False, arg_following = False, master = True, slaves = [''7f101409''], arg_type = Some ''4'',
       datasource = ''/dev/ttyUSB0''\<rparr> \<and> dget xs ''logfile'' = Some (OText ''stderr'')"
    by (simp add: parse_args_def option_strings_def semonitorParser_def semonitorOptions_def semonitorDefaults_def switch_def
        valued_def helpOption_def parse_optional_def partition_eq_def option_tuples_def starts_def takes_value_def
        acted_def take_action_def operand_taken_def skip_dash_def arguments_of_def setTrue_def countUp_def dget_Cons dput_def
        textOpt_def choiceOpt_def checkedOpt_def)
  then obtain r where r: "semonitor (\<lambda>f. True) [''/dev/ttyUSB0''] ?argv = Runs r" "r_activity r = ReadThread True"
    by (auto simp: semonitor_def logHandler_def program_def getArgs_def source_checks_def serial_checks_def
        master_checks_def command_checks_def activity_of_def Let_def)
  show ?thesis using semonitor_starts [OF r(1)] r by simp
qed

end
