(* ===== verification/Graphite.thy ===== *)
theory Graphite
  imports Unwrap PyFormat
begin

text \<open>
  \<^verbatim>\<open>conversion/se2graphite.py\<close> and \<^verbatim>\<open>conversion/pickle2graphite.py\<close>, which send the items of the devices as
  metrics, one by one as text or one pickled list for each line.  Both are Python 2 programs (they
  write integers as \<^verbatim>\<open>01\<close>).  The local time conversion \<^verbatim>\<open>time.mktime\<close>, the decoder \<^verbatim>\<open>json.loads\<close> and
  \<^verbatim>\<open>pickle.dumps\<close> are arguments.  A decoded dictionary lists its items in the order in which
  Python iterates over them; keys and values are ASCII.
\<close>

subsection \<open>Time stamps\<close>

text \<open>\<^verbatim>\<open>int(s)\<close> of Python 2.\<close>

definition py2_int :: "string \<Rightarrow> int res" where
  "py2_int s = (if CHR ''_'' \<in> set s then Inl ValueError else py_int 10 s)"

text \<open>\<^verbatim>\<open>(a, b, c) = v.split(sep)\<close>\<close>

definition three_parts :: "char \<Rightarrow> pyval \<Rightarrow> string list res" where
  "three_parts sep v = (case v of
       PStr s \<Rightarrow> (let ps = split_on sep s in if length ps = 3 then Inr ps else Inl ValueError)
     | _ \<Rightarrow> Inl AttributeError)"

text \<open>The parts of date and time; the epoch stands in where one of them is missing.\<close>

definition dateTimeParts :: "pydict \<Rightarrow> string list res" where
  "dateTimeParts attrs =
     (case rbind (rbind (dlookup attrs (KS ''Date'')) (three_parts (CHR ''-'')))
             (\<lambda>ymd. rbind (rbind (dlookup attrs (KS ''Time'')) (three_parts (CHR '':''))) (\<lambda>hms. Inr (ymd @ hms))) of
        Inl e \<Rightarrow> if e = KeyError then Inr [''1970'', ''1'', ''1'', ''0'', ''1'', ''1''] else Inl e
      | Inr ps \<Rightarrow> Inr ps)"

definition timeStamp :: "(int list \<Rightarrow> pyfloat res) \<Rightarrow> pydict \<Rightarrow> pyfloat res" where
  "timeStamp mktime attrs = rbind (rbind (dateTimeParts attrs) (rmap py2_int)) mktime"

subsection \<open>Metrics\<close>

type_synonym metric = "string \<times> pyfloat \<times> string"

text \<open>\<^verbatim>\<open>str(v)\<close> of Python 2 for the values that are numbers.\<close>

definition str2 :: "pyval \<Rightarrow> string" where
  "str2 v = (case v of
       PFloat x \<Rightarrow> float_str12 x
     | PInt i \<Rightarrow> int_str i
     | PBool b \<Rightarrow> (if b then ''True'' else ''False'')
     | PStr s \<Rightarrow> s
     | _ \<Rightarrow> [])"

definition skipped :: "pykey \<Rightarrow> bool" where
  "skipped k \<longleftrightarrow> k = KS ''Date'' \<or> k = KS ''Time'' \<or> k = KS ''Undeciphered_data''"

text \<open>The metric of one item, if it has one; a NaN and text that is not a number have none.\<close>

definition itemMetric :: "string \<Rightarrow> string \<Rightarrow> pyfloat \<Rightarrow> pykey \<times> pyval \<Rightarrow> metric list \<times> pyexn option" where
  "itemMetric base baseName ts kv =
     (if skipped (fst kv) then ([], None)
      else (case float_of (snd kv) of
          Inl e \<Rightarrow> ([], if is_ValueError e then None else Some e)
        | Inr x \<Rightarrow> if x = NaN then ([], None)
                   else ([(base @ baseName @ ''.'' @ key_text (fst kv), ts, str2 (snd kv))], None)))"

definition deviceMetrics ::
  "(int list \<Rightarrow> pyfloat res) \<Rightarrow> string \<Rightarrow> string \<times> pydict \<Rightarrow> metric list \<times> pyexn option" where
  "deviceMetrics mktime base dev = (case timeStamp mktime (snd dev) of
       Inl e \<Rightarrow> ([], Some e)
     | Inr ts \<Rightarrow> gen_each (itemMetric base (fst dev) ts) (snd dev))"

definition lineMetrics :: "(int list \<Rightarrow> pyfloat res) \<Rightarrow> string \<Rightarrow> pyval \<Rightarrow> metric list \<times> pyexn option" where
  "lineMetrics mktime base v = (case v of
       PDict d \<Rightarrow> (case unwrap d of (devs, e) \<Rightarrow> gen_then (gen_each (deviceMetrics mktime base) devs) ([], e))
     | _ \<Rightarrow> ([], Some AttributeError))"

subsection \<open>Sending them one by one\<close>

definition rendered :: "metric \<Rightarrow> string" where
  "rendered m = (case m of (name, ts, v) \<Rightarrow> name @ '' '' @ v @ '' '' @ float_str12 ts @ [CHR 0x0A])"

datatype outcome = Ended | Waits | Died pyexn

text \<open>
  The input is what the calls of \<^verbatim>\<open>readline\<close> give, an empty string at the end of the file.  The result
  is what has been sent, and how the script ends.
\<close>

fun graphiteMain ::
  "(int list \<Rightarrow> pyfloat res) \<Rightarrow> (string \<Rightarrow> pyval res) \<Rightarrow> string \<Rightarrow> string list \<Rightarrow> string list \<times> outcome" where
  "graphiteMain mktime loads base [] = ([], Ended)"
| "graphiteMain mktime loads base (l # ls) =
     (if l = [] then ([], Ended)
      else (case loads l of
          Inl e \<Rightarrow> ([], Died e)
        | Inr v \<Rightarrow> (case lineMetrics mktime base v of
            (ms, Some e) \<Rightarrow> (map rendered ms, Died e)
          | (ms, None) \<Rightarrow> (case graphiteMain mktime loads base ls of (sent, r) \<Rightarrow> (map rendered ms @ sent, r)))))"

subsection \<open>Sending them as pickled lists\<close>

text \<open>\<open>None\<close>: following, and still waiting when the input given ends.\<close>

fun getJsonStr :: "bool \<Rightarrow> string list \<Rightarrow> (string \<times> string list) option" where
  "getJsonStr keepOn [] = (if keepOn then None else Some ([], []))"
| "getJsonStr keepOn (s # rest) =
     (if s = [] \<and> keepOn then getJsonStr keepOn rest else Some (s, rest))"

definition newPickle2Graphite :: "(int list \<Rightarrow> pyfloat res) \<Rightarrow> string \<Rightarrow> pyval \<Rightarrow> metric list res" where
  "newPickle2Graphite mktime base v = (case lineMetrics mktime base v of (ms, Some e) \<Rightarrow> Inl e | (ms, None) \<Rightarrow> Inr ms)"

text \<open>The four byte length in network order before the payload.\<close>

definition packet :: "(metric list \<Rightarrow> bytes) \<Rightarrow> metric list \<Rightarrow> bytes res" where
  "packet pickle ms = (let payload = pickle ms in
     if length payload < 2 ^ 32 then Inr (rev (le_bytes 4 (int (length payload))) @ payload) else Inl StructError)"

lemma getJsonStr_shorter: "getJsonStr keepOn ls = Some (s, rest) \<Longrightarrow> s \<noteq> [] \<Longrightarrow> length rest < length ls"
  by (induction keepOn ls rule: getJsonStr.induct) (auto split: if_splits)

text \<open>A line that raises \<^verbatim>\<open>ValueError\<close> is logged and skipped.\<close>

function pickleMain ::
  "(int list \<Rightarrow> pyfloat res) \<Rightarrow> (string \<Rightarrow> pyval res) \<Rightarrow> (metric list \<Rightarrow> bytes) \<Rightarrow> string \<Rightarrow> bool \<Rightarrow> string list \<Rightarrow>
     bytes list \<times> outcome" where
  "pickleMain mktime loads pickle base keepOn ls =
     (case getJsonStr keepOn ls of
        None \<Rightarrow> ([], Waits)
      | Some (l, rest) \<Rightarrow>
          if l = [] then ([], Ended)
          else (case rbind (rbind (loads l) (newPickle2Graphite mktime base)) (packet pickle) of
              Inl e \<Rightarrow> if is_ValueError e then pickleMain mktime loads pickle base keepOn rest else ([], Died e)
            | Inr p \<Rightarrow> (case pickleMain mktime loads pickle base keepOn rest of (ps, r) \<Rightarrow> (p # ps, r))))"
  by pat_completeness auto
termination
  by (relation "measure (\<lambda>(_, _, _, _, _, ls). length ls)") (auto dest: getJsonStr_shorter)

declare pickleMain.simps [simp del]

subsection \<open>Both scripts send the same\<close>

lemma pickleMain_Cons:
  "l \<noteq> [] \<Longrightarrow> pickleMain mktime loads pickle base False (l # ls) =
     (case rbind (rbind (loads l) (newPickle2Graphite mktime base)) (packet pickle) of
        Inl e \<Rightarrow> if is_ValueError e then pickleMain mktime loads pickle base False ls else ([], Died e)
      | Inr p \<Rightarrow> (case pickleMain mktime loads pickle base False ls of (ps, r) \<Rightarrow> (p # ps, r)))"
  by (subst pickleMain.simps) simp

lemma pickleMain_end [simp]:
  "pickleMain mktime loads pickle base False [] = ([], Ended)"
  "pickleMain mktime loads pickle base False ([] # ls) = ([], Ended)"
  by (simp_all add: pickleMain.simps)

text \<open>The pickled lists of all lines are short enough for their length to fit into four bytes.\<close>

definition fitting ::
  "(int list \<Rightarrow> pyfloat res) \<Rightarrow> (string \<Rightarrow> pyval res) \<Rightarrow> (metric list \<Rightarrow> bytes) \<Rightarrow> string \<Rightarrow> string list \<Rightarrow> bool" where
  "fitting mktime loads pickle base ls \<longleftrightarrow>
     list_all (\<lambda>l. case loads l of Inl e \<Rightarrow> True | Inr v \<Rightarrow> length (pickle (fst (lineMetrics mktime base v))) < 2 ^ 32) ls"

lemma graphiteMain_pickles:
  "fitting mktime loads pickle base ls \<Longrightarrow> graphiteMain mktime loads base ls = (sent, Ended) \<Longrightarrow>
    \<exists>mss. pickleMain mktime loads pickle base False ls = (map (\<lambda>ms. projr (packet pickle ms)) mss, Ended) \<and>
      sent = map rendered (concat mss)"
proof (induction ls arbitrary: sent)
  case (Cons l ls)
  show ?case
  proof (cases "l = []")
    case False
    then obtain v where v: "loads l = Inr v" using Cons.prems(2) by (cases "loads l") auto
    then obtain ms where ms: "lineMetrics mktime base v = (ms, None)"
      using Cons.prems False by (cases "lineMetrics mktime base v"; cases "snd (lineMetrics mktime base v)") auto
    obtain sent' where rest: "graphiteMain mktime loads base ls = (sent', Ended)" "sent = map rendered ms @ sent'"
      using Cons.prems(2) False v ms by (cases "graphiteMain mktime loads base ls") auto
    obtain mss where mss: "pickleMain mktime loads pickle base False ls = (map (\<lambda>ms. projr (packet pickle ms)) mss, Ended)"
        "sent' = map rendered (concat mss)"
      using Cons.IH [OF _ rest(1)] Cons.prems(1) by (auto simp: fitting_def)
    have "packet pickle ms = Inr (projr (packet pickle ms))"
      using Cons.prems(1) v ms by (simp add: fitting_def packet_def Let_def)
    then show ?thesis
      using False v ms mss rest(2)
      by (intro exI [of _ "ms # mss"]) (auto simp: pickleMain_Cons newPickle2Graphite_def simp del: projr_def split: sum.split)
  qed (use Cons.prems in simp)
qed simp

text \<open>
  Both Graphite scripts send the same metrics: when the one that sends lines of text reaches the
  end of its input, the one that sends pickled lists reaches it too and sends one list for each line
  of the input, and the lists hold, in the same order, exactly the metrics sent as text.
\<close>

theorem graphite_scripts_agree:
  assumes "fitting mktime loads pickle base ls"
    and "graphiteMain mktime loads base ls = (sent, Ended)"
  shows "\<exists>mss. pickleMain mktime loads pickle base False ls = (map (\<lambda>ms. projr (packet pickle ms)) mss, Ended) \<and>
    sent = map rendered (concat mss)"
  using assms by (rule graphiteMain_pickles)

subsection \<open>The metrics of a line\<close>

definition has_metric :: "pykey \<times> pyval \<Rightarrow> bool" where
  "has_metric kv \<longleftrightarrow> \<not> skipped (fst kv) \<and> (case float_of (snd kv) of Inr x \<Rightarrow> x \<noteq> NaN | Inl e \<Rightarrow> False)"

text \<open>Text and numbers: neither \<^verbatim>\<open>None\<close> nor a dictionary, and no integer beyond the range of floats.\<close>

definition convertible_item :: "pykey \<times> pyval \<Rightarrow> bool" where
  "convertible_item kv \<longleftrightarrow> skipped (fst kv) \<or> (case float_of (snd kv) of Inr x \<Rightarrow> True | Inl e \<Rightarrow> is_ValueError e)"

lemma itemMetric_ok:
  "convertible_item kv \<Longrightarrow> itemMetric base baseName ts kv =
     (if has_metric kv then [(base @ baseName @ ''.'' @ key_text (fst kv), ts, str2 (snd kv))] else [], None)"
  by (auto simp: convertible_item_def has_metric_def itemMetric_def split: sum.split)

lemma concat_map_if: "concat (map (\<lambda>x. if P x then [f x] else []) xs) = map f (filter P xs)"
  by (induction xs) auto

lemma deviceMetrics_ok:
  assumes "timeStamp mktime attrs = Inr ts" and "\<forall>kv \<in> set attrs. convertible_item kv"
  shows "deviceMetrics mktime base (name, attrs) =
    (map (\<lambda>(k, v). (base @ name @ ''.'' @ key_text k, ts, str2 v)) (filter has_metric attrs), None)"
  using gen_each_ok [of attrs "itemMetric base name ts"] assms
  by (simp add: deviceMetrics_def itemMetric_ok concat_map_if case_prod_beta)

text \<open>
  The devices before the first one whose date and time cannot be converted, which ends the script, and
  the exception it raises.
\<close>

definition timed :: "(int list \<Rightarrow> pyfloat res) \<Rightarrow> pykey list \<times> pydict \<Rightarrow> bool" where
  "timed mktime dev \<longleftrightarrow> (case timeStamp mktime (snd dev) of Inl e \<Rightarrow> False | Inr ts \<Rightarrow> True)"

definition untimed_exn :: "(int list \<Rightarrow> pyfloat res) \<Rightarrow> (pykey list \<times> pydict) list \<Rightarrow> pyexn option" where
  "untimed_exn mktime devs = (case dropWhile (timed mktime) devs of
       [] \<Rightarrow> None
     | dev # _ \<Rightarrow> Some (projl (timeStamp mktime (snd dev))))"

definition device_metrics :: "(int list \<Rightarrow> pyfloat res) \<Rightarrow> string \<Rightarrow> pykey list \<times> pydict \<Rightarrow> metric list" where
  "device_metrics mktime base dev = (case dev of (ks, it) \<Rightarrow>
     map (\<lambda>(k, v). (base @ dotted (map nice ks) @ ''.'' @ key_text k, projr (timeStamp mktime it), str2 v))
       (filter has_metric it))"

lemma deviceMetrics_each:
  assumes "\<forall>(ks, it) \<in> set devs. \<forall>kv \<in> set it. convertible_item kv"
  shows "gen_each (deviceMetrics mktime base) (map (\<lambda>(ks, it). (dotted (map nice ks), it)) devs) =
    (concat (map (device_metrics mktime base) (takeWhile (timed mktime) devs)), untimed_exn mktime devs)"
  using assms
proof (induction devs)
  case Nil
  show ?case by (simp add: untimed_exn_def)
next
  case (Cons dev devs)
  obtain ks it where dev: "dev = (ks, it)" by (cases dev)
  show ?case
  proof (cases "timeStamp mktime it")
    case (Inl e)
    then show ?thesis by (simp add: dev deviceMetrics_def timed_def untimed_exn_def)
  next
    case (Inr ts)
    have "\<forall>kv \<in> set it. convertible_item kv" using Cons.prems by (simp add: dev)
    then show ?thesis
      using Cons deviceMetrics_ok [OF Inr, of base "dotted (map nice ks)"] Inr
      by (simp add: dev timed_def untimed_exn_def device_metrics_def)
  qed
qed

lemma lineMetrics_devices:
  assumes "devices_only d" and "\<forall>(ks, it) \<in> set (leaves d). \<forall>k \<in> set ks. steady_key k"
    and "\<forall>(ks, it) \<in> set (leaves d). \<forall>kv \<in> set it. convertible_item kv"
  shows "lineMetrics mktime base (PDict d) =
    (concat (map (device_metrics mktime base) (takeWhile (timed mktime) (leaves d))), untimed_exn mktime (leaves d))"
proof -
  have "unwrap d = (map (\<lambda>(ks, it). (dotted (map nice ks), it)) (leaves d), None)"
    by (rule unwrap_leaves [OF assms(1)]) (use assms(2) in auto)
  then show ?thesis
    using deviceMetrics_each [OF assms(3)] by (cases "untimed_exn mktime (leaves d)") (simp_all add: lineMetrics_def)
qed

text \<open>
  C38.  For a line of performance data that holds devices only, whose keys keep their text when the names
  are joined and whose items \<^verbatim>\<open>float()\<close> accepts or refuses with \<^verbatim>\<open>ValueError\<close> (no null, no nested object, no
  integer beyond the range of floats), the metrics are, in the order of the data, the items that \<^verbatim>\<open>float()\<close>
  accepts of its devices, under the dotted name of the device and the name of the item, with the value as
  Python 2 prints it and the time stamp of the device.  Left out are the items Date, Time and
  Undeciphered_data, the last even when it is a number, text that is not a number, and NaNs.  A device
  whose date and time cannot be converted (such as the date "invalid" that the monitor may write) ends
  the line with that exception: it and the devices after it have no metrics.
\<close>

theorem graphite_metrics:
  assumes "devices_only d" and "\<forall>(ks, it) \<in> set (leaves d). \<forall>k \<in> set ks. steady_key k"
    and "\<forall>(ks, it) \<in> set (leaves d). \<forall>kv \<in> set it. convertible_item kv"
  shows "lineMetrics mktime base (PDict d) =
    (concat (map (device_metrics mktime base) (takeWhile (timed mktime) (leaves d))), untimed_exn mktime (leaves d))"
  using assms by (rule lineMetrics_devices)

subsection \<open>An example\<close>

definition graphite_line :: pydict where
  "graphite_line =
     [(KS ''inverters'', PDict [(KS ''7E 1'', PDict
        [(KS ''Date'', PStr ''2017-10-25''), (KS ''Time'', PStr ''15:00:00''), (KS ''Vac'', PInt 230),
         (KS ''Pac'', PFloat NaN), (KS ''Eday'', PInt 7), (KS ''ID'', PStr ''x'')])])]"

definition sample_mktime :: "int list \<Rightarrow> pyfloat res" where
  "sample_mktime ps = Inr (Fin (rat_of_int (sum_list ps)))"

definition sample_loads :: "string \<Rightarrow> pyval res" where
  "sample_loads l = (if l = ''bad'' then Inl ValueError else Inr (PDict graphite_line))"

lemma graphite_line_parts:
  "leaves graphite_line = [([KS ''inverters'', KS ''7E 1''],
     [(KS ''Date'', PStr ''2017-10-25''), (KS ''Time'', PStr ''15:00:00''), (KS ''Vac'', PInt 230),
      (KS ''Pac'', PFloat NaN), (KS ''Eday'', PInt 7), (KS ''ID'', PStr ''x'')])]"
  "devices_only graphite_line"
  by (simp_all add: graphite_line_def has_date_def dget_Cons)

lemma graphite_line_time:
  "timeStamp sample_mktime [(KS ''Date'', PStr ''2017-10-25''), (KS ''Time'', PStr ''15:00:00''), (KS ''Vac'', PInt 230),
      (KS ''Pac'', PFloat NaN), (KS ''Eday'', PInt 7), (KS ''ID'', PStr ''x'')] = Inr (Fin 2067)"
proof -
  have "rbind (dateTimeParts [(KS ''Date'', PStr ''2017-10-25''), (KS ''Time'', PStr ''15:00:00''), (KS ''Vac'', PInt 230),
      (KS ''Pac'', PFloat NaN), (KS ''Eday'', PInt 7), (KS ''ID'', PStr ''x'')]) (rmap py2_int) = Inr [2017, 10, 25, 15, 0, 0]"
    by code_simp
  then show ?thesis by (simp add: timeStamp_def sample_mktime_def)
qed

lemma graphite_line_metrics_aux:
  "to_float 230 = Inr (Fin 230)" "to_float 7 = Inr (Fin 7)" "read_float ''x'' = Inl ValueError"
  "int_str 230 = ''230''" "int_str 7 = ''7''"
  "steady_key (KS ''inverters'')" "steady_key (KS ''7E 1'')"
proof -
  show "to_float 230 = Inr (Fin 230)" "to_float 7 = Inr (Fin 7)"
    using fl_of_int [of 230] fl_of_int [of 7] by (simp_all add: to_float_def float_of_int_def)
  show "read_float ''x'' = Inl ValueError" "int_str 230 = ''230''" "int_str 7 = ''7''" by code_simp+
qed (simp_all add: steady_key_def nice_def nice_text_def key_text_def remove_char_def replace_char_def)

lemma graphite_line_name: "dotted [nice (KS ''inverters''), nice (KS ''7E 1'')] = ''inverters.7E_1''"
  by (simp add: dotted_def nice_def nice_text_def key_text_def remove_char_def replace_char_def)

lemmas graphite_line_simps = graphite_line_parts graphite_line_time convertible_item_def has_metric_def
  skipped_def is_ValueError_def str2_def graphite_line_metrics_aux graphite_line_name

lemma graphite_line_metrics: "snd (lineMetrics sample_mktime ''home.'' (PDict graphite_line)) = None"
  by (subst lineMetrics_devices) (simp_all add: graphite_line_simps timed_def untimed_exn_def)

theorem graphite_metrics_witness:
  "lineMetrics sample_mktime ''home.'' (PDict graphite_line) =
     ([(''home.inverters.7E_1.Vac'', Fin 2067, ''230''), (''home.inverters.7E_1.Eday'', Fin 2067, ''7'')], None)"
  by (subst graphite_metrics)
     (simp_all add: graphite_line_simps key_text_def timed_def untimed_exn_def device_metrics_def)

theorem graphite_scripts_agree_witness:
  "\<exists>mss. pickleMain sample_mktime sample_loads (\<lambda>ms. [1]) ''home.'' False [''good''] =
       (map (\<lambda>ms. projr (packet (\<lambda>ms. [1]) ms)) mss, Ended) \<and>
     fst (graphiteMain sample_mktime sample_loads ''home.'' [''good'']) = map rendered (concat mss)"
proof -
  obtain ms where "lineMetrics sample_mktime ''home.'' (PDict graphite_line) = (ms, None)"
    using graphite_line_metrics by (cases "lineMetrics sample_mktime ''home.'' (PDict graphite_line)") auto
  then have "graphiteMain sample_mktime sample_loads ''home.'' [''good''] = (map rendered ms, Ended)"
    by (simp add: sample_loads_def)
  moreover have "fitting sample_mktime sample_loads (\<lambda>ms. [1]) ''home.'' [''good'']"
    by (simp add: fitting_def split: sum.split)
  ultimately show ?thesis
    using graphite_scripts_agree [of sample_mktime sample_loads "\<lambda>ms. [1]" "''home.''" "[''good'']"] by simp
qed

end
