(* ===== verification/StateFile.thy ===== *)
theory StateFile
  imports PyNum
begin

text \<open>
  \<^verbatim>\<open>conversion/se2state.py\<close>: the current values of all inverters and optimizers with their sums and
  averages, updated by every line of performance data and written to the state file.
\<close>

definition statsKey :: pykey where "statsKey = KS ''stats''"
definition inverters :: pykey where "inverters = KS ''inverters''"
definition optimizers :: pykey where "optimizers = KS ''optimizers''"

subsection \<open>Sums and averages\<close>

definition dict_keys :: "pyval \<Rightarrow> pykey list res" where
  "dict_keys v = (case v of PDict d \<Rightarrow> Inr (dkeys d) | _ \<Rightarrow> Inl AttributeError)"

definition addItem :: "pyval \<Rightarrow> pykey \<Rightarrow> pykey \<Rightarrow> pyval \<Rightarrow> pyval res" where
  "addItem itemDict itemAttr item itemSum =
     (if item \<noteq> statsKey
      then rbind (getitem itemDict item) (\<lambda>d. rbind (getitem d itemAttr) (py_add itemSum))
      else Inr itemSum)"

definition sumItems :: "pyval \<Rightarrow> pykey \<Rightarrow> pyval res" where
  "sumItems itemDict itemAttr =
     rbind (dict_keys itemDict) (\<lambda>ks. for_each (addItem itemDict itemAttr) ks (PInt 0))"

definition avgItems :: "pyval \<Rightarrow> pykey \<Rightarrow> pyval res" where
  "avgItems itemDict itemAttr = rbind (sumItems itemDict itemAttr) (\<lambda>s.
     rbind (dict_keys itemDict) (\<lambda>ks. let n = int (length ks) - 1 in
       if n = 0 then Inr (PInt 0) else py_div_int s n))"

subsection \<open>One line of input\<close>

text \<open>Lines 74 to 80: the new values replace the old ones, and the power of each optimizer.\<close>

definition updateValues :: "pykey \<Rightarrow> pyval \<Rightarrow> pyval \<Rightarrow> pyval res" where
  "updateValues grp inDict st = inside grp (\<lambda>v. py_update v (getitem inDict grp)) st"

definition setPower :: "pykey \<Rightarrow> pyval \<Rightarrow> pyval res" where
  "setPower optimizer opts =
     (if optimizer \<noteq> statsKey
      then rbind (getitem opts optimizer) (\<lambda>d.
        rbind (getitem d (KS ''Vmod'')) (\<lambda>v. rbind (getitem d (KS ''Imod'')) (\<lambda>i.
        rbind (py_mul v i) (\<lambda>p. inside optimizer (setitem (KS ''Pdc'') p) opts))))
      else Inr opts)"

definition optimizerPower :: "pyval \<Rightarrow> pyval res" where
  "optimizerPower opts = rbind (dict_keys opts) (\<lambda>ks. for_each setPower ks opts)"

text \<open>Lines 81 to 91: the statistics.\<close>

definition setStat :: "pykey \<Rightarrow> string \<Rightarrow> pyval res \<Rightarrow> pyval \<Rightarrow> pyval res" where
  "setStat grp name r st = rbind r (\<lambda>x. inside grp (inside statsKey (setitem (KS name) x)) st)"

definition statOf :: "(pyval \<Rightarrow> pykey \<Rightarrow> pyval res) \<Rightarrow> pykey \<Rightarrow> string \<Rightarrow> pyval \<Rightarrow> pyval res" where
  "statOf f grp name st = setStat grp name (rbind (getitem st grp) (\<lambda>d. f d (KS name))) st"

definition statEday :: "pyval \<Rightarrow> pyval res" where
  "statEday st =
     rbind (rbind (getitem st inverters) (\<lambda>d. sumItems d (KS ''Eday''))) (\<lambda>eday.
     rbind (rbind (rbind (getitem st inverters) (\<lambda>d. getitem d statsKey)) (\<lambda>s. getitem s (KS ''Eday''))) (\<lambda>old.
     rbind (py_gt eday old) (\<lambda>gt.
       if gt then setStat inverters ''Eday'' (Inr eday) st else Inr st)))"

definition computeStats :: "pyval \<Rightarrow> pyval res" where
  "computeStats st =
     rbind (statOf avgItems inverters ''Vac'' st) (\<lambda>st.
     rbind (statOf sumItems inverters ''Pac'' st) (\<lambda>st.
     rbind (statOf sumItems inverters ''Eac'' st) (\<lambda>st.
     rbind (statEday st) (\<lambda>st.
     rbind (statOf sumItems inverters ''Etot'' st) (\<lambda>st.
     rbind (statOf avgItems inverters ''Temp'' st) (\<lambda>st.
     statOf avgItems optimizers ''Temp'' st))))))"

text \<open>Lines 92 to 100: an event sets current energy and power to zero, the statistics included.\<close>

definition zero :: pyval where "zero = PFloat (Fin 0)"

definition zeroDevices :: "string list \<Rightarrow> pyval \<Rightarrow> pyval res" where
  "zeroDevices names devs = rbind (dict_keys devs) (\<lambda>ks.
     for_each (\<lambda>k. inside k (for_each (\<lambda>n. setitem (KS n) zero) names)) ks devs)"

definition py_len :: "pyval \<Rightarrow> nat res" where
  "py_len v = (case v of PDict d \<Rightarrow> Inr (length d) | PStr s \<Rightarrow> Inr (length s) | PBytes b \<Rightarrow> Inr (length b)
                       | _ \<Rightarrow> Inl TypeError)"

definition zeroOnEvent :: "pyval \<Rightarrow> pyval \<Rightarrow> pyval res" where
  "zeroOnEvent inDict st = rbind (rbind (getitem inDict (KS ''events'')) py_len) (\<lambda>n.
     if n \<noteq> 0
     then rbind (inside inverters (zeroDevices [''Eac'', ''Pac'']) st)
            (inside optimizers (zeroDevices [''Vmod'', ''Vopt'', ''Imod'']))
     else Inr st)"

definition stateStep :: "pyval \<Rightarrow> pyval \<Rightarrow> pyval res" where
  "stateStep inDict st =
     rbind (updateValues inverters inDict st) (\<lambda>st.
     rbind (updateValues optimizers inDict st) (\<lambda>st.
     rbind (inside optimizers optimizerPower st) (\<lambda>st.
     rbind (computeStats st) (zeroOnEvent inDict))))"

text \<open>
  The loop: the states it writes to the state file and the exception that ends it.  The decoder is
  an argument.  With the input used up the script waits for more.
\<close>

fun stateLoop :: "(string \<Rightarrow> pyval res) \<Rightarrow> string list \<Rightarrow> pyval \<Rightarrow> pyval list \<times> pyexn option" where
  "stateLoop loads [] st = ([], None)"
| "stateLoop loads (l # ls) st =
     (case rbind (loads l) (\<lambda>inDict. stateStep inDict st) of
        Inl e \<Rightarrow> ([], Some e)
      | Inr st' \<Rightarrow> (case stateLoop loads ls st' of (sts, e) \<Rightarrow> (st' # sts, e)))"

text \<open>The state \<^verbatim>\<open>-i\<close> starts with.\<close>

definition zeroStats :: pydict where
  "zeroStats = map (\<lambda>n. (KS n, zero)) [''Vac'', ''Pac'', ''Eac'', ''Eday'', ''Etot'', ''Temp'']"

definition initialState :: "string list \<Rightarrow> pyval" where
  "initialState ids = PDict
     [(inverters, PDict [(statsKey, PDict (dupdate (map (\<lambda>i. (KS i, PDict zeroStats)) ids) zeroStats))]),
      (optimizers, PDict [(statsKey, PDict [(KS ''Temp'', zero)])])]"

end
