(* ===== verification/StateProps.thy ===== *)
theory StateProps
  imports StateFile Merging
begin

text \<open>
  The state file: its statistics agree with the devices it lists, the day's energy never falls, and
  the script survives every line of well-formed input.
\<close>

named_theorems state_simps \<open>changes of nested dictionaries\<close>

subsection \<open>Changes in place\<close>

lemma dlookup_eq_Inr [state_simps]: "dlookup d k = Inr x \<longleftrightarrow> dget d k = Some x"
  by (simp add: dlookup_def split: option.split)

lemma getitem_eq_Inr [state_simps]: "getitem v k = Inr x \<longleftrightarrow> (\<exists>d. v = PDict d \<and> dget d k = Some x)"
  by (cases v) (auto simp: getitem_def dlookup_def split: option.split)

lemma setitem_eq_Inr [state_simps]: "setitem k x v = Inr v' \<longleftrightarrow> (\<exists>d. v = PDict d \<and> v' = PDict (dput k x d))"
  by (cases v) (auto simp: setitem_def)

lemma inside_eq_Inr [state_simps]:
  "inside k f v = Inr v' \<longleftrightarrow>
     (\<exists>d x y. v = PDict d \<and> dget d k = Some x \<and> f x = Inr y \<and> v' = PDict (dput k y d))"
  by (auto simp: inside_def res_simps state_simps)

lemma setStat_eq_Inr [state_simps]:
  "setStat grp name r st = Inr st' \<longleftrightarrow>
     (\<exists>d e s x. r = Inr x \<and> st = PDict d \<and> dget d grp = Some (PDict e) \<and> dget e statsKey = Some (PDict s) \<and>
        st' = PDict (dput grp (PDict (dput statsKey (PDict (dput (KS name) x s)) e)) d))"
  by (auto simp: setStat_def res_simps state_simps)

lemma py_update_eq_Inr [state_simps]:
  "py_update v arg = Inr v' \<longleftrightarrow>
     (\<exists>d. v = PDict d \<and> (arg = Inr (PStr []) \<and> v' = v \<or> (\<exists>e. arg = Inr (PDict e) \<and> v' = PDict (dupdate e d))))"
proof (cases "\<exists>d w. v = PDict d \<and> arg = Inr w")
  case True
  then obtain d w where "v = PDict d" "arg = Inr w" by blast
  then show ?thesis by (cases w) (auto simp: py_update_def)
next
  case False
  then show ?thesis by (cases v; cases arg) (auto simp: py_update_def)
qed

lemma dict_keys_eq_Inr [state_simps]: "dict_keys v = Inr ks \<longleftrightarrow> (\<exists>d. v = PDict d \<and> ks = dkeys d)"
  by (cases v) (auto simp: dict_keys_def)

lemma keys_differ [simp]:
  "inverters \<noteq> optimizers" "optimizers \<noteq> inverters" "statsKey \<noteq> inverters" "statsKey \<noteq> optimizers"
  by (simp_all add: inverters_def optimizers_def statsKey_def)

subsection \<open>The energy of the day\<close>

definition edayPath :: "pykey list" where
  "edayPath = [inverters, statsKey, KS ''Eday'']"

text \<open>\<open>grows v w\<close>: \<open>w\<close> is \<open>v\<close>, or a greater number.\<close>

definition grows :: "pyval option \<Rightarrow> pyval option \<Rightarrow> bool" where
  "grows v w \<longleftrightarrow> v = w \<or>
     (\<exists>a b x y. v = Some a \<and> w = Some b \<and> num_of a = Some x \<and> num_of b = Some y \<and> x < y)"

lemma less_pyfloat_trans: "x < y \<Longrightarrow> y < z \<Longrightarrow> x < (z :: pyfloat)"
  by (auto simp: less_pyfloat_def)

lemma grows_refl [simp]: "grows v v"
  by (simp add: grows_def)

lemma grows_trans: "grows u v \<Longrightarrow> grows v w \<Longrightarrow> grows u w"
  unfolding grows_def by (metis less_pyfloat_trans option.inject)

lemma setStat_eday:
  "setStat grp name r st = Inr st' \<Longrightarrow> (grp, name) \<noteq> (inverters, ''Eday'') \<Longrightarrow>
     path_get edayPath st' = path_get edayPath st"
  by (auto simp: state_simps edayPath_def)

lemma statOf_eday:
  "statOf f grp name st = Inr st' \<Longrightarrow> (grp, name) \<noteq> (inverters, ''Eday'') \<Longrightarrow>
     path_get edayPath st' = path_get edayPath st"
  unfolding statOf_def by (rule setStat_eday)

lemma statEday_grows: "statEday st = Inr st' \<Longrightarrow> grows (path_get edayPath st) (path_get edayPath st')"
  by (auto simp: statEday_def res_simps state_simps py_gt_def edayPath_def grows_def
      split: if_splits option.splits)

lemma computeStats_grows:
  assumes "computeStats st = Inr st'"
  shows "grows (path_get edayPath st) (path_get edayPath st')"
proof -
  obtain s1 s2 s3 s4 s5 s6 where run:
    "statOf avgItems inverters ''Vac'' st = Inr s1" "statOf sumItems inverters ''Pac'' s1 = Inr s2"
    "statOf sumItems inverters ''Eac'' s2 = Inr s3" "statEday s3 = Inr s4"
    "statOf sumItems inverters ''Etot'' s4 = Inr s5" "statOf avgItems inverters ''Temp'' s5 = Inr s6"
    "statOf avgItems optimizers ''Temp'' s6 = Inr st'"
    using assms unfolding computeStats_def rbind_eq_Inr_iff by blast
  show ?thesis
    using statEday_grows [OF run(4)] run(1-3,5-7) [THEN statOf_eday] by simp
qed

lemma dget_dupdate_other: "dget e k = None \<Longrightarrow> dget (dupdate e d) k = dget d k"
proof -
  assume "dget e k = None"
  then have "map_of (rev e) k = None" by (simp add: dget_def map_of_eq_None_iff)
  then show ?thesis by (simp add: dget_dupdate)
qed

lemma updateValues_eday:
  assumes "updateValues grp inDict st = Inr st'" and "path_get [inverters, statsKey] inDict = None"
  shows "path_get edayPath st' = path_get edayPath st"
proof -
  obtain d v v' where d: "st = PDict d" "dget d grp = Some v" "st' = PDict (dput grp v' d)"
    and v': "py_update v (getitem inDict grp) = Inr v'"
    using assms(1) unfolding updateValues_def inside_eq_Inr by blast
  have "path_get [statsKey, KS ''Eday''] v' = path_get [statsKey, KS ''Eday''] v" if "grp = inverters"
    using v' assms(2) that
    by (auto simp: state_simps dget_dupdate_other split: option.splits)
  then show ?thesis using d by (cases "grp = inverters") (auto simp: edayPath_def)
qed

lemma setPower_eday:
  "inside optimizers optimizerPower st = Inr st' \<Longrightarrow> path_get edayPath st' = path_get edayPath st"
  by (auto simp: state_simps edayPath_def)

lemma zeroing_stats:
  assumes "for_each (\<lambda>k. inside k (for_each (\<lambda>n. setitem (KS n) zero) names)) ks devs = Inr devs'"
    and "''Eday'' \<notin> set names"
  shows "path_get [statsKey, KS ''Eday''] devs' = path_get [statsKey, KS ''Eday''] devs"
proof (rule for_each_invariant [OF _ refl assms(1)])
  fix k s s'
  assume s: "path_get [statsKey, KS ''Eday''] s = path_get [statsKey, KS ''Eday''] devs"
    and "inside k (for_each (\<lambda>n. setitem (KS n) zero) names) s = Inr s'"
  then obtain d x y where run: "s = PDict d" "dget d k = Some x"
      "for_each (\<lambda>n. setitem (KS n) zero) names x = Inr y" "s' = PDict (dput k y d)"
    by (auto simp: state_simps)
  have "path_get [KS ''Eday''] y = path_get [KS ''Eday''] x"
    by (rule for_each_invariant [OF _ refl run(3)]) (use assms(2) in \<open>auto simp: state_simps\<close>)
  then show "path_get [statsKey, KS ''Eday''] s' = path_get [statsKey, KS ''Eday''] devs"
    using s run by auto
qed

lemma zeroOnEvent_eday:
  assumes "zeroOnEvent inDict st = Inr st'"
  shows "path_get edayPath st' = path_get edayPath st"
proof -
  have devs: "path_get [statsKey, KS ''Eday''] v' = path_get [statsKey, KS ''Eday''] v"
    if "zeroDevices [''Eac'', ''Pac''] v = Inr v'" for v v'
    using that by (auto simp: zeroDevices_def res_simps dest!: zeroing_stats)
  show ?thesis
    using assms devs by (fastforce simp: zeroOnEvent_def res_simps state_simps edayPath_def split: if_splits)
qed

lemma stateStep_grows:
  assumes "stateStep inDict st = Inr st'" and "path_get [inverters, statsKey] inDict = None"
  shows "grows (path_get edayPath st) (path_get edayPath st')"
proof -
  obtain s1 s2 s3 s4 where run: "updateValues inverters inDict st = Inr s1"
    "updateValues optimizers inDict s1 = Inr s2" "inside optimizers optimizerPower s2 = Inr s3"
    "computeStats s3 = Inr s4" "zeroOnEvent inDict s4 = Inr st'"
    using assms(1) unfolding stateStep_def rbind_eq_Inr_iff by blast
  show ?thesis
    using computeStats_grows [OF run(4)] updateValues_eday [OF run(1) assms(2)]
      updateValues_eday [OF run(2) assms(2)] setPower_eday [OF run(3)] zeroOnEvent_eday [OF run(5)] by simp
qed

lemma stateLoop_sorted:
  assumes "\<forall>l \<in> set ls. \<forall>v. loads l = Inr v \<longrightarrow> path_get [inverters, statsKey] v = None"
  shows "sorted_wrt grows (map (path_get edayPath) (st # fst (stateLoop loads ls st)))"
  using assms
proof (induction ls arbitrary: st)
  case (Cons l ls)
  show ?case
  proof (cases "rbind (loads l) (\<lambda>inDict. stateStep inDict st)")
    case (Inr st')
    then obtain v where v: "loads l = Inr v" "stateStep v st = Inr st'" by (auto simp: res_simps)
    have "grows (path_get edayPath st) (path_get edayPath st')"
      using stateStep_grows [OF v(2)] Cons.prems v(1) by simp
    moreover have "sorted_wrt grows (map (path_get edayPath) (st' # fst (stateLoop loads ls st')))"
      using Cons.IH Cons.prems by simp
    ultimately show ?thesis
      using Inr grows_trans by (fastforce split: prod.split)
  qed simp
qed simp

text \<open>
  C32.  The day's energy in the state file never falls: from one written state to every later one it
  stays, or becomes a greater number, as long as the input has no entry \<open>stats\<close> among the inverters.
\<close>

theorem eday_never_falls:
  assumes "\<forall>l \<in> set ls. \<forall>v. loads l = Inr v \<longrightarrow> path_get [inverters, statsKey] v = None"
  shows "sorted_wrt grows (map (path_get edayPath) (st # fst (stateLoop loads ls st)))"
  using assms by (rule stateLoop_sorted)

subsection \<open>Statistics and devices agree\<close>

definition same_devices :: "pydict \<Rightarrow> pydict \<Rightarrow> bool" where
  "same_devices d d' \<longleftrightarrow> dkeys d = dkeys d' \<and> (\<forall>k. k \<noteq> statsKey \<longrightarrow> dget d k = dget d' k)"

lemma for_each_cong:
  "(\<And>k s. k \<in> set ks \<Longrightarrow> f k s = g k s) \<Longrightarrow> for_each f ks s = for_each g ks s"
proof (induction ks arbitrary: s)
  case (Cons k ks)
  then have "for_each f ks = for_each g ks" by (intro ext) simp
  then show ?case using Cons.prems by simp
qed simp

lemma sumItems_same: "same_devices d d' \<Longrightarrow> sumItems (PDict d) a = sumItems (PDict d') a"
  by (auto simp: sumItems_def dict_keys_def same_devices_def addItem_def dlookup_def intro!: for_each_cong)

lemma avgItems_same: "same_devices d d' \<Longrightarrow> avgItems (PDict d) a = avgItems (PDict d') a"
  using sumItems_same [of d d' a] by (simp add: avgItems_def dict_keys_def same_devices_def)

lemma same_devices_dput: "dget d statsKey \<noteq> None \<Longrightarrow> same_devices d (dput statsKey x d)"
  using pd.keys_put [of statsKey x d] by (simp add: same_devices_def pd.keys_get)

lemma same_devices_trans: "same_devices d e \<Longrightarrow> same_devices e f \<Longrightarrow> same_devices d f"
  by (simp add: same_devices_def)

text \<open>The statistic \<open>name\<close> of a group is what \<open>f\<close> computes from the group.\<close>

definition agrees :: "(pyval \<Rightarrow> pykey \<Rightarrow> pyval res) \<Rightarrow> pykey \<Rightarrow> string \<Rightarrow> pyval \<Rightarrow> bool" where
  "agrees f grp name st \<longleftrightarrow> (\<exists>d x. path_get [grp] st = Some (PDict d) \<and> f (PDict d) (KS name) = Inr x \<and>
     path_get [grp, statsKey, KS name] st = Some x)"

definition device_function :: "(pyval \<Rightarrow> pykey \<Rightarrow> pyval res) \<Rightarrow> bool" where
  "device_function f \<longleftrightarrow> (\<forall>d d' a. same_devices d d' \<longrightarrow> f (PDict d) a = f (PDict d') a)"

lemma sum_avg_device_functions [simp]: "device_function sumItems" "device_function avgItems"
  using sumItems_same avgItems_same by (auto simp: device_function_def)

lemma device_functionD:
  "device_function f \<Longrightarrow> dget d statsKey \<noteq> None \<Longrightarrow> f (PDict (dput statsKey x d)) a = f (PDict d) a"
  using same_devices_dput unfolding device_function_def by metis

lemma statOf_agrees: "statOf f grp name st = Inr st' \<Longrightarrow> device_function f \<Longrightarrow> agrees f grp name st'"
  by (auto simp: statOf_def res_simps state_simps agrees_def device_functionD)

lemma setStat_agrees:
  assumes "setStat grp name r st = Inr st'" and "(grp, name) \<noteq> (grp', name')"
    and "device_function f" and "agrees f grp' name' st"
  shows "agrees f grp' name' st'"
  using assms by (auto simp: state_simps agrees_def device_functionD)

lemma statOf_keeps:
  "statOf g grp name st = Inr st' \<Longrightarrow> agrees f grp' name' st \<Longrightarrow> device_function f \<Longrightarrow>
     (grp, name) \<noteq> (grp', name') \<Longrightarrow> agrees f grp' name' st'"
  unfolding statOf_def by (rule setStat_agrees)

lemma statEday_keeps:
  "statEday st = Inr st' \<Longrightarrow> agrees f grp' name' st \<Longrightarrow> device_function f \<Longrightarrow>
     (inverters, ''Eday'') \<noteq> (grp', name') \<Longrightarrow> agrees f grp' name' st'"
  unfolding statEday_def rbind_eq_Inr_iff by (auto split: if_splits intro: setStat_agrees)

text \<open>
  What the statistics should be, over the values of an item in the devices of a group, in the order
  of the group and without its entry \<open>stats\<close>: the sum, built up from 0 value by value, the sum divided
  by the number of the other entries (0 without any), and the greater of the sum and the old value.
\<close>

definition item_values :: "pydict \<Rightarrow> pykey \<Rightarrow> pyval option list" where
  "item_values d a = map (\<lambda>k. path_get [k, a] (PDict d)) (filter (\<lambda>k. k \<noteq> statsKey) (dkeys d))"

definition total_from :: "pyval \<Rightarrow> pyval list \<Rightarrow> pyval res" where
  "total_from x vs = foldl (\<lambda>s v. rbind s (\<lambda>t. py_add t v)) (Inr x) vs"

definition sum_of :: "pydict \<Rightarrow> pykey \<Rightarrow> pyval \<Rightarrow> bool" where
  "sum_of d a x \<longleftrightarrow> (\<exists>vs. item_values d a = map Some vs \<and> total_from (PInt 0) vs = Inr x)"

definition average_of :: "pydict \<Rightarrow> pykey \<Rightarrow> pyval \<Rightarrow> bool" where
  "average_of d a x \<longleftrightarrow> (\<exists>s. sum_of d a s \<and>
     (if length (dkeys d) = 1 then x = PInt 0 else py_div_int s (int (length (dkeys d)) - 1) = Inr x))"

definition greater_of :: "pyval \<Rightarrow> pydict \<Rightarrow> pykey \<Rightarrow> pyval \<Rightarrow> bool" where
  "greater_of old d a x \<longleftrightarrow> (\<exists>s. sum_of d a s \<and>
     (py_gt s old = Inr True \<and> x = s \<or> py_gt s old = Inr False \<and> x = old))"

definition stat_shows :: "(pydict \<Rightarrow> pykey \<Rightarrow> pyval \<Rightarrow> bool) \<Rightarrow> pykey \<Rightarrow> string \<Rightarrow> pyval \<Rightarrow> bool" where
  "stat_shows P grp name st \<longleftrightarrow> (\<exists>d x. path_get [grp] st = Some (PDict d) \<and> P d (KS name) x \<and>
     path_get [grp, statsKey, KS name] st = Some x)"

definition statistics_agree :: "pyval \<Rightarrow> pyval \<Rightarrow> bool" where
  "statistics_agree old st \<longleftrightarrow>
     stat_shows average_of inverters ''Vac'' st \<and> stat_shows sum_of inverters ''Pac'' st \<and>
     stat_shows sum_of inverters ''Eac'' st \<and> stat_shows (greater_of old) inverters ''Eday'' st \<and>
     stat_shows sum_of inverters ''Etot'' st \<and> stat_shows average_of inverters ''Temp'' st \<and>
     stat_shows average_of optimizers ''Temp'' st"

lemma total_from_Cons: "total_from x (v # vs) = rbind (py_add x v) (\<lambda>y. total_from y vs)"
proof -
  have "foldl (\<lambda>s v. rbind s (\<lambda>t. py_add t v)) (Inl e) vs = Inl e" for e
    by (induction vs) (simp_all add: rbind_def)
  then show ?thesis by (cases "py_add x v") (simp_all add: total_from_def rbind_def)
qed

lemma path_get_item: "path_get [a] x = Some v \<longleftrightarrow> (\<exists>d. x = PDict d \<and> dget d a = Some v)"
  by (cases x) (auto split: option.splits)

lemma addItems_total:
  "for_each (addItem (PDict d) a) ks x = Inr y \<longleftrightarrow>
     (\<exists>vs. map (\<lambda>k. path_get [k, a] (PDict d)) (filter (\<lambda>k. k \<noteq> statsKey) ks) = map Some vs \<and>
        total_from x vs = Inr y)"
proof (induction ks arbitrary: x)
  case Nil
  then show ?case by (simp add: total_from_def)
next
  case (Cons k ks)
  show ?case
  proof (cases "k = statsKey")
    case True
    then show ?thesis using Cons.IH [of x] by (simp add: addItem_def rbind_def)
  next
    case False
    have "for_each (addItem (PDict d) a) (k # ks) x = Inr y \<longleftrightarrow>
        (\<exists>v x'. path_get [k, a] (PDict d) = Some v \<and> py_add x v = Inr x' \<and>
           for_each (addItem (PDict d) a) ks x' = Inr y)"
      using False
      by (auto simp: addItem_def res_simps state_simps path_get_item simp del: path_get.simps(2)
          simp: path_get.simps(2) [of k] split: option.splits)
    then show ?thesis
      using False Cons.IH by (auto simp: map_eq_Cons_conv Cons_eq_map_conv total_from_Cons res_simps
          simp del: path_get.simps for_each.simps)
  qed
qed

lemma sumItems_iff: "sumItems (PDict d) a = Inr x \<longleftrightarrow> sum_of d a x"
  by (simp add: sumItems_def dict_keys_def sum_of_def item_values_def rbind_def addItems_total)

lemma avgItems_iff: "avgItems (PDict d) a = Inr x \<longleftrightarrow> average_of d a x"
  unfolding avgItems_def rbind_eq_Inr_iff sumItems_iff average_of_def
  by (auto simp: dict_keys_def Let_def split: if_splits)

definition greaterSum :: "pyval \<Rightarrow> pyval \<Rightarrow> pykey \<Rightarrow> pyval res" where
  "greaterSum old d a = rbind (sumItems d a) (\<lambda>s. rbind (py_gt s old) (\<lambda>gt. Inr (if gt then s else old)))"

lemma greaterSum_iff: "greaterSum old (PDict d) a = Inr x \<longleftrightarrow> greater_of old d a x"
  unfolding greaterSum_def rbind_eq_Inr_iff sumItems_iff greater_of_def by (auto split: if_splits)

lemma stat_shows_iff:
  "stat_shows sum_of grp name st \<longleftrightarrow> agrees sumItems grp name st"
  "stat_shows average_of grp name st \<longleftrightarrow> agrees avgItems grp name st"
  "stat_shows (greater_of old) grp name st \<longleftrightarrow> agrees (greaterSum old) grp name st"
  by (simp_all only: stat_shows_def agrees_def sumItems_iff avgItems_iff greaterSum_iff)

lemma greaterSum_device_function [simp]: "device_function (greaterSum old)"
  using sumItems_same by (auto simp: device_function_def greaterSum_def)

lemma statEday_agrees:
  assumes "statEday st = Inr st'"
  shows "\<exists>old. path_get edayPath st = Some old \<and> agrees (greaterSum old) inverters ''Eday'' st'"
proof -
  obtain i d s old eday gt where run: "st = PDict i" "dget i inverters = Some (PDict d)"
      "dget d statsKey = Some (PDict s)" "dget s (KS ''Eday'') = Some old"
      "sumItems (PDict d) (KS ''Eday'') = Inr eday" "py_gt eday old = Inr gt"
      "(if gt then setStat inverters ''Eday'' (Inr eday) st else Inr st) = Inr st'"
    using assms unfolding statEday_def rbind_eq_Inr_iff getitem_eq_Inr by auto
  have f: "greaterSum old (PDict d) (KS ''Eday'') = Inr (if gt then eday else old)"
    using run(5,6) by (simp add: greaterSum_def rbind_def)
  have "agrees (greaterSum old) inverters ''Eday'' st'"
    using run(1-4,7) f by (auto simp: agrees_def state_simps device_functionD split: if_splits)
  then show ?thesis using run(1-4) by (simp add: edayPath_def)
qed

lemma computeStats_agree:
  assumes "computeStats st = Inr st'"
  shows "\<exists>old. path_get edayPath st = Some old \<and> statistics_agree old st'"
proof -
  obtain s1 s2 s3 s4 s5 s6 where run:
    "statOf avgItems inverters ''Vac'' st = Inr s1" "statOf sumItems inverters ''Pac'' s1 = Inr s2"
    "statOf sumItems inverters ''Eac'' s2 = Inr s3" "statEday s3 = Inr s4"
    "statOf sumItems inverters ''Etot'' s4 = Inr s5" "statOf avgItems inverters ''Temp'' s5 = Inr s6"
    "statOf avgItems optimizers ''Temp'' s6 = Inr st'"
    using assms unfolding computeStats_def rbind_eq_Inr_iff by blast
  obtain old where old: "path_get edayPath s3 = Some old" "agrees (greaterSum old) inverters ''Eday'' s4"
    using statEday_agrees [OF run(4)] by blast
  note keep = run(2,3,5-7) [THEN statOf_keeps] statEday_keeps [OF run(4)]
  have "agrees avgItems inverters ''Vac'' s1" "agrees sumItems inverters ''Pac'' s2"
      "agrees sumItems inverters ''Eac'' s3" "agrees sumItems inverters ''Etot'' s5"
      "agrees avgItems inverters ''Temp'' s6" "agrees avgItems optimizers ''Temp'' st'"
    using run(1-3,5-7) [THEN statOf_agrees] by simp_all
  with old(2) have "statistics_agree old st'"
    unfolding statistics_agree_def stat_shows_iff by (simp add: keep)
  moreover have "path_get edayPath st = Some old"
    using old(1) run(1-3) [THEN statOf_eday] by simp
  ultimately show ?thesis by blast
qed

subsection \<open>The values of the devices\<close>

text \<open>The power of an optimizer is the product of its module voltage and its current.\<close>

definition powered :: "pyval \<Rightarrow> bool" where
  "powered v \<longleftrightarrow> (\<exists>x y p. path_get [KS ''Vmod''] v = Some x \<and> path_get [KS ''Imod''] v = Some y \<and>
     py_mul x y = Inr p \<and> path_get [KS ''Pdc''] v = Some p)"

lemma setPower_run:
  assumes "setPower k (PDict o1) = Inr v"
  obtains o2 where "v = PDict o2" and "\<forall>k'. k' \<noteq> k \<or> k = statsKey \<longrightarrow> dget o2 k' = dget o1 k'"
    and "k \<noteq> statsKey \<longrightarrow> (\<exists>x. dget o2 k = Some x \<and> powered x)"
proof (cases "k = statsKey")
  case True
  then have "v = PDict o1" using assms by (simp add: setPower_def)
  then show ?thesis by (rule that) (simp_all add: True)
next
  case False
  then obtain d x y p where d: "dget o1 k = Some (PDict d)" "dget d (KS ''Vmod'') = Some x"
      "dget d (KS ''Imod'') = Some y" "py_mul x y = Inr p"
      and v: "v = PDict (dput k (PDict (dput (KS ''Pdc'') p d)) o1)"
    using assms by (auto simp: setPower_def res_simps state_simps)
  have "powered (PDict (dput (KS ''Pdc'') p d))"
    using d by (simp add: powered_def)
  with that [OF v] False show ?thesis by simp
qed

lemma setPowers_run:
  "for_each setPower ks (PDict o1) = Inr v \<Longrightarrow>
     \<exists>o2. v = PDict o2 \<and> (\<forall>k. k \<notin> set ks \<or> k = statsKey \<longrightarrow> dget o2 k = dget o1 k) \<and>
       (\<forall>k \<in> set ks. k \<noteq> statsKey \<longrightarrow> (\<exists>x. dget o2 k = Some x \<and> powered x))"
proof (induction ks arbitrary: o1)
  case (Cons k ks)
  obtain v1 where v1: "setPower k (PDict o1) = Inr v1" "for_each setPower ks v1 = Inr v"
    using Cons.prems by (auto simp: res_simps)
  obtain o2 where o2: "v1 = PDict o2" "\<forall>k'. k' \<noteq> k \<or> k = statsKey \<longrightarrow> dget o2 k' = dget o1 k'"
      "k \<noteq> statsKey \<longrightarrow> (\<exists>x. dget o2 k = Some x \<and> powered x)"
    using v1(1) by (rule setPower_run)
  obtain o3 where o3: "v = PDict o3" "\<forall>k. k \<notin> set ks \<or> k = statsKey \<longrightarrow> dget o3 k = dget o2 k"
      "\<forall>k \<in> set ks. k \<noteq> statsKey \<longrightarrow> (\<exists>x. dget o3 k = Some x \<and> powered x)"
    using Cons.IH v1(2) unfolding o2(1) by blast
  show ?case
    using o2 o3 by (intro exI [of _ o3]) (auto; metis)
qed auto

text \<open>Every optimizer of a state has its power, and the statistics leave the devices alone.\<close>

definition all_powered :: "pyval \<Rightarrow> bool" where
  "all_powered st \<longleftrightarrow> (\<forall>k x. k \<noteq> statsKey \<and> path_get [optimizers, k] st = Some x \<longrightarrow> powered x)"

lemma optimizerPower_powered:
  assumes "inside optimizers optimizerPower st = Inr st'"
  shows "all_powered st'"
proof -
  obtain d o1 v where run: "st = PDict d" "dget d optimizers = Some (PDict o1)"
      "for_each setPower (dkeys o1) (PDict o1) = Inr v" "st' = PDict (dput optimizers v d)"
    using assms by (auto simp: state_simps optimizerPower_def res_simps)
  obtain o2 where o2: "v = PDict o2" "\<forall>k. k \<notin> set (dkeys o1) \<or> k = statsKey \<longrightarrow> dget o2 k = dget o1 k"
      "\<forall>k \<in> set (dkeys o1). k \<noteq> statsKey \<longrightarrow> (\<exists>x. dget o2 k = Some x \<and> powered x)"
    using setPowers_run [OF run(3)] by blast
  have "powered x" if "k \<noteq> statsKey" "dget o2 k = Some x" for k x
    using o2(2,3) that by (metis option.distinct(1) option.inject pd.keys_get)
  then show ?thesis
    by (auto simp: all_powered_def run(4) o2(1) split: option.splits)
qed

lemma computeStats_device:
  assumes "computeStats st = Inr st'" and "k \<noteq> statsKey"
  shows "path_get [grp, k] st' = path_get [grp, k] st"
proof -
  have one: "path_get [grp, k] s' = path_get [grp, k] s" if "setStat g n r s = Inr s'" for g n r s s'
    using that assms(2) by (auto simp: state_simps)
  then have st: "path_get [grp, k] s' = path_get [grp, k] s" if "statOf f g n s = Inr s'" for f g n s s'
    using that unfolding statOf_def by blast
  have "path_get [grp, k] s' = path_get [grp, k] s" if "statEday s = Inr s'" for s s'
    using that one unfolding statEday_def rbind_eq_Inr_iff by (auto split: if_splits)
  with st assms(1) show ?thesis
    unfolding computeStats_def rbind_eq_Inr_iff by metis
qed

lemma updateValues_inverters:
  assumes "updateValues inverters inDict st = Inr st'" and "path_get [inverters] inDict = Some (PDict e)"
    and "dwf e"
  shows "path_get [inverters, k] st' =
    (case dget e k of Some v \<Rightarrow> Some v | None \<Rightarrow> path_get [inverters, k] st)"
proof -
  obtain s d where s: "inDict = PDict s" "dget s inverters = Some (PDict e)"
    using assms(2) by (cases inDict) (auto split: option.splits)
  obtain i v where i: "st = PDict i" "dget i inverters = Some (PDict v)"
      "st' = PDict (dput inverters (PDict (dupdate e v)) i)"
    using assms(1) s by (auto simp: updateValues_def state_simps)
  have "map_of (rev e) = map_of e"
    using assms(3) by (simp add: dwf_def map_of_inject_set rev_map [symmetric])
  then show ?thesis
    by (simp add: i dget_dupdate dget_def [of e] split: option.split)
qed

lemma other_group:
  "updateValues optimizers inDict st = Inr st' \<Longrightarrow> path_get [inverters, k] st' = path_get [inverters, k] st"
  "inside optimizers f st = Inr st' \<Longrightarrow> path_get [inverters, k] st' = path_get [inverters, k] st"
  by (auto simp: updateValues_def state_simps)

text \<open>
  C31.  When the script gets through a line that has no events, whose inverters are an object with
  distinct names and none called \<open>stats\<close>, the state it writes is consistent.  Among the statistics, \<open>Pac\<close>,
  \<open>Eac\<close> and \<open>Etot\<close> of the inverters are the sums of that item over the inverters in the same state, \<open>Vac\<close>
  and \<open>Temp\<close> of the inverters and \<open>Temp\<close> of the optimizers are the averages, and \<open>Eday\<close> is not a sum but a
  running maximum: the sum when it is greater than the \<open>Eday\<close> of the state before, otherwise that.
  Every optimizer's power is the product of its voltage and current.  Each inverter has the values of
  the line or, when the line does not mention it, those it had.
\<close>

theorem state_file_consistent:
  assumes "stateStep inDict st = Inr st'" and "path_get [KS ''events''] inDict = Some (PDict [])"
    and "path_get [inverters] inDict = Some (PDict e)" and "dwf e" and "dget e statsKey = None"
  shows "\<exists>old. path_get edayPath st = Some old \<and> statistics_agree old st' \<and> all_powered st' \<and>
    (\<forall>k. k \<noteq> statsKey \<longrightarrow> path_get [inverters, k] st' =
       (case dget e k of Some v \<Rightarrow> Some v | None \<Rightarrow> path_get [inverters, k] st))"
proof -
  obtain s1 s2 s3 s4 where run: "updateValues inverters inDict st = Inr s1"
    "updateValues optimizers inDict s1 = Inr s2" "inside optimizers optimizerPower s2 = Inr s3"
    "computeStats s3 = Inr s4" "zeroOnEvent inDict s4 = Inr st'"
    using assms(1) unfolding stateStep_def rbind_eq_Inr_iff by blast
  have st': "st' = s4"
    using run(5) assms(2)
    by (cases inDict) (auto simp: zeroOnEvent_def res_simps state_simps py_len_def split: option.splits)
  have "all_powered st'"
    using optimizerPower_powered [OF run(3)] computeStats_device [OF run(4)]
    unfolding all_powered_def st' by metis
  moreover have "path_get [inverters, k] st' =
      (case dget e k of Some v \<Rightarrow> Some v | None \<Rightarrow> path_get [inverters, k] st)" if "k \<noteq> statsKey" for k
    using computeStats_device [OF run(4) that] other_group(2) [OF run(3)] other_group(1) [OF run(2)]
      updateValues_inverters [OF run(1) assms(3,4)] unfolding st' by simp
  moreover have "path_get [inverters, statsKey] inDict = None"
    using assms(3,5) by (cases inDict) (auto split: option.splits)
  then have "path_get edayPath s3 = path_get edayPath st"
    using run(1,2) [THEN updateValues_eday] setPower_eday [OF run(3)] by simp
  ultimately show ?thesis
    using computeStats_agree [OF run(4)] unfolding st' by auto
qed

text \<open>A line with one inverter and one optimizer at rest, for a state that \<^verbatim>\<open>-i\<close> has initialized.\<close>

definition sampleDevice :: "(string \<times> int) list \<Rightarrow> pyval" where
  "sampleDevice items = PDict (map (\<lambda>(n, i). (KS n, PFloat (Fin (of_int i)))) items)"

definition sampleInput :: "int \<Rightarrow> pyval" where
  "sampleInput eday = PDict
     [(inverters, PDict [(KS ''7E1'', sampleDevice
         [(''Vac'', 0), (''Pac'', 0), (''Eac'', 0), (''Eday'', eday), (''Etot'', 0), (''Temp'', 0)])]),
      (optimizers, PDict [(KS ''A1'', sampleDevice [(''Vmod'', 0), (''Imod'', 0), (''Temp'', 0)])]),
      (KS ''events'', PDict [])]"

definition sampleLoads :: "string \<Rightarrow> pyval res" where
  "sampleLoads l = Inr (sampleInput (if l = ''1'' then 500 else 20))"

theorem eday_never_falls_witness:
  "sorted_wrt grows (map (path_get edayPath) (initialState [] # fst (stateLoop sampleLoads [''1'', ''2''] (initialState []))))"
proof -
  have "\<forall>l \<in> set [''1'', ''2'']. \<forall>v. sampleLoads l = Inr v \<longrightarrow> path_get [inverters, statsKey] v = None"
    by (auto simp: sampleLoads_def sampleInput_def dget_def statsKey_def)
  from eday_never_falls [OF this] show ?thesis .
qed

theorem state_file_consistent_witness:
  "\<exists>st'. stateStep (sampleInput 20) (initialState []) = Inr st' \<and> statistics_agree zero st' \<and> all_powered st' \<and>
     path_get edayPath st' = Some (PFloat (Fin 20))"
proof -
  define r where "r = stateStep (sampleInput 20) (initialState [])"
  have "case r of Inr st' \<Rightarrow> path_get edayPath st' = Some (PFloat (Fin 20)) | Inl e \<Rightarrow> False"
    unfolding r_def by code_simp
  then obtain st' where st': "r = Inr st'" "path_get edayPath st' = Some (PFloat (Fin 20))"
    by (cases r) auto
  have "path_get [KS ''events''] (sampleInput 20) = Some (PDict [])"
    by code_simp
  moreover have "path_get [inverters] (sampleInput 20) = Some (PDict [(KS ''7E1'', sampleDevice
         [(''Vac'', 0), (''Pac'', 0), (''Eac'', 0), (''Eday'', 20), (''Etot'', 0), (''Temp'', 0)])])"
    by (simp add: sampleInput_def dget_def)
  moreover have "path_get edayPath (initialState []) = Some zero" by code_simp
  ultimately show ?thesis
    using state_file_consistent [OF st'(1) [unfolded r_def]] st' unfolding r_def
    by (auto simp: dwf_def dget_def statsKey_def simp del: path_get.simps)
qed

end
