(* ===== verification/Mqtt.thy ===== *)
theory Mqtt
  imports StateProps
begin

text \<open>
  \<^verbatim>\<open>conversion/se2MQTT.py\<close>, a Python 2 program (it has \<^verbatim>\<open>print\<close> statements) that publishes the current
  values of all devices after every line.  Whether the broker accepts a message is an argument, as
  is the decoder of the lines.
\<close>

record mqttSettings =
  clientid :: "string option"
  mqttUser :: "string option"
  passwd :: "string option"
  server :: "string option"
  topic :: "string option"

definition mqttStart :: pyval where
  "mqttStart = PDict [(inverters, PDict []), (optimizers, PDict [])]"

definition mqttZero :: "pyval \<Rightarrow> pyval \<Rightarrow> pyval res" where
  "mqttZero inDict st = rbind (rbind (getitem inDict (KS ''events'')) py_len) (\<lambda>n.
     if n \<noteq> 0 then inside inverters (zeroDevices [''Eac'', ''Pac'']) st else Inr st)"

definition mqttStep :: "pyval \<Rightarrow> pyval \<Rightarrow> pyval res" where
  "mqttStep inDict st =
     rbind (updateValues inverters inDict st) (\<lambda>st. rbind (updateValues optimizers inDict st) (mqttZero inDict))"

text \<open>A missing option raises \<^verbatim>\<open>NameError\<close>, which is reported like a failure of the broker.\<close>

definition mqttSend :: "mqttSettings \<Rightarrow> bool \<Rightarrow> pyval \<Rightarrow> (string \<times> pyval) list" where
  "mqttSend s accepted st =
     (case (clientid s, mqttUser s, passwd s, server s, topic s) of
        (Some _, Some _, Some _, Some _, Some t) \<Rightarrow> if accepted then [(t, st)] else []
      | _ \<Rightarrow> [])"

fun mqttLoop ::
  "(string \<Rightarrow> pyval res) \<Rightarrow> mqttSettings \<Rightarrow> (nat \<Rightarrow> bool) \<Rightarrow> nat \<Rightarrow> string list \<Rightarrow> pyval \<Rightarrow>
     (string \<times> pyval) list \<times> pyexn option" where
  "mqttLoop loads s broker n [] st = ([], None)"
| "mqttLoop loads s broker n (l # ls) st =
     (case rbind (loads l) (\<lambda>inDict. mqttStep inDict st) of
        Inl e \<Rightarrow> ([], Some e)
      | Inr st' \<Rightarrow> (case mqttLoop loads s broker (Suc n) ls st' of (pubs, e) \<Rightarrow> (mqttSend s (broker n) st' @ pubs, e)))"

subsection \<open>What is published\<close>

definition zeroed :: "pyval \<Rightarrow> pyval" where
  "zeroed v = (case v of PDict d \<Rightarrow> PDict (dput (KS ''Pac'') zero (dput (KS ''Eac'') zero d)) | _ \<Rightarrow> v)"

definition eventful :: "pyval \<Rightarrow> bool" where
  "eventful v \<longleftrightarrow> (case rbind (getitem v (KS ''events'')) py_len of Inr n \<Rightarrow> n \<noteq> 0 | Inl e \<Rightarrow> False)"

text \<open>The view of one inverter: its last values, without energy and power after an event.\<close>

definition view_after :: "pykey \<Rightarrow> pyval \<Rightarrow> pyval option \<Rightarrow> pyval option" where
  "view_after k inDict old =
     (let new = (case path_get [inverters, k] inDict of Some v \<Rightarrow> Some v | None \<Rightarrow> old)
      in if eventful inDict then map_option zeroed new else new)"

fun latest :: "(string \<Rightarrow> pyval res) \<Rightarrow> pykey \<Rightarrow> string list \<Rightarrow> pyval option \<Rightarrow> pyval option" where
  "latest loads k [] old = old"
| "latest loads k (l # ls) old = latest loads k ls (case loads l of Inr v \<Rightarrow> view_after k v old | Inl e \<Rightarrow> old)"

lemma zero_names:
  "for_each (\<lambda>n. setitem (KS n) zero) [''Eac'', ''Pac''] v = Inr w \<longleftrightarrow> is_dict v \<and> w = zeroed v"
  by (cases v) (auto simp: zeroed_def res_simps state_simps)

lemma for_each_inside:
  assumes f: "\<And>v w. f v = Inr w \<Longrightarrow> w = g v"
  shows "for_each (\<lambda>k. inside k f) ks (PDict e) = Inr w \<Longrightarrow> distinct ks \<Longrightarrow>
    \<exists>d'. w = PDict d' \<and> (\<forall>k. dget d' k = (if k \<in> set ks then map_option g (dget e k) else dget e k))"
proof (induction ks arbitrary: e)
  case (Cons k ks)
  obtain x y where x: "dget e k = Some x" "f x = Inr y"
    and rest: "for_each (\<lambda>k. inside k f) ks (PDict (dput k y e)) = Inr w"
    using Cons.prems(1) unfolding for_each.simps(2) rbind_eq_Inr_iff inside_eq_Inr by auto
  then show ?case using Cons.IH [OF rest] Cons.prems(2) f [OF x(2)] by auto
qed auto

lemma zeroDevices_view:
  assumes "zeroDevices [''Eac'', ''Pac''] (PDict d) = Inr w" and "dwf d"
  shows "\<exists>d'. w = PDict d' \<and> (\<forall>k. dget d' k = map_option zeroed (dget d k))"
proof -
  have "for_each (\<lambda>k. inside k (for_each (\<lambda>n. setitem (KS n) zero) [''Eac'', ''Pac''])) (dkeys d) (PDict d) = Inr w"
    using assms(1) by (simp add: zeroDevices_def dict_keys_def)
  moreover have "distinct (dkeys d)" using assms(2) by (simp add: dwf_def dkeys_def)
  ultimately obtain d' where d': "w = PDict d'"
      "\<forall>k. dget d' k = (if k \<in> set (dkeys d) then map_option zeroed (dget d k) else dget d k)"
    using for_each_inside [of "for_each (\<lambda>n. setitem (KS n) zero) [''Eac'', ''Pac'']" zeroed] zero_names by blast
  moreover have "dget d k = None" if "k \<notin> set (dkeys d)" for k using that pd.keys_get by metis
  ultimately show ?thesis by (metis option.map_disc_iff)
qed

lemma zeroDevices_dwf:
  assumes "zeroDevices names (PDict d) = Inr w" and "dwf d"
  shows "\<exists>d'. w = PDict d' \<and> dwf d'"
  using assms(1) unfolding zeroDevices_def rbind_eq_Inr_iff
proof (elim exE conjE)
  fix ks
  assume "for_each (\<lambda>k. inside k (for_each (\<lambda>n. setitem (KS n) zero) names)) ks (PDict d) = Inr w"
  then show ?thesis
    by (rule for_each_invariant [rotated 2]) (use assms(2) in \<open>auto simp: inside_eq_Inr\<close>)
qed

text \<open>The state: both groups are dictionaries with distinct keys.\<close>

definition mqtt_ok :: "pyval \<Rightarrow> bool" where
  "mqtt_ok st \<longleftrightarrow> (\<exists>s i. st = PDict s \<and> dget s inverters = Some (PDict i) \<and> dwf i)"

definition distinct_inverters :: "pyval \<Rightarrow> bool" where
  "distinct_inverters v \<longleftrightarrow> (\<forall>e. path_get [inverters] v = Some (PDict e) \<longrightarrow> dwf e)"

lemma dget_dupdate_dwf:
  "dwf e \<Longrightarrow> dget (dupdate e d) k = (case dget e k of Some v \<Rightarrow> Some v | None \<Rightarrow> dget d k)"
proof -
  assume "dwf e"
  then have "map_of (rev e) k = map_of e k" 
    using map_of_inject_set [of "rev e" e] by (simp add: dwf_def flip: rev_map)
  then show ?thesis unfolding dget_dupdate by (simp add: dget_def)
qed

lemma mqtt_okI: "dget s inverters = Some (PDict i) \<Longrightarrow> dwf i \<Longrightarrow> mqtt_ok (PDict s)"
  by (simp add: mqtt_ok_def)

lemma path_inverters: "dget s inverters = Some (PDict i) \<Longrightarrow> path_get [inverters, k] (PDict s) = dget i k"
  by (simp split: option.split)

lemma updateValues_view:
  assumes "updateValues inverters inDict st = Inr st'" and "mqtt_ok st" and "distinct_inverters inDict"
  shows "mqtt_ok st' \<and> path_get [inverters, k] st' =
    (case path_get [inverters, k] inDict of Some v \<Rightarrow> Some v | None \<Rightarrow> path_get [inverters, k] st)"
proof -
  obtain s i where s: "st = PDict s" "dget s inverters = Some (PDict i)" "dwf i"
    using assms(2) by (auto simp: mqtt_ok_def)
  then obtain y where y: "py_update (PDict i) (getitem inDict inverters) = Inr y" "st' = PDict (dput inverters y s)"
    using assms(1) by (auto simp: updateValues_def inside_eq_Inr)
  from y(1) consider "getitem inDict inverters = Inr (PStr [])" "y = PDict i"
    | e where "getitem inDict inverters = Inr (PDict e)" "y = PDict (dupdate e i)"
    unfolding py_update_eq_Inr by auto
  then show ?thesis
  proof cases
    case 1
    then have "path_get [inverters, k] inDict = None" by (auto simp: getitem_eq_Inr)
    then show ?thesis using 1 s y(2) by (auto intro: mqtt_okI)
  next
    case (2 e)
    then obtain d where d: "inDict = PDict d" "dget d inverters = Some (PDict e)" by (auto simp: getitem_eq_Inr)
    then have "dwf e" using assms(3) by (simp add: distinct_inverters_def)
    then show ?thesis using 2 s y(2) d by (auto intro: mqtt_okI simp: dget_dupdate_dwf split: option.split)
  qed
qed

lemma mqttZero_view:
  assumes "mqttZero inDict st = Inr st'" and "mqtt_ok st"
  shows "mqtt_ok st' \<and> path_get [inverters, k] st' =
    (if eventful inDict then map_option zeroed (path_get [inverters, k] st) else path_get [inverters, k] st)"
proof -
  obtain n where n: "rbind (getitem inDict (KS ''events'')) py_len = Inr n"
      "(if n \<noteq> 0 then inside inverters (zeroDevices [''Eac'', ''Pac'']) st else Inr st) = Inr st'"
    using assms(1) by (auto simp: mqttZero_def rbind_eq_Inr_iff)
  then have ev: "eventful inDict \<longleftrightarrow> n \<noteq> 0" by (simp add: eventful_def)
  show ?thesis
  proof (cases "n = 0")
    case False
    obtain s i where s: "st = PDict s" "dget s inverters = Some (PDict i)" "dwf i"
      using assms(2) by (auto simp: mqtt_ok_def)
    obtain w where w: "zeroDevices [''Eac'', ''Pac''] (PDict i) = Inr w" "st' = PDict (dput inverters w s)"
      using n(2) False s by (auto simp: inside_eq_Inr)
    obtain i' where i': "w = PDict i'" "\<forall>k. dget i' k = map_option zeroed (dget i k)" "dwf i'"
      using zeroDevices_view [OF w(1) s(3)] zeroDevices_dwf [OF w(1) s(3)] by auto
    then show ?thesis using s w(2) ev False by (auto intro: mqtt_okI split: option.split)
  qed (use n assms(2) ev in simp)
qed

lemma mqttStep_view:
  assumes "mqttStep inDict st = Inr st'" and "mqtt_ok st" and "distinct_inverters inDict"
  shows "mqtt_ok st' \<and> path_get [inverters, k] st' = view_after k inDict (path_get [inverters, k] st)"
proof -
  obtain s1 s2 where run: "updateValues inverters inDict st = Inr s1" "updateValues optimizers inDict s1 = Inr s2"
      "mqttZero inDict s2 = Inr st'"
    using assms(1) by (auto simp: mqttStep_def rbind_eq_Inr_iff)
  note v1 = updateValues_view [OF run(1) assms(2,3)]
  have v2: "mqtt_ok s2" "path_get [inverters, k] s2 = path_get [inverters, k] s1" for k
    using run(2) v1 by (auto simp: updateValues_def inside_eq_Inr mqtt_ok_def)
  show ?thesis using mqttZero_view [OF run(3) v2(1), of k] v1 [of k] v2(2) [of k]
    by (simp add: view_after_def Let_def)
qed

lemma mqttLoop_ok:
  "mqtt_ok st \<Longrightarrow> \<forall>l \<in> set ls. \<forall>v. loads l = Inr v \<longrightarrow> distinct_inverters v \<Longrightarrow>
     \<exists>sts. fst (mqttLoop loads s broker n ls st) = concat (map (\<lambda>i. mqttSend s (broker (n + i)) (sts ! i)) [0..<length sts]) \<and>
       length sts \<le> length ls \<and> (snd (mqttLoop loads s broker n ls st) = None \<longrightarrow> length sts = length ls) \<and>
       (\<forall>i < length sts. path_get [inverters, k] (sts ! i) = latest loads k (take (Suc i) ls) (path_get [inverters, k] st))"
proof (induction ls arbitrary: n st)
  case (Cons l ls)
  show ?case
  proof (cases "rbind (loads l) (\<lambda>d. mqttStep d st)")
    case (Inl e)
    then show ?thesis by (intro exI [of _ "[]"]) simp
  next
    case (Inr st')
    then obtain v where v: "loads l = Inr v" "mqttStep v st = Inr st'" by (auto simp: rbind_eq_Inr_iff)
    have "distinct_inverters v" using Cons.prems(2) v(1) by simp
    note step = mqttStep_view [OF v(2) Cons.prems(1) this]
    obtain sts where sts:
      "fst (mqttLoop loads s broker (Suc n) ls st') = concat (map (\<lambda>i. mqttSend s (broker (Suc n + i)) (sts ! i)) [0..<length sts])"
      "length sts \<le> length ls" "snd (mqttLoop loads s broker (Suc n) ls st') = None \<longrightarrow> length sts = length ls"
      "\<forall>i < length sts. path_get [inverters, k] (sts ! i) = latest loads k (take (Suc i) ls) (path_get [inverters, k] st')"
      using Cons.IH [of st' "Suc n"] step Cons.prems(2) by auto
    have "map (\<lambda>i. mqttSend s (broker (n + i)) ((st' # sts) ! i)) [0..<Suc (length sts)] =
        mqttSend s (broker n) st' # map (\<lambda>i. mqttSend s (broker (Suc n + i)) (sts ! i)) [0..<length sts]"
      by (simp add: upt_conv_Cons map_Suc_upt [symmetric] del: upt_Suc)
    moreover have "path_get [inverters, k] ((st' # sts) ! i) = latest loads k (take (Suc i) (l # ls)) (path_get [inverters, k] st)"
      if "i < Suc (length sts)" for i
      using that step [of k] sts(4) v(1) by (cases i) auto
    ultimately show ?thesis
      using sts(1-3) Inr
      by (intro exI [of _ "st' # sts"]) (auto split: prod.split)
  qed
qed simp

text \<open>
  With all options given, the broker gets one message for each line that it accepts, a failure
  of the broker loses only the message of that line, and the values a message shows for an inverter
  are its latest ones up to this line: its items of the last line that mentions it, with energy and
  power set to zero when an event has been reported since.
\<close>

theorem mqtt_latest:
  assumes "\<forall>l \<in> set ls. \<forall>v. loads l = Inr v \<longrightarrow> distinct_inverters v"
    and "clientid s = Some c" "mqttUser s = Some u" "passwd s = Some p" "server s = Some h" "topic s = Some t"
  shows "\<exists>sts. fst (mqttLoop loads s broker 0 ls mqttStart) = map (\<lambda>i. (t, sts ! i)) (filter broker [0..<length sts]) \<and>
    (snd (mqttLoop loads s broker 0 ls mqttStart) = None \<longrightarrow> length sts = length ls) \<and>
    (\<forall>i < length sts. path_get [inverters, k] (sts ! i) = latest loads k (take (Suc i) ls) None)"
proof -
  have start: "mqtt_ok mqttStart" "path_get [inverters, k] mqttStart = None"
    by (auto simp: mqttStart_def dget_Cons intro: mqtt_okI)
  have "mqttSend s b st = (if b then [(t, st)] else [])" for b st
    using assms(2-) by (simp add: mqttSend_def)
  then have sends: "concat (map (\<lambda>i. mqttSend s (broker (0 + i)) (sts ! i)) [0..<m]) = map (\<lambda>i. (t, sts ! i)) (filter broker [0..<m])"
    for sts m by (induction m) simp_all
  from mqttLoop_ok [OF start(1) assms(1), of s broker 0 k, unfolded sends start(2)]
  show ?thesis by (elim exE conjE) (intro exI conjI)
qed

definition mqtt_loads :: "string \<Rightarrow> pyval res" where
  "mqtt_loads l = Inr (PDict
     [(inverters, PDict [(KS l, PDict [(KS ''Eac'', PInt 5), (KS ''Pac'', PInt 7)])]), (optimizers, PDict []),
      (KS ''events'', PDict (if l = ''b'' then [(KS ''1'', PDict [])] else []))])"

theorem mqtt_latest_witness:
  "\<exists>st. fst (mqttLoop mqtt_loads \<lparr>clientid = Some ''c'', mqttUser = Some ''u'', passwd = Some ''p'', server = Some ''h'',
      topic = Some ''t''\<rparr> (\<lambda>i. i = 1) 0 [''a'', ''b''] mqttStart) = [(''t'', st)] \<and>
     path_get [inverters, KS ''a''] st = Some (PDict [(KS ''Eac'', zero), (KS ''Pac'', zero)])"
proof -
  let ?s = "\<lparr>clientid = Some ''c'', mqttUser = Some ''u'', passwd = Some ''p'', server = Some ''h'', topic = Some ''t''\<rparr>"
  define run where "run = mqttLoop mqtt_loads ?s (\<lambda>i. i = 1) 0 [''a'', ''b''] mqttStart"
  have dist: "\<forall>l \<in> set [''a'', ''b'']. \<forall>v. mqtt_loads l = Inr v \<longrightarrow> distinct_inverters v"
    by (simp add: mqtt_loads_def distinct_inverters_def dget_Cons dwf_def)
  have "\<exists>sts. fst run = map (\<lambda>i. (''t'', sts ! i)) (filter (\<lambda>i. i = 1) [0..<length sts]) \<and>
      (snd run = None \<longrightarrow> length sts = length [''a'', ''b'']) \<and>
      (\<forall>i < length sts. path_get [inverters, KS ''a''] (sts ! i) = latest mqtt_loads (KS ''a'') (take (Suc i) [''a'', ''b'']) None)"
    unfolding run_def by (rule mqtt_latest [OF dist]) simp_all
  then obtain sts where sts: "fst run = map (\<lambda>i. (''t'', sts ! i)) (filter (\<lambda>i. i = 1) [0..<length sts])"
      "snd run = None \<longrightarrow> length sts = length [''a'', ''b'']"
      "\<forall>i < length sts. path_get [inverters, KS ''a''] (sts ! i) = latest mqtt_loads (KS ''a'') (take (Suc i) [''a'', ''b'']) None"
    by (elim exE conjE) (rule that)
  have "snd run = None" unfolding run_def by code_simp
  then have len: "length sts = 2" using sts(2) by simp
  moreover have "latest mqtt_loads (KS ''a'') (take (Suc 1) [''a'', ''b'']) None = Some (PDict [(KS ''Eac'', zero), (KS ''Pac'', zero)])"
    by code_simp
  ultimately show ?thesis using sts(1,3) unfolding run_def [symmetric] by (simp add: numeral_2_eq_2)
qed

end
