(* ===== verification/StateSafe.thy ===== *)
theory StateSafe
  imports StateProps
begin

text \<open>
  The state script never ends with an exception on well-formed input: what the state needs for the
  next step, and that every step keeps it.
\<close>

definition floats :: "string list \<Rightarrow> pyval \<Rightarrow> bool" where
  "floats names v \<longleftrightarrow> (\<forall>n \<in> set names. \<exists>x. path_get [KS n] v = Some (PFloat x))"

definition devices_ok :: "string list \<Rightarrow> pydict \<Rightarrow> bool" where
  "devices_ok names d \<longleftrightarrow> (\<forall>k v. dget d k = Some v \<and> k \<noteq> statsKey \<longrightarrow> floats names v)"

definition numeric :: "pyval \<Rightarrow> bool" where
  "numeric v \<longleftrightarrow> num_of v \<noteq> None"

definition stats_ok :: "string list \<Rightarrow> pydict \<Rightarrow> bool" where
  "stats_ok req d \<longleftrightarrow> (\<exists>s. dget d statsKey = Some (PDict s) \<and>
     (\<forall>n \<in> set req. \<exists>v. dget s (KS n) = Some v \<and> numeric v))"

definition group_ok :: "string list \<Rightarrow> string list \<Rightarrow> pyval \<Rightarrow> bool" where
  "group_ok names req v \<longleftrightarrow> (\<exists>d. v = PDict d \<and> devices_ok names d \<and> stats_ok req d)"

definition sixItems :: "string list" where
  "sixItems = [''Vac'', ''Pac'', ''Eac'', ''Eday'', ''Etot'', ''Temp'']"

definition threeItems :: "string list" where
  "threeItems = [''Vmod'', ''Imod'', ''Temp'']"

definition stateFile_ok :: "pyval \<Rightarrow> bool" where
  "stateFile_ok st \<longleftrightarrow> (\<exists>s i q. st = PDict s \<and>
     dget s inverters = Some i \<and> group_ok sixItems [''Eday''] i \<and>
     dget s optimizers = Some q \<and> group_ok threeItems [] q)"

text \<open>What a line must hold: single-phase inverters and optimizers with their items, and events.\<close>

definition input_ok :: "pyval \<Rightarrow> bool" where
  "input_ok v \<longleftrightarrow> (\<exists>e q ev.
     path_get [inverters] v = Some (PDict e) \<and> dwf e \<and> dget e statsKey = None \<and> devices_ok sixItems e \<and>
     path_get [optimizers] v = Some (PDict q) \<and> dwf q \<and> dget q statsKey = None \<and> devices_ok threeItems q \<and>
     path_get [KS ''events''] v = Some (PDict ev))"

subsection \<open>Sums and averages of floats\<close>

definition sum_value :: "pyval \<Rightarrow> bool" where
  "sum_value v \<longleftrightarrow> v = PInt 0 \<or> (\<exists>x. v = PFloat x)"

lemma sum_value_numeric: "sum_value v \<Longrightarrow> numeric v"
  by (auto simp: sum_value_def numeric_def)

lemma path_get_single: "path_get [k] v = Some x \<longleftrightarrow> getitem v k = Inr x"
  by (cases v) (auto simp: state_simps split: option.splits)

lemma sumItems_ok:
  assumes "devices_ok names d" and "n \<in> set names"
  shows "\<exists>x. sumItems (PDict d) (KS n) = Inr x \<and> sum_value x"
proof -
  have "\<exists>s'. addItem (PDict d) (KS n) k s = Inr s' \<and> sum_value s'"
    if "sum_value s" and k: "k \<in> set (dkeys d)" for k s
  proof (cases "k = statsKey")
    case False
    obtain v where v: "dget d k = Some v" using k by (auto simp: pd.keys_get)
    with False assms obtain x where "getitem v (KS n) = Inr (PFloat x)"
      by (metis devices_ok_def floats_def path_get_single)
    then show ?thesis
      using that(1) False v by (auto simp: addItem_def dlookup_def sum_value_def)
  qed (use that in \<open>simp add: addItem_def\<close>)
  then have "\<exists>s'. for_each (addItem (PDict d) (KS n)) (dkeys d) (PInt 0) = Inr s' \<and> sum_value s'"
    by (intro for_each_total) (auto simp: sum_value_def)
  then show ?thesis by (simp add: sumItems_def dict_keys_def)
qed

lemma avgItems_ok:
  assumes "devices_ok names d" and "n \<in> set names"
  shows "\<exists>x. avgItems (PDict d) (KS n) = Inr x \<and> numeric x"
proof -
  obtain s where s: "sumItems (PDict d) (KS n) = Inr s" "sum_value s" using sumItems_ok [OF assms] by blast
  have "\<exists>y. py_div_int (PInt 0) m = Inr y \<and> numeric y" for m
    by (simp add: py_div_int_def fdiv_int_def numeric_def)
  then show ?thesis
    using s by (auto simp: avgItems_def dict_keys_def Let_def sum_value_def numeric_def)
qed

subsection \<open>Every part of a step\<close>

lemma group_update:
  assumes "group_ok names req v" and "dget e statsKey = None" and "dwf e" and "devices_ok names e"
  shows "\<exists>v'. py_update v (Inr (PDict e)) = Inr v' \<and> group_ok names req v'"
proof -
  obtain d where d: "v = PDict d" "devices_ok names d" "stats_ok req d"
    using assms(1) by (auto simp: group_ok_def)
  have "map_of (rev e) = map_of e"
    using assms(3) by (simp add: dwf_def map_of_inject_set rev_map [symmetric])
  then have "dget (dupdate e d) k = (case dget e k of Some x \<Rightarrow> Some x | None \<Rightarrow> dget d k)" for k
    by (simp add: dget_dupdate dget_def [of e])
  then have "devices_ok names (dupdate e d)" "stats_ok req (dupdate e d)"
    using d assms(2,4) by (auto simp: devices_ok_def stats_ok_def split: option.splits)
  then show ?thesis by (simp add: py_update_def d(1) group_ok_def)
qed

lemma stats_set:
  assumes "group_ok names req v" and "numeric x"
  shows "\<exists>v'. inside statsKey (setitem (KS n) x) v = Inr v' \<and> group_ok names req v'"
proof -
  obtain d s where d: "v = PDict d" "devices_ok names d" "dget d statsKey = Some (PDict s)"
      "\<forall>n \<in> set req. \<exists>v. dget s (KS n) = Some v \<and> numeric v"
    using assms(1) by (auto simp: group_ok_def stats_ok_def)
  then have "group_ok names req (PDict (dput statsKey (PDict (dput (KS n) x s)) d))"
    using assms(2) by (auto simp: group_ok_def devices_ok_def stats_ok_def)
  then show ?thesis by (simp add: inside_def d dlookup_def)
qed

definition is_group :: "pykey \<Rightarrow> string list \<Rightarrow> string list \<Rightarrow> bool" where
  "is_group grp names req \<longleftrightarrow>
     (grp, names, req) = (inverters, sixItems, [''Eday'']) \<or> (grp, names, req) = (optimizers, threeItems, [])"

lemma in_group:
  assumes "stateFile_ok st" and "is_group grp names req"
    and "\<And>v. group_ok names req v \<Longrightarrow> \<exists>v'. f v = Inr v' \<and> group_ok names req v'"
  shows "\<exists>st'. inside grp f st = Inr st' \<and> stateFile_ok st'"
proof -
  obtain s i q where s: "st = PDict s" "dget s inverters = Some i" "group_ok sixItems [''Eday''] i"
      "dget s optimizers = Some q" "group_ok threeItems [] q"
    using assms(1) by (auto simp: stateFile_ok_def)
  then obtain v where v: "dget s grp = Some v" "group_ok names req v"
    using assms(2) by (auto simp: is_group_def)
  obtain v' where v': "f v = Inr v'" "group_ok names req v'" using assms(3) [OF v(2)] by blast
  have "stateFile_ok (PDict (dput grp v' s))"
    using assms(2) s v' by (auto simp: is_group_def stateFile_ok_def)
  then show ?thesis by (simp add: inside_def s(1) dlookup_def v v')
qed

lemma setStat_ok:
  assumes "stateFile_ok st" and "is_group grp names req" and "r = Inr x" and "numeric x"
  shows "\<exists>st'. setStat grp n r st = Inr st' \<and> stateFile_ok st'"
  using in_group [OF assms(1,2) stats_set [OF _ assms(4)]] by (simp add: setStat_def assms(3))

lemma group_of:
  assumes "stateFile_ok st" and "is_group grp names req"
  obtains d where "getitem st grp = Inr (PDict d)" and "devices_ok names d" and "stats_ok req d"
  using assms by (auto simp: stateFile_ok_def is_group_def group_ok_def dlookup_def)

lemma statOf_ok:
  assumes "stateFile_ok st" and "is_group grp names req" and "f = sumItems \<or> f = avgItems" and "n \<in> set names"
  shows "\<exists>st'. statOf f grp n st = Inr st' \<and> stateFile_ok st'"
proof -
  obtain d where d: "getitem st grp = Inr (PDict d)" "devices_ok names d" using assms(1,2) by (rule group_of)
  obtain x where "f (PDict d) (KS n) = Inr x" "numeric x"
    using assms(3) sumItems_ok [OF d(2) assms(4)] avgItems_ok [OF d(2) assms(4)] sum_value_numeric by blast
  with setStat_ok [OF assms(1,2) _ \<open>numeric x\<close>] d show ?thesis by (simp add: statOf_def)
qed

lemma groups: "is_group inverters sixItems [''Eday'']" "is_group optimizers threeItems []"
  by (simp_all add: is_group_def)

lemma statEday_ok:
  assumes "stateFile_ok st"
  shows "\<exists>st'. statEday st = Inr st' \<and> stateFile_ok st'"
proof -
  obtain d where d: "getitem st inverters = Inr (PDict d)" "devices_ok sixItems d" "stats_ok [''Eday''] d"
    using assms groups(1) by (rule group_of)
  obtain x where x: "sumItems (PDict d) (KS ''Eday'') = Inr x" "numeric x"
    using sumItems_ok [OF d(2), of "''Eday''"] sum_value_numeric by (auto simp: sixItems_def)
  obtain s old where s: "dget d statsKey = Some (PDict s)" "dget s (KS ''Eday'') = Some old" "numeric old"
    using d(3) by (auto simp: stats_ok_def)
  obtain g where "py_gt x old = Inr g"
    using x(2) s(3) by (auto simp: py_gt_def numeric_def)
  then show ?thesis
    using d(1) x s assms setStat_ok [OF assms groups(1) refl x(2)]
    by (simp add: statEday_def dlookup_def)
qed

lemma computeStats_ok:
  assumes "stateFile_ok st"
  shows "\<exists>st'. computeStats st = Inr st' \<and> stateFile_ok st'"
proof -
  note inv = statOf_ok [OF _ groups(1)] and opt = statOf_ok [OF _ groups(2)]
  obtain s1 where s1: "statOf avgItems inverters ''Vac'' st = Inr s1" "stateFile_ok s1"
    using inv [OF assms, of avgItems "''Vac''"] by (auto simp: sixItems_def)
  obtain s2 where s2: "statOf sumItems inverters ''Pac'' s1 = Inr s2" "stateFile_ok s2"
    using inv [OF s1(2), of sumItems "''Pac''"] by (auto simp: sixItems_def)
  obtain s3 where s3: "statOf sumItems inverters ''Eac'' s2 = Inr s3" "stateFile_ok s3"
    using inv [OF s2(2), of sumItems "''Eac''"] by (auto simp: sixItems_def)
  obtain s4 where s4: "statEday s3 = Inr s4" "stateFile_ok s4" using statEday_ok [OF s3(2)] by blast
  obtain s5 where s5: "statOf sumItems inverters ''Etot'' s4 = Inr s5" "stateFile_ok s5"
    using inv [OF s4(2), of sumItems "''Etot''"] by (auto simp: sixItems_def)
  obtain s6 where s6: "statOf avgItems inverters ''Temp'' s5 = Inr s6" "stateFile_ok s6"
    using inv [OF s5(2), of avgItems "''Temp''"] by (auto simp: sixItems_def)
  show ?thesis
    using opt [OF s6(2), of avgItems "''Temp''"]
    by (simp add: computeStats_def s1 s2 s3 s4 s5 s6 threeItems_def)
qed

lemma floats_dput:
  assumes "floats names (PDict d)" and "n \<notin> set names \<or> (\<exists>x. v = PFloat x)"
  shows "floats names (PDict (dput (KS n) v d))"
  using assms by (auto simp: floats_def)

definition has :: "pyval \<Rightarrow> pykey \<Rightarrow> bool" where
  "has v k \<longleftrightarrow> (\<exists>x. getitem v k = Inr x)"

lemma has_PDict: "has (PDict d) k \<longleftrightarrow> k \<in> set (dkeys d)"
  by (simp add: has_def state_simps pd.keys_get)

lemma for_each_group:
  assumes "group_ok names req v" and "\<forall>k \<in> set ks. has v k"
    and "\<And>k w. group_ok names req w \<Longrightarrow> has w k \<Longrightarrow>
      \<exists>w'. f k w = Inr w' \<and> group_ok names req w' \<and> (\<forall>k. has w k \<longrightarrow> has w' k)"
  shows "\<exists>v'. for_each f ks v = Inr v' \<and> group_ok names req v'"
  using assms(1,2)
proof (induction ks arbitrary: v)
  case (Cons k ks)
  obtain w where w: "f k v = Inr w" "group_ok names req w" "\<forall>k. has v k \<longrightarrow> has w k"
    using assms(3) [OF Cons.prems(1), of k] Cons.prems(2) by auto
  then show ?case using Cons.IH [OF w(2)] Cons.prems(2) by simp
qed simp

lemma setPower_ok:
  assumes "group_ok threeItems [] v" and "has v k"
  shows "\<exists>v'. setPower k v = Inr v' \<and> group_ok threeItems [] v' \<and> (\<forall>k. has v k \<longrightarrow> has v' k)"
proof (cases "k = statsKey")
  case False
  obtain d where d: "v = PDict d" "devices_ok threeItems d" "stats_ok [] d"
    using assms(1) by (auto simp: group_ok_def)
  obtain x where x: "dget d k = Some x" using assms(2) d(1) by (auto simp: has_def state_simps)
  then have fl: "floats threeItems x" using d(2) False by (simp add: devices_ok_def)
  then obtain a b where ab: "getitem x (KS ''Vmod'') = Inr (PFloat a)" "getitem x (KS ''Imod'') = Inr (PFloat b)"
    by (auto simp: floats_def threeItems_def path_get_single)
  then obtain e where e: "x = PDict e" by (auto simp: state_simps)
  have "floats threeItems (PDict (dput (KS ''Pdc'') (PFloat (fmul a b)) e))"
    using fl unfolding e by (intro floats_dput) (simp_all add: threeItems_def)
  then have "group_ok threeItems [] (PDict (dput k (PDict (dput (KS ''Pdc'') (PFloat (fmul a b)) e)) d))"
    using d(2,3) False by (auto simp: group_ok_def devices_ok_def stats_ok_def)
  then show ?thesis
    using ab False by (simp add: setPower_def d(1) inside_def dlookup_def x e has_PDict pd.keys_put)
qed (use assms in \<open>simp add: setPower_def\<close>)

lemma optimizerPower_ok:
  assumes "group_ok threeItems [] v"
  shows "\<exists>v'. optimizerPower v = Inr v' \<and> group_ok threeItems [] v'"
proof -
  obtain d where d: "v = PDict d" using assms by (auto simp: group_ok_def)
  have "\<exists>v'. for_each setPower (dkeys d) v = Inr v' \<and> group_ok threeItems [] v'"
    using assms by (rule for_each_group) (simp_all add: d has_PDict setPower_ok)
  then show ?thesis by (simp add: optimizerPower_def dict_keys_def d)
qed

lemma zero_items:
  "for_each (\<lambda>n. setitem (KS n) zero) ns (PDict d) = Inr (PDict (dupdate (map (\<lambda>n. (KS n, zero)) ns) d))"
  by (induction ns arbitrary: d) (simp_all add: dupdate_Cons)

lemma dget_zeroed:
  "dget (dupdate (map (\<lambda>n. (KS n, zero)) ns) d) (KS m) = (if m \<in> set ns then Some zero else dget d (KS m))"
  by (induction ns arbitrary: d) (auto simp: dupdate_Cons)

lemma zeroDevice_ok:
  assumes "group_ok names req v" and "has v k" and "names \<noteq> []"
  shows "\<exists>v'. inside k (for_each (\<lambda>n. setitem (KS n) zero) ns) v = Inr v' \<and> group_ok names req v' \<and>
    (\<forall>k. has v k \<longrightarrow> has v' k)"
proof -
  obtain d s where d: "v = PDict d" "devices_ok names d" "dget d statsKey = Some (PDict s)"
      "\<forall>n \<in> set req. \<exists>v. dget s (KS n) = Some v \<and> numeric v"
    using assms(1) by (auto simp: group_ok_def stats_ok_def)
  obtain x where x: "dget d k = Some x" using assms(2) d(1) by (auto simp: has_def state_simps)
  have "\<exists>e. x = PDict e"
  proof (cases "k = statsKey")
    case True
    then show ?thesis using d(3) x by auto
  next
    case False
    then have "floats names x" using d(2) x by (simp add: devices_ok_def)
    then have "\<exists>y. path_get [KS (hd names)] x = Some y" using assms(3) by (auto simp: floats_def)
    then show ?thesis by (cases x) auto
  qed
  then obtain e where e: "x = PDict e" by blast
  let ?e = "dupdate (map (\<lambda>n. (KS n, zero)) ns) e"
  have "floats names (PDict ?e)" if "k \<noteq> statsKey"
  proof -
    have "floats names (PDict e)" using d(2) x that by (simp add: devices_ok_def e)
    moreover have "\<exists>x. zero = PFloat x" by (simp add: zero_def)
    ultimately show ?thesis by (auto simp: floats_def dget_zeroed split: option.splits)
  qed
  moreover have "numeric zero" by (simp add: numeric_def zero_def)
  ultimately have "group_ok names req (PDict (dput k (PDict ?e) d))"
    using d x by (auto simp: group_ok_def devices_ok_def stats_ok_def dget_zeroed e)
  then show ?thesis by (simp add: inside_def d(1) dlookup_def x e zero_items has_PDict pd.keys_put)
qed

lemma zeroDevices_ok:
  assumes "group_ok names req v" and "names \<noteq> []"
  shows "\<exists>v'. zeroDevices ns v = Inr v' \<and> group_ok names req v'"
proof -
  obtain d where d: "v = PDict d" using assms(1) by (auto simp: group_ok_def)
  have "\<exists>v'. for_each (\<lambda>k. inside k (for_each (\<lambda>n. setitem (KS n) zero) ns)) (dkeys d) v = Inr v' \<and>
      group_ok names req v'"
    using assms(1) by (rule for_each_group) (simp_all add: d has_PDict zeroDevice_ok assms(2))
  then show ?thesis by (simp add: zeroDevices_def dict_keys_def d)
qed

lemma item_lists [simp]: "sixItems \<noteq> []" "threeItems \<noteq> []"
  by (simp_all add: sixItems_def threeItems_def)

lemma updateValues_ok:
  assumes "stateFile_ok st" and "is_group grp names req" and "input_ok v"
  shows "\<exists>st'. updateValues grp v st = Inr st' \<and> stateFile_ok st'"
proof -
  obtain e where e: "path_get [grp] v = Some (PDict e)" "dget e statsKey = None" "dwf e" "devices_ok names e"
    using assms(2,3) by (auto simp: input_ok_def is_group_def)
  then have "getitem v grp = Inr (PDict e)" by (simp only: path_get_single)
  with in_group [OF assms(1,2) group_update [OF _ e(2-4)]] show ?thesis
    by (simp add: updateValues_def)
qed

lemma zeroOnEvent_ok:
  assumes "stateFile_ok st" and "input_ok v"
  shows "\<exists>st'. zeroOnEvent v st = Inr st' \<and> stateFile_ok st'"
proof -
  obtain ev where "path_get [KS ''events''] v = Some (PDict ev)" using assms(2) by (auto simp: input_ok_def)
  then have ev: "getitem v (KS ''events'') = Inr (PDict ev)" by (simp only: path_get_single)
  obtain s1 where s1: "inside inverters (zeroDevices [''Eac'', ''Pac'']) st = Inr s1" "stateFile_ok s1"
    using in_group [OF assms(1) groups(1), of "zeroDevices [''Eac'', ''Pac'']"] zeroDevices_ok by fastforce
  obtain s2 where "inside optimizers (zeroDevices [''Vmod'', ''Vopt'', ''Imod'']) s1 = Inr s2" "stateFile_ok s2"
    using in_group [OF s1(2) groups(2), of "zeroDevices [''Vmod'', ''Vopt'', ''Imod'']"] zeroDevices_ok by fastforce
  with s1 assms(1) show ?thesis by (simp add: zeroOnEvent_def ev py_len_def)
qed

lemma stateStep_ok:
  assumes "stateFile_ok st" and "input_ok v"
  shows "\<exists>st'. stateStep v st = Inr st' \<and> stateFile_ok st'"
proof -
  obtain s1 where s1: "updateValues inverters v st = Inr s1" "stateFile_ok s1"
    using updateValues_ok [OF assms(1) groups(1) assms(2)] by blast
  obtain s2 where s2: "updateValues optimizers v s1 = Inr s2" "stateFile_ok s2"
    using updateValues_ok [OF s1(2) groups(2) assms(2)] by blast
  obtain s3 where s3: "inside optimizers optimizerPower s2 = Inr s3" "stateFile_ok s3"
    using in_group [OF s2(2) groups(2), of optimizerPower] optimizerPower_ok by blast
  obtain s4 where s4: "computeStats s3 = Inr s4" "stateFile_ok s4" using computeStats_ok [OF s3(2)] by blast
  show ?thesis
    using zeroOnEvent_ok [OF s4(2) assms(2)] by (simp add: stateStep_def s1 s2 s3 s4)
qed

text \<open>
  On well-formed input (single-phase inverters and optimizers with all their items, and no
  device called \<open>stats\<close>) the script handles every line: it never ends with an exception, writes one
  state for each line, and each is fit for the next step.
\<close>

theorem state_never_dies:
  assumes "stateFile_ok st" and "\<forall>l \<in> set ls. \<exists>v. loads l = Inr v \<and> input_ok v"
  shows "\<exists>sts. stateLoop loads ls st = (sts, None) \<and> length sts = length ls \<and> list_all stateFile_ok sts"
  using assms
proof (induction ls arbitrary: st)
  case (Cons l ls)
  obtain v where v: "loads l = Inr v" "input_ok v" using Cons.prems(2) by auto
  obtain st' where st': "stateStep v st = Inr st'" "stateFile_ok st'"
    using stateStep_ok [OF Cons.prems(1) v(2)] by blast
  obtain sts where "stateLoop loads ls st' = (sts, None)" "length sts = length ls" "list_all stateFile_ok sts"
    using Cons.IH [OF st'(2)] Cons.prems(2) by auto
  then show ?case using v st' by simp
qed simp

text \<open>The initial state is well-formed, unless an inverter is called \<^verbatim>\<open>Eday\<close>.\<close>

lemma initialState_ok:
  assumes "''Eday'' \<notin> set ids"
  shows "stateFile_ok (initialState ids)"
proof -
  let ?s = "dupdate (map (\<lambda>i. (KS i, PDict zeroStats)) ids) zeroStats"
  have "dget (map (\<lambda>i. (KS i, PDict zeroStats)) ids) (KS ''Eday'') = None"
    using assms by (auto simp: dget_def map_of_eq_None_iff)
  then have "dget ?s (KS ''Eday'') = Some zero"
    by (simp add: dget_dupdate_other) (simp add: dget_def zeroStats_def)
  then show ?thesis
    by (auto simp: stateFile_ok_def initialState_def dget_Cons group_ok_def devices_ok_def stats_ok_def
      numeric_def zero_def)
qed

theorem state_never_dies_witness:
  "\<exists>sts. stateLoop sampleLoads [''1'', ''2''] (initialState [''7E1'']) = (sts, None) \<and> length sts = 2"
proof -
  have "stateFile_ok (initialState [''7E1''])" by (rule initialState_ok) simp
  moreover have "input_ok (sampleInput e)" for e
    by (auto simp: input_ok_def sampleInput_def sampleDevice_def dget_Cons dwf_def devices_ok_def floats_def
      sixItems_def threeItems_def statsKey_def inverters_def optimizers_def)
  ultimately show ?thesis
    using state_never_dies [of "initialState [''7E1'']" "[''1'', ''2'']" sampleLoads]
    by (auto simp: sampleLoads_def)
qed

subsection \<open>Missing items\<close>

lemma for_each_each: "for_each f ks s = Inr s' \<Longrightarrow> k \<in> set ks \<Longrightarrow> \<exists>t t'. f k t = Inr t'"
proof (induction ks arbitrary: s)
  case (Cons a ks)
  obtain s1 where "f a s = Inr s1" "for_each f ks s1 = Inr s'" using Cons.prems(1) by (auto simp: res_simps)
  then show ?case using Cons.IH Cons.prems(2) by (cases "k = a") auto
qed simp

lemma sumItems_needs:
  assumes "sumItems (PDict d) a = Inr x" and "dget d k = Some v" and "k \<noteq> statsKey"
  shows "path_get [a] v \<noteq> None"
proof -
  have "k \<in> set (dkeys d)" using assms(2) by (simp add: pd.keys_get)
  moreover have "for_each (addItem (PDict d) a) (dkeys d) (PInt 0) = Inr x"
    using assms(1) by (simp add: sumItems_def dict_keys_def)
  ultimately obtain t t' where "addItem (PDict d) a k t = Inr t'" by (metis for_each_each)
  then obtain y where "getitem v a = Inr y"
    using assms(2,3) by (auto simp: addItem_def res_simps state_simps)
  then show ?thesis by (simp add: path_get_single [symmetric])
qed

lemma avgItems_needs:
  "avgItems (PDict d) a = Inr x \<Longrightarrow> dget d k = Some v \<Longrightarrow> k \<noteq> statsKey \<Longrightarrow> path_get [a] v \<noteq> None"
  unfolding avgItems_def rbind_eq_Inr_iff using sumItems_needs by blast

lemma agrees_needs:
  assumes "agrees f grp n st" and "f = sumItems \<or> f = avgItems"
    and "path_get [grp, k] st = Some v" and "k \<noteq> statsKey"
  shows "path_get [KS n] v \<noteq> None"
proof -
  obtain d x where d: "path_get [grp] st = Some (PDict d)" "f (PDict d) (KS n) = Inr x"
    using assms(1) by (auto simp: agrees_def)
  have "dget d k = Some v" using assms(3) d(1) by (cases st) (auto split: option.splits)
  with d(2) assms(2,4) sumItems_needs avgItems_needs show ?thesis by blast
qed

lemma computeStats_needs_eday:
  assumes "computeStats st = Inr st'" and "path_get [inverters, k] st = Some v" and "k \<noteq> statsKey"
  shows "path_get [KS ''Eday''] v \<noteq> None"
proof -
  obtain s1 s2 s3 s4 where run:
    "statOf avgItems inverters ''Vac'' st = Inr s1" "statOf sumItems inverters ''Pac'' s1 = Inr s2"
    "statOf sumItems inverters ''Eac'' s2 = Inr s3" "statEday s3 = Inr s4"
    using assms(1) unfolding computeStats_def rbind_eq_Inr_iff by blast
  obtain d x where d: "getitem s3 inverters = Inr (PDict d)" "sumItems (PDict d) (KS ''Eday'') = Inr x"
    using run(4) by (auto simp: statEday_def res_simps state_simps sumItems_def)
  have "path_get [inverters, k] s3 = path_get [inverters, k] st"
    using run(1-3) assms(3) by (auto simp: statOf_def state_simps)
  then have "dget d k = Some v" using assms(2) d(1) by (auto simp: state_simps split: option.splits)
  with d(2) assms(3) show ?thesis by (metis sumItems_needs)
qed

text \<open>
  An inverter without one of the six items that the statistics read ends the script with an
  exception.  Three-phase inverters are such: their parser produces a voltage for each phase and no
  item \<open>Vac\<close>.
\<close>

theorem state_missing_item:
  assumes "path_get [inverters] inDict = Some (PDict e)" and "dwf e"
    and "dget e k = Some v" and "k \<noteq> statsKey" and "n \<in> set sixItems" and "path_get [KS n] v = None"
  shows "\<exists>exn. stateStep inDict st = Inl exn"
proof (cases "stateStep inDict st")
  case (Inr st')
  obtain s1 s2 s3 s4 where run: "updateValues inverters inDict st = Inr s1"
    "updateValues optimizers inDict s1 = Inr s2" "inside optimizers optimizerPower s2 = Inr s3"
    "computeStats s3 = Inr s4"
    using Inr unfolding stateStep_def rbind_eq_Inr_iff by blast
  have v3: "path_get [inverters, k] s3 = Some v"
    using other_group(2) [OF run(3)] other_group(1) [OF run(2)] updateValues_inverters [OF run(1) assms(1,2)]
      assms(3) by simp
  then have v4: "path_get [inverters, k] s4 = Some v"
    using computeStats_device [OF run(4) assms(4)] by simp
  have "path_get [KS n] v \<noteq> None"
    using computeStats_agree [OF run(4)] agrees_needs [OF _ _ v4 assms(4)]
      computeStats_needs_eday [OF run(4) v3 assms(4)] assms(5)
    by (auto simp: sixItems_def statistics_agree_def stat_shows_iff simp del: path_get.simps)
  with assms(6) show ?thesis by simp
qed simp

theorem state_missing_item_witness:
  "\<exists>exn. stateStep (PDict [(inverters, PDict [(KS ''7E1'', PDict [(KS ''Vac1'', zero)])])]) (initialState []) = Inl exn"
proof -
  let ?e = "[(KS ''7E1'', PDict [(KS ''Vac1'', zero)])]"
  have "path_get [inverters] (PDict [(inverters, PDict ?e)]) = Some (PDict ?e)" "dwf ?e"
    "dget ?e (KS ''7E1'') = Some (PDict [(KS ''Vac1'', zero)])" "KS ''7E1'' \<noteq> statsKey"
    "''Vac'' \<in> set sixItems" "path_get [KS ''Vac''] (PDict [(KS ''Vac1'', zero)]) = None"
    by (simp_all add: dwf_def dget_def statsKey_def sixItems_def)
  then show ?thesis by (rule state_missing_item)
qed

end
