(* ===== verification/Report.thy ===== *)
theory Report
  imports Graphite
begin

text \<open>
  \<^verbatim>\<open>utilities/seprint.py\<close>, which prints the main items of the devices of every line.  The result is
  the lines printed and the exception that ends the program.
\<close>

definition textItem :: "string \<Rightarrow> pyval \<Rightarrow> string res" where
  "textItem name d = rbind (getitem d (KS name)) (\<lambda>v. case v of PStr s \<Rightarrow> Inr s | _ \<Rightarrow> Inl TypeError)"

definition numItem :: "string \<Rightarrow> nat \<Rightarrow> pyval \<Rightarrow> string res" where
  "numItem name w d = rbind (getitem d (KS name)) (\<lambda>v. rbind (format2 w v) (\<lambda>s. Inr (name @ '':'' @ s)))"

definition dateTimeId :: "pykey \<Rightarrow> pyval \<Rightarrow> string res" where
  "dateTimeId k d = rbind (textItem ''Date'' d) (\<lambda>date. rbind (textItem ''Time'' d) (\<lambda>time.
     Inr (''  '' @ date @ '' '' @ time @ '' '' @ key_text k)))"

definition inverterLine :: "pykey \<Rightarrow> pyval \<Rightarrow> string res" where
  "inverterLine k d = rbind (dateTimeId k d) (\<lambda>s.
     rbind (numItem ''Eday'' 9 d) (\<lambda>e. rbind (numItem ''Pac'' 7 d) (\<lambda>p. rbind (numItem ''Vac'' 6 d) (\<lambda>v.
     Inr (s @ '' '' @ e @ '' '' @ p @ '' '' @ v)))))"

definition optimizerLine :: "pykey \<Rightarrow> pyval \<Rightarrow> string res" where
  "optimizerLine k d = rbind (dateTimeId k d) (\<lambda>s. rbind (numItem ''Eday'' 7 d) (\<lambda>e. Inr (s @ '' '' @ e)))"

text \<open>A section with its heading, which an empty group does not have.\<close>

definition printed :: "string res \<Rightarrow> string list \<times> pyexn option" where
  "printed r = (case r of Inl e \<Rightarrow> ([], Some e) | Inr s \<Rightarrow> ([s], None))"

definition reportGroup ::
  "pyval \<Rightarrow> string \<Rightarrow> string \<Rightarrow> (pykey \<Rightarrow> pyval \<Rightarrow> string res) \<Rightarrow> string list \<times> pyexn option" where
  "reportGroup inDict grp title line = (case getitem inDict (KS grp) of
       Inl e \<Rightarrow> ([], Some e)
     | Inr v \<Rightarrow> if v = PDict [] then ([], None)
         else gen_then ([title], None) (case v of
             PDict d \<Rightarrow> gen_each (\<lambda>k. printed (rbind (getitem v k) (line k))) (sort (dkeys d))
           | _ \<Rightarrow> ([], Some AttributeError)))"

definition reportLine :: "pyval \<Rightarrow> string list \<times> pyexn option" where
  "reportLine inDict =
     gen_then (reportGroup inDict ''inverters'' ''Inverters'' inverterLine)
       (gen_then (reportGroup inDict ''optimizers'' ''Optimizers'' optimizerLine)
          (reportGroup inDict ''events'' ''Events'' dateTimeId))"

fun reportMain :: "(string \<Rightarrow> pyval res) \<Rightarrow> string list \<Rightarrow> string list \<times> pyexn option" where
  "reportMain loads [] = ([], None)"
| "reportMain loads (l # ls) =
     (if l = [] then ([], None)
      else (case loads l of
          Inl e \<Rightarrow> ([], Some e)
        | Inr v \<Rightarrow> gen_then (reportLine v) (reportMain loads ls)))"

subsection \<open>Devices and lines\<close>

text \<open>A group whose lines can all be built is printed completely, one line for each device, sorted.\<close>

lemma reportGroup_complete:
  assumes "getitem inDict (KS grp) = Inr (PDict d)" and "d \<noteq> []"
    and "\<And>k v. dget d k = Some v \<Longrightarrow> line k v = Inr (text k)"
  shows "reportGroup inDict grp title line = (title # map text (sort (dkeys d)), None)"
proof -
  have "gen_each (\<lambda>k. printed (rbind (getitem (PDict d) k) (line k))) (sort (dkeys d)) =
      (concat (map (\<lambda>k. [text k]) (sort (dkeys d))), None)"
  proof (rule gen_each_ok)
    fix k
    assume "k \<in> set (sort (dkeys d))"
    then have "dget d k \<noteq> None" by (simp add: pd.keys_get)
    then show "printed (rbind (getitem (PDict d) k) (line k)) = ([text k], None)"
      using assms(3) by (auto simp: printed_def dlookup_def)
  qed
  moreover have "concat (map (\<lambda>k. [text k]) ks) = map text ks" for ks by (induction ks) simp_all
  ultimately show ?thesis using assms(1,2) by (simp add: reportGroup_def)
qed

text \<open>
  Without the item \<open>Vac\<close>, as three-phase inverters are, there is no line: the report ends.
\<close>

lemma inverterLine_three_phase:
  "getitem d (KS ''Vac'') = Inl KeyError \<Longrightarrow> inverterLine k d = Inr s \<Longrightarrow> False"
  by (auto simp: inverterLine_def numItem_def rbind_eq_Inr_iff)

end
