(* ===== verification/GetOpt.thy ===== *)
theory GetOpt
  imports Graphite Mqtt Env StateSafe Report
begin

text \<open>
  The command lines of the scripts under \<^verbatim>\<open>conversion/\<close> that use \<^verbatim>\<open>getopt\<close>: \<^verbatim>\<open>se2state.py\<close>,
  \<^verbatim>\<open>se2graphite.py\<close>, \<^verbatim>\<open>pickle2graphite.py\<close> and \<^verbatim>\<open>se2MQTT.py\<close>.  \<open>getopt\<close> is that of the standard library
  for short options.
\<close>

subsection \<open>The library\<close>

datatype getopt_error = NotRecognized string | RequiresArgument char

fun short_has_arg :: "char \<Rightarrow> string \<Rightarrow> getopt_error + bool" where
  "short_has_arg c [] = Inl (NotRecognized [c])"
| "short_has_arg c (x # xs) =
     (if c = x \<and> x \<noteq> CHR '':'' then Inr (take 1 xs = '':'') else short_has_arg c xs)"

fun do_shorts :: "string \<Rightarrow> string \<Rightarrow> string list \<Rightarrow> getopt_error + (string \<times> string) list \<times> string list" where
  "do_shorts spec [] args = Inr ([], args)"
| "do_shorts spec (c # s) args =
     (case short_has_arg c spec of
        Inl e \<Rightarrow> Inl e
      | Inr False \<Rightarrow> (case do_shorts spec s args of
            Inl e \<Rightarrow> Inl e | Inr (opts, rest) \<Rightarrow> Inr ((CHR ''-'' # [c], []) # opts, rest))
      | Inr True \<Rightarrow>
          (if s \<noteq> [] then Inr ([(CHR ''-'' # [c], s)], args)
           else case args of [] \<Rightarrow> Inl (RequiresArgument c) | a # rest \<Rightarrow> Inr ([(CHR ''-'' # [c], a)], rest)))"

lemma do_shorts_shorter: "do_shorts spec s args = Inr (opts, rest) \<Longrightarrow> length rest \<le> length args"
  by (induction spec s args arbitrary: opts rule: do_shorts.induct)
    (auto split: sum.splits bool.splits if_splits list.splits prod.splits)

text \<open>Options end at the first argument that is not one; there are no long options.\<close>

definition operand :: "string \<Rightarrow> bool" where
  "operand a \<longleftrightarrow> take 1 a \<noteq> ''-'' \<or> a = ''-''"

function getopt :: "string \<Rightarrow> string list \<Rightarrow> getopt_error + (string \<times> string) list \<times> string list" where
  "getopt spec [] = Inr ([], [])"
| "getopt spec (a # as) =
     (if operand a then Inr ([], a # as)
      else if a = ''--'' then Inr ([], as)
      else if take 2 a = ''--'' then Inl (NotRecognized (drop 2 a))
      else (case do_shorts spec (tl a) as of
          Inl e \<Rightarrow> Inl e
        | Inr (opts, rest) \<Rightarrow> (case getopt spec rest of
              Inl e \<Rightarrow> Inl e | Inr (opts', rest') \<Rightarrow> Inr (opts @ opts', rest'))))"
  by pat_completeness auto
termination
  by (relation "measure (\<lambda>(spec, args). length args)") (auto dest: do_shorts_shorter)

text \<open>
  An option can be written in two words or, when its argument is not empty, in one.
\<close>

datatype given = Switch char | Apart char string | Joined char string

fun words :: "given \<Rightarrow> string list" where
  "words (Switch c) = [CHR ''-'' # [c]]"
| "words (Apart c a) = [CHR ''-'' # [c], a]"
| "words (Joined c a) = [CHR ''-'' # c # a]"

fun meant :: "given \<Rightarrow> string \<times> string" where
  "meant (Switch c) = (CHR ''-'' # [c], [])"
| "meant (Apart c a) = (CHR ''-'' # [c], a)"
| "meant (Joined c a) = (CHR ''-'' # [c], a)"

fun allowed :: "string \<Rightarrow> given \<Rightarrow> bool" where
  "allowed spec (Switch c) \<longleftrightarrow> c \<noteq> CHR ''-'' \<and> short_has_arg c spec = Inr False"
| "allowed spec (Apart c a) \<longleftrightarrow> c \<noteq> CHR ''-'' \<and> short_has_arg c spec = Inr True"
| "allowed spec (Joined c a) \<longleftrightarrow> c \<noteq> CHR ''-'' \<and> a \<noteq> [] \<and> short_has_arg c spec = Inr True"

lemma getopt_given:
  assumes "list_all (allowed spec) os" and "list_all operand (take 1 args)"
  shows "getopt spec (concat (map words os) @ args) = Inr (map meant os, args)"
  using assms(1)
proof (induction os)
  case Nil
  then show ?case using assms(2) by (cases args) simp_all
next
  case (Cons g os)
  then show ?case by (cases g) (auto simp: operand_def)
qed

subsection \<open>The scripts\<close>

text \<open>\<^verbatim>\<open>open(args[0])\<close>, and standard input whatever goes wrong; \<open>openable\<close> tells which files exist.\<close>

datatype input = StandardInput | FileInput string

definition inFile :: "(string \<Rightarrow> bool) \<Rightarrow> string list \<Rightarrow> input" where
  "inFile openable args = (case args of
       [] \<Rightarrow> StandardInput
     | a # as \<Rightarrow> if openable a then FileInput a else StandardInput)"

datatype failure = BadOption getopt_error | NameError | Raises pyexn

record graphiteSettings =
  gbase :: string
  hostName :: string
  gport :: int
  keepOn :: bool

definition graphiteDefaults :: graphiteSettings where
  "graphiteDefaults = \<lparr>gbase = [], hostName = ''localhost'', gport = 2003, keepOn = False\<rparr>"

definition graphiteOption :: "string \<times> string \<Rightarrow> graphiteSettings \<Rightarrow> graphiteSettings res" where
  "graphiteOption opt s =
     (case opt of (o1, v) \<Rightarrow>
        if o1 = ''-b'' then Inr (s\<lparr>gbase := v @ ''.''\<rparr>)
        else if o1 = ''-h'' then Inr (s\<lparr>hostName := v\<rparr>)
        else if o1 = ''-p'' then rbind (py2_int v) (\<lambda>n. Inr (s\<lparr>gport := n\<rparr>))
        else Inr s)"

text \<open>\<^verbatim>\<open>pickle2graphite.py\<close> has another default port and one more option.\<close>

definition pickleDefaults :: graphiteSettings where
  "pickleDefaults = graphiteDefaults\<lparr>gport := 2004\<rparr>"

definition pickleOption :: "string \<times> string \<Rightarrow> graphiteSettings \<Rightarrow> graphiteSettings res" where
  "pickleOption opt s =
     (if fst opt = ''-f'' then Inr (s\<lparr>keepOn := True\<rparr>) else graphiteOption opt s)"

fun set_options :: "('o \<Rightarrow> 's \<Rightarrow> 's res) \<Rightarrow> 'o list \<Rightarrow> 's \<Rightarrow> 's res" where
  "set_options f [] s = Inr s"
| "set_options f (x # xs) s = rbind (f x s) (set_options f xs)"

definition scriptArgs ::
  "string \<Rightarrow> (string \<times> string \<Rightarrow> 's \<Rightarrow> 's res) \<Rightarrow> 's \<Rightarrow> (string \<Rightarrow> bool) \<Rightarrow> string list \<Rightarrow> failure + input \<times> 's" where
  "scriptArgs spec f s0 openable argv =
     (case getopt spec argv of
        Inl e \<Rightarrow> Inl (BadOption e)
      | Inr (opts, args) \<Rightarrow> (case set_options f opts s0 of
            Inl e \<Rightarrow> Inl (Raises e)
          | Inr s \<Rightarrow> Inr (inFile openable args, s)))"

definition graphiteArgs :: "(string \<Rightarrow> bool) \<Rightarrow> string list \<Rightarrow> failure + input \<times> graphiteSettings" where
  "graphiteArgs = scriptArgs ''b:h:p:'' graphiteOption graphiteDefaults"

definition pickleArgs :: "(string \<Rightarrow> bool) \<Rightarrow> string list \<Rightarrow> failure + input \<times> graphiteSettings" where
  "pickleArgs = scriptArgs ''b:fh:p:'' pickleOption pickleDefaults"

definition mqttOption :: "string \<times> string \<Rightarrow> mqttSettings \<Rightarrow> mqttSettings res" where
  "mqttOption opt s =
     (case opt of (o1, v) \<Rightarrow>
        Inr (if o1 = ''-c'' then s\<lparr>clientid := Some v\<rparr>
             else if o1 = ''-u'' then s\<lparr>mqttUser := Some v\<rparr>
             else if o1 = ''-p'' then s\<lparr>passwd := Some v\<rparr>
             else if o1 = ''-s'' then s\<lparr>server := Some v\<rparr>
             else if o1 = ''-t'' then s\<lparr>topic := Some v\<rparr>
             else s))"

definition mqttArgs :: "(string \<Rightarrow> bool) \<Rightarrow> string list \<Rightarrow> failure + input \<times> mqttSettings" where
  "mqttArgs = scriptArgs ''c:u:p:s:t:'' mqttOption
     \<lparr>clientid = None, mqttUser = None, passwd = None, server = None, topic = None\<rparr>"

text \<open>The runs of the scripts, with the contents of a file and of standard input as an argument.\<close>

definition graphiteScript ::
  "(int list \<Rightarrow> pyfloat res) \<Rightarrow> (string \<Rightarrow> pyval res) \<Rightarrow> (string \<Rightarrow> bool) \<Rightarrow> (input \<Rightarrow> string list) \<Rightarrow> string list \<Rightarrow>
     failure + (string \<times> int) \<times> string list \<times> outcome" where
  "graphiteScript mktime loads openable lines_of argv =
     (case graphiteArgs openable argv of
        Inl e \<Rightarrow> Inl e
      | Inr (inp, s) \<Rightarrow> Inr ((hostName s, gport s), graphiteMain mktime loads (gbase s) (lines_of inp)))"

definition pickleScript ::
  "(int list \<Rightarrow> pyfloat res) \<Rightarrow> (string \<Rightarrow> pyval res) \<Rightarrow> (metric list \<Rightarrow> bytes) \<Rightarrow> (string \<Rightarrow> bool) \<Rightarrow>
     (input \<Rightarrow> string list) \<Rightarrow> string list \<Rightarrow> failure + (string \<times> int) \<times> bytes list \<times> outcome" where
  "pickleScript mktime loads pickle openable lines_of argv =
     (case pickleArgs openable argv of
        Inl e \<Rightarrow> Inl e
      | Inr (inp, s) \<Rightarrow>
          Inr ((hostName s, gport s), pickleMain mktime loads pickle (gbase s) (keepOn s) (lines_of inp)))"

definition mqttScript ::
  "(string \<Rightarrow> pyval res) \<Rightarrow> (nat \<Rightarrow> bool) \<Rightarrow> (string \<Rightarrow> bool) \<Rightarrow> (input \<Rightarrow> string list) \<Rightarrow> string list \<Rightarrow>
     failure + (string \<times> pyval) list \<times> pyexn option" where
  "mqttScript loads broker openable lines_of argv =
     (case mqttArgs openable argv of
        Inl e \<Rightarrow> Inl e
      | Inr (inp, s) \<Rightarrow> Inr (mqttLoop loads s broker 0 (lines_of inp) mqttStart))"

text \<open>\<^verbatim>\<open>seprint.py\<close> takes the first word as the name of its file.\<close>

definition reportScript ::
  "(string \<Rightarrow> pyval res) \<Rightarrow> (string \<Rightarrow> bool) \<Rightarrow> (input \<Rightarrow> string list) \<Rightarrow> string list \<Rightarrow> string list \<times> pyexn option" where
  "reportScript loads openable lines_of argv = reportMain loads (lines_of (inFile openable argv))"

text \<open>
  \<^verbatim>\<open>se2state.py\<close>: the names \<^verbatim>\<open>inverters\<close>, \<^verbatim>\<open>outFileName\<close> and \<^verbatim>\<open>stateDict\<close> are undefined until they are
  assigned.  \<open>stored\<close> is what \<^verbatim>\<open>json.load\<close> gives for a file, nothing for one that cannot be opened.
  The result is the states written, with the name of the file, and the failure that ends the script.
\<close>

record stateSettings =
  initial :: "string list option"
  outFileName :: "string option"

definition stateOption :: "string \<times> string \<Rightarrow> stateSettings \<Rightarrow> stateSettings res" where
  "stateOption opt s =
     (case opt of (o1, v) \<Rightarrow>
        Inr (if o1 = ''-i'' then s\<lparr>initial := Some (split_on (CHR '','') v)\<rparr>
             else if o1 = ''-o'' then s\<lparr>outFileName := Some v\<rparr>
             else s))"

definition stateArgs :: "(string \<Rightarrow> bool) \<Rightarrow> string list \<Rightarrow> failure + input \<times> stateSettings" where
  "stateArgs = scriptArgs ''i:o:'' stateOption \<lparr>initial = None, outFileName = None\<rparr>"

definition as_failure :: "'a \<times> pyexn option \<Rightarrow> 'a \<times> failure option" where
  "as_failure r = (case r of (x, e) \<Rightarrow> (x, map_option Raises e))"

text \<open>The loop without a state: the first line is decoded before \<^verbatim>\<open>stateDict\<close> is looked up.\<close>

definition statelessLoop :: "(string \<Rightarrow> pyval res) \<Rightarrow> string list \<Rightarrow> pyval list \<times> failure option" where
  "statelessLoop loads ls = (case ls of
       [] \<Rightarrow> ([], None)
     | l # _ \<Rightarrow> ([], Some (case loads l of Inl e \<Rightarrow> Raises e | Inr v \<Rightarrow> NameError)))"

definition stateRun ::
  "(string \<Rightarrow> pyval res) \<Rightarrow> (string \<Rightarrow> pyval res option) \<Rightarrow> stateSettings \<Rightarrow> string list \<Rightarrow> pyval list \<times> failure option" where
  "stateRun loads stored s ls =
     (case outFileName s of
        None \<Rightarrow> ([], Some NameError)
      | Some name \<Rightarrow> (case initial s of
            Some ids \<Rightarrow> (case stateLoop loads ls (initialState ids) of
                (sts, e) \<Rightarrow> as_failure (initialState ids # sts, e))
          | None \<Rightarrow> (case stored name of
                None \<Rightarrow> statelessLoop loads ls
              | Some (Inl e) \<Rightarrow> ([], Some (Raises e))
              | Some (Inr st) \<Rightarrow> as_failure (stateLoop loads ls st))))"

definition stateScript ::
  "(string \<Rightarrow> pyval res) \<Rightarrow> (string \<Rightarrow> pyval res option) \<Rightarrow> (string \<Rightarrow> bool) \<Rightarrow> (input \<Rightarrow> string list) \<Rightarrow> string list \<Rightarrow>
     failure + pyval list \<times> failure option" where
  "stateScript loads stored openable lines_of argv =
     (case stateArgs openable argv of
        Inl e \<Rightarrow> Inl e
      | Inr (inp, s) \<Rightarrow> Inr (stateRun loads stored s (lines_of inp)))"

subsection \<open>The state file from the command line\<close>

abbreviation noSettings :: stateSettings where
  "noSettings \<equiv> \<lparr>initial = None, outFileName = None\<rparr>"

lemma scriptArgs_given:
  assumes "list_all (allowed spec) os" and "list_all operand (take 1 args)" and "set_options f (map meant os) s0 = Inr s"
  shows "scriptArgs spec f s0 openable (concat (map words os) @ args) = Inr (inFile openable args, s)"
  using getopt_given [OF assms(1,2)] assms(3) by (simp add: scriptArgs_def)




text \<open>
  Without \<^verbatim>\<open>-i\<close> and without a state file the script has no state: the first line ends it, as in the
  example of the documentation, and the file is never written.
\<close>

theorem state_script_no_file:
  assumes "list_all (allowed ''i:o:'') os" and "list_all operand (take 1 args)"
    and "set_options stateOption (map meant os) noSettings = Inr \<lparr>initial = None, outFileName = Some name\<rparr>"
    and "stored name = None" and "lines_of (inFile openable args) = l # ls" and "loads l = Inr v"
  shows "stateScript loads stored openable lines_of (concat (map words os) @ args) = Inr ([], Some NameError)"
  using scriptArgs_given [OF assms(1-3), of openable] assms(4-6)
  by (simp add: stateScript_def stateArgs_def stateRun_def statelessLoop_def)

end
