(* ===== verification/Csv.thy ===== *)
theory Csv
  imports Unwrap Effects
begin

text \<open>
  \<^verbatim>\<open>conversion/se2csv.py\<close>: one table for each type of device, whose columns are the items of the first
  device of that type.  A file is its columns and the rows written; the quoting of the cells is left
  to the \<^verbatim>\<open>csv\<close> module.  An exception ends the script with the rows written so far.
\<close>

subsection \<open>Sorting names and items\<close>

text \<open>
  Equality of decoded JSON values.  All \<^verbatim>\<open>NaN\<close>s of the decoder are one object, and containers
  compare identical objects as equal.
\<close>

fun val_eq :: "pyval \<Rightarrow> pyval \<Rightarrow> bool" and dict_sub :: "pydict \<Rightarrow> pydict \<Rightarrow> bool" where
  "val_eq (PDict a) w = (case w of PDict b \<Rightarrow> length a = length b \<and> dict_sub a b | _ \<Rightarrow> False)"
| "val_eq (PFloat x) w = (w = PFloat x \<or> pyeq (PFloat x) w)"
| "val_eq v w = pyeq v w"
| "dict_sub [] b = True"
| "dict_sub ((k, v) # a) b = ((case dget b k of None \<Rightarrow> False | Some w \<Rightarrow> val_eq v w) \<and> dict_sub a b)"

text \<open>
  \<^verbatim>\<open>sorted\<close> compares two pairs with the same name by their dictionaries, which have no order
  unless they are equal.
\<close>

fun clash :: "(string \<times> pydict) list \<Rightarrow> bool" where
  "clash [] = False"
| "clash ((n, d) # rest) = ((\<exists>(n', d') \<in> set rest. n' = n \<and> \<not> val_eq (PDict d) (PDict d')) \<or> clash rest)"

definition sorted_items :: "pydict \<Rightarrow> (string \<times> pydict) list res" where
  "sorted_items d = (case unwrap d of
       (items, Some e) \<Rightarrow> Inl e
     | (items, None) \<Rightarrow> if clash items then Inl TypeError else Inr (sort_key fst items))"

subsection \<open>Files\<close>

record csvfile =
  columns :: "pykey list"
  rows :: "pyval list list"

type_synonym csvfiles = "(string \<times> csvfile) list"

text \<open>\<^verbatim>\<open>baseName.split(".", 1)\<close>, which must give two parts.\<close>

fun split_dot :: "string \<Rightarrow> (string \<times> string) res" where
  "split_dot [] = Inl ValueError"
| "split_dot (c # s) = (if c = CHR ''.'' then Inr ([], s) else rbind (split_dot s) (\<lambda>(a, b). Inr (c # a, b)))"

definition idColumn :: pykey where
  "idColumn = KS ''__Identifier__''"

definition cell :: "pydict \<Rightarrow> pykey \<Rightarrow> pyval" where
  "cell attrs c = (case dget attrs c of None \<Rightarrow> PStr [] | Some v \<Rightarrow> v)"

definition newFile :: "bool \<Rightarrow> pydict \<Rightarrow> csvfile" where
  "newFile headers attrs = (let itemNames = idColumn # sort (dkeys attrs) in
     \<lparr>columns = itemNames, rows = (if headers then [map (\<lambda>c. PStr (key_text c)) itemNames] else [])\<rparr>)"

text \<open>\<^verbatim>\<open>writerow\<close> raises for items that have no column.\<close>

definition writerow :: "csvfile \<Rightarrow> pydict \<Rightarrow> csvfile res" where
  "writerow f attrs =
     (if list_all (\<lambda>k. k \<in> set (columns f)) (dkeys attrs)
      then Inr (f\<lparr>rows := rows f @ [map (cell attrs) (columns f)]\<rparr>) else Inl ValueError)"

definition with_id :: "string \<Rightarrow> pydict \<Rightarrow> pydict" where
  "with_id devId attrs = dput idColumn (PStr devId) attrs"

definition open_file :: "bool \<Rightarrow> string \<Rightarrow> pydict \<Rightarrow> csvfiles \<Rightarrow> csvfiles" where
  "open_file headers dev attrs files =
     (case dget files dev of None \<Rightarrow> dput dev (newFile headers attrs) files | Some f \<Rightarrow> files)"

definition csvItem :: "bool \<Rightarrow> string \<times> pydict \<Rightarrow> (csvfiles, unit) eff" where
  "csvItem headers item = sbind (lift (split_dot (fst item))) (\<lambda>(dev, devId).
     sbind (modify (open_file headers dev (snd item))) (\<lambda>_ files.
       case dget files dev of
         None \<Rightarrow> (Inl KeyError, files)
       | Some f \<Rightarrow> (case writerow f (with_id devId (snd item)) of
             Inl e \<Rightarrow> (Inl e, files)
           | Inr f' \<Rightarrow> (Inr (), dput dev f' files))))"

fun csvItems :: "bool \<Rightarrow> (string \<times> pydict) list \<Rightarrow> (csvfiles, unit) eff" where
  "csvItems headers [] = ret ()"
| "csvItems headers (it # items) = sbind (csvItem headers it) (\<lambda>_. csvItems headers items)"

text \<open>The decoder \<^verbatim>\<open>json.loads\<close> is an argument; only dictionaries have \<^verbatim>\<open>items()\<close>.\<close>

definition csvLine :: "(string \<Rightarrow> pyval res) \<Rightarrow> bool \<Rightarrow> string \<Rightarrow> (csvfiles, unit) eff" where
  "csvLine loads headers line =
     sbind (lift (rbind (loads line) (\<lambda>v. case v of PDict d \<Rightarrow> sorted_items d | _ \<Rightarrow> Inl AttributeError)))
       (csvItems headers)"

fun csvLines :: "(string \<Rightarrow> pyval res) \<Rightarrow> bool \<Rightarrow> string list \<Rightarrow> (csvfiles, unit) eff" where
  "csvLines loads headers [] = ret ()"
| "csvLines loads headers (l # ls) = sbind (csvLine loads headers l) (\<lambda>_. csvLines loads headers ls)"

subsection \<open>What the files hold\<close>

text \<open>The rows a list of items should give in the file of one type of device.\<close>

fun dev_rows :: "string \<Rightarrow> (string \<times> pydict) list \<Rightarrow> pydict list" where
  "dev_rows dev [] = []"
| "dev_rows dev ((n, attrs) # items) =
     (case split_dot n of
        Inr (d, devId) \<Rightarrow> if d = dev then with_id devId attrs # dev_rows dev items else dev_rows dev items
      | Inl e \<Rightarrow> dev_rows dev items)"

definition table_of :: "bool \<Rightarrow> csvfile \<Rightarrow> pydict list \<Rightarrow> bool" where
  "table_of headers f recs \<longleftrightarrow>
     rows f = (if headers then [map (\<lambda>c. PStr (key_text c)) (columns f)] else []) @
       map (\<lambda>r. map (cell r) (columns f)) recs \<and>
     (\<forall>r \<in> set recs. \<forall>k \<in> set (dkeys r). k \<in> set (columns f))"

text \<open>The files correspond to the items processed so far.\<close>

definition tables :: "bool \<Rightarrow> csvfiles \<Rightarrow> (string \<times> pydict) list \<Rightarrow> bool" where
  "tables headers files items \<longleftrightarrow>
     (\<forall>dev. case dget files dev of
        None \<Rightarrow> dev_rows dev items = []
      | Some f \<Rightarrow> table_of headers f (dev_rows dev items))"

lemma dev_rows_append: "dev_rows dev (xs @ ys) = dev_rows dev xs @ dev_rows dev ys"
  by (induction dev xs rule: dev_rows.induct) (auto split: sum.split)

lemma newFile_table: "table_of headers (newFile headers attrs) []"
  by (simp add: table_of_def newFile_def Let_def)

lemma writerow_table:
  "writerow f r = Inr f' \<Longrightarrow> table_of headers f recs \<Longrightarrow> table_of headers f' (recs @ [r])"
  by (auto simp: writerow_def table_of_def list_all_iff split: if_splits)

lemma csvItem_run:
  assumes "csvItem headers (n, attrs) files = (Inr u, files')"
  obtains dev devId f f' where "split_dot n = Inr (dev, devId)"
    and "f = (case dget files dev of None \<Rightarrow> newFile headers attrs | Some f \<Rightarrow> f)"
    and "writerow f (with_id devId attrs) = Inr f'"
    and "\<forall>d. dget files' d = (if d = dev then Some f' else dget files d)"
proof -
  obtain dev devId where sp: "split_dot n = Inr (dev, devId)"
    using assms by (auto simp: csvItem_def eff_simps)
  define f where "f = (case dget files dev of None \<Rightarrow> newFile headers attrs | Some f \<Rightarrow> f)"
  have f: "dget (open_file headers dev attrs files) dev = Some f"
    by (simp add: open_file_def f_def split: option.split)
  obtain f' where w: "writerow f (with_id devId attrs) = Inr f'"
      and files': "files' = dput dev f' (open_file headers dev attrs files)"
    using assms by (auto simp: csvItem_def sp f split: sum.splits)
  have "\<forall>d. dget files' d = (if d = dev then Some f' else dget files d)"
    by (simp add: files' open_file_def split: option.split)
  then show thesis by (rule that [OF sp f_def w])
qed

lemma csvItem_tables:
  assumes "csvItem headers it files = (Inr u, files')" and "tables headers files items"
  shows "tables headers files' (items @ [it])"
proof -
  obtain n attrs where it: "it = (n, attrs)" by (cases it)
  obtain dev devId f f' where run: "split_dot n = Inr (dev, devId)"
    "f = (case dget files dev of None \<Rightarrow> newFile headers attrs | Some f \<Rightarrow> f)"
    "writerow f (with_id devId attrs) = Inr f'"
    "\<forall>d. dget files' d = (if d = dev then Some f' else dget files d)"
    using assms(1) unfolding it by (rule csvItem_run)
  have "table_of headers f (dev_rows dev items)"
    using assms(2) run(2) newFile_table
    by (auto simp: tables_def split: option.splits dest!: spec [of _ dev])
  then have "table_of headers f' (dev_rows dev (items @ [it]))"
    using writerow_table [OF run(3)] run(1) by (simp add: it dev_rows_append)
  moreover have "case dget files d of None \<Rightarrow> dev_rows d (items @ [it]) = []
      | Some f \<Rightarrow> table_of headers f (dev_rows d (items @ [it]))" if "d \<noteq> dev" for d
  proof -
    have "dev_rows d (items @ [it]) = dev_rows d items"
      using that run(1) by (simp add: it dev_rows_append)
    then show ?thesis using assms(2) unfolding tables_def by metis
  qed
  ultimately show ?thesis
    unfolding tables_def run(4) [rule_format] by simp
qed

lemma csvItems_tables:
  "csvItems headers its files = (Inr u, files') \<Longrightarrow> tables headers files items \<Longrightarrow>
     tables headers files' (items @ its)"
proof (induction its arbitrary: files items)
  case (Cons it its)
  then obtain files1 where run: "csvItem headers it files = (Inr (), files1)"
      "csvItems headers its files1 = (Inr u, files')"
    by (auto simp: eff_simps)
  show ?case using Cons.IH [OF run(2) csvItem_tables [OF run(1) Cons.prems(2)]] by simp
qed (simp add: ret_def)

text \<open>The items of a list of input lines, as far as they can be decoded.\<close>

fun line_items :: "(string \<Rightarrow> pyval res) \<Rightarrow> string list \<Rightarrow> (string \<times> pydict) list" where
  "line_items loads [] = []"
| "line_items loads (l # ls) =
     (case loads l of
        Inr (PDict d) \<Rightarrow> sort_key fst (fst (unwrap d)) @ line_items loads ls
      | _ \<Rightarrow> line_items loads ls)"

lemma csvLine_tables:
  assumes "csvLine loads headers l files = (Inr u, files')" and "tables headers files items"
  shows "tables headers files' (items @ line_items loads [l])"
proof -
  obtain d its where d: "loads l = Inr (PDict d)" and its: "sorted_items d = Inr its"
    and run: "csvItems headers its files = (Inr u, files')"
    using assms(1) by (cases "loads l"; cases "case loads l of Inr v \<Rightarrow> v") (auto simp: csvLine_def eff_simps res_simps)
  have "its = sort_key fst (fst (unwrap d))"
    using its by (auto simp: sorted_items_def split: prod.splits option.splits if_splits)
  then show ?thesis using csvItems_tables [OF run assms(2)] by (simp add: d)
qed

lemma line_items_Cons: "line_items loads (l # ls) = line_items loads [l] @ line_items loads ls"
  by (simp split: sum.split pyval.split)

lemma csvLines_tables:
  "csvLines loads headers ls files = (Inr u, files') \<Longrightarrow> tables headers files items \<Longrightarrow>
     tables headers files' (items @ line_items loads ls)"
proof (induction ls arbitrary: files items)
  case (Cons l ls)
  then obtain files1 where run: "csvLine loads headers l files = (Inr (), files1)"
      "csvLines loads headers ls files1 = (Inr u, files')"
    by (auto simp: eff_simps)
  show ?case
    using Cons.IH [OF run(2) csvLine_tables [OF run(1) Cons.prems(2)]]
    by (simp only: line_items_Cons [of _ l ls] append_assoc)
qed (simp add: ret_def)

text \<open>
  C33.  When the conversion to CSV finishes, the file of each type of device holds, after the header
  if one is wanted, one row for each device of that type in the input, in input order (by name within
  a line), with the value of every column; and every item of every device has its column, so that
  nothing of the input is missing.
\<close>

theorem csv_complete:
  assumes "csvLines loads headers ls [] = (Inr u, files)"
  shows "case dget files dev of
           None \<Rightarrow> dev_rows dev (line_items loads ls) = []
         | Some f \<Rightarrow> table_of headers f (dev_rows dev (line_items loads ls))"
  using csvLines_tables [OF assms, of "[]"] by (simp add: tables_def)

definition csv_loads :: "string \<Rightarrow> pyval res" where
  "csv_loads l = Inr (PDict [(KS ''meters'', PDict [(KS l, PDict [(KS ''Date'', PStr ''d''), (KS ''E'', PInt 1)])])])"

theorem csv_complete_witness:
  "\<exists>f. dget (snd (csvLines csv_loads True [''8'', ''9''] [])) ''meters'' = Some f \<and>
     rows f = [[PStr ''__Identifier__'', PStr ''Date'', PStr ''E''],
               [PStr ''8'', PStr ''d'', PInt 1], [PStr ''9'', PStr ''d'', PInt 1]]"
proof -
  define files where "files = snd (csvLines csv_loads True [''8'', ''9''] [])"
  have run: "csvLines csv_loads True [''8'', ''9''] [] = (Inr (), files)"
    unfolding files_def by code_simp
  have recs: "dev_rows ''meters'' (line_items csv_loads [''8'', ''9''])
      = [with_id i [(KS ''Date'', PStr ''d''), (KS ''E'', PInt 1)]. i \<leftarrow> [''8'', ''9'']]"
    by code_simp
  have cols: "map_option columns (dget files ''meters'') = Some [idColumn, KS ''Date'', KS ''E'']"
    unfolding files_def by code_simp
  then obtain f where f: "dget files ''meters'' = Some f" and c: "columns f = [idColumn, KS ''Date'', KS ''E'']"
    by auto
  have "table_of True f [with_id i [(KS ''Date'', PStr ''d''), (KS ''E'', PInt 1)]. i \<leftarrow> [''8'', ''9'']]"
    using csv_complete [OF run, of "''meters''"] by (simp only: f recs option.case)
  then have "rows f = [[PStr ''__Identifier__'', PStr ''Date'', PStr ''E''],
      [PStr ''8'', PStr ''d'', PInt 1], [PStr ''9'', PStr ''d'', PInt 1]]"
    by (simp add: table_of_def c with_id_def idColumn_def key_text_def cell_def dget_def dput_def)
  with f show ?thesis unfolding files_def by blast
qed

end
