(* ===== verification/PyVersion.thy ===== *)
theory PyVersion
  imports Prelude
begin

text \<open>
  The two versions of the interpreter.  Most of the program behaves alike under both; where a part does
  not (byte strings in \<^verbatim>\<open>se/network.py\<close>, files in \<^verbatim>\<open>utilities/se2file.py\<close> and \<^verbatim>\<open>utilities/debug2hex.py\<close>) the
  version is a parameter of the model.
\<close>

datatype pyver = Py2 | Py3

text \<open>
  \<^verbatim>\<open>open(name, "a", buffering=n)\<close> of a file that can be opened: in Python 3 a text file cannot be
  unbuffered, which is found out after the file has been opened, and so created.
\<close>

definition open_text :: "pyver \<Rightarrow> nat \<Rightarrow> pyexn option" where
  "open_text ver buffering = (if ver = Py3 \<and> buffering = 0 then Some ValueError else None)"

end
