(* ===== verification/SplitFile.thy ===== *)
theory SplitFile
  imports PyVal PyInt PyVersion "HOL-Library.While_Combinator"
begin

text \<open>
  \<^verbatim>\<open>utilities/se2file.py\<close>: appends every line it reads to a file named after the day or the hour at
  which the line came.  A turn of its loop reads a line, empty at the end of the input; the clock is
  an argument.  The files are taken to be writable, and every file is closed after each line, so that
  the timeout \<open>openfilesecs\<close> never finds an open one.

  The file is opened as text without a buffer, which Python 2 accepts and Python 3, the interpreter
  that the first line of the script names, refuses with an exception: there the first line that is not
  blank creates its file and ends the script.
\<close>

record splitArgs =
  basedir :: string
  prefix :: string
  store_daily :: bool
  make_daily_dir :: bool
  looper :: bool

text \<open>The date and the hour of a turn, as \<^verbatim>\<open>%Y-%m-%d\<close> and \<^verbatim>\<open>%Y-%m-%d-%H\<close>.\<close>

type_synonym daytime = "string \<times> string"

record split =
  input :: "string list"
  turns :: nat
  blank_cnt :: nat
  dirs :: "string list"
  files :: "(string \<times> string list) list"
  died :: "pyexn option"

definition strip :: "string \<Rightarrow> string" where
  "strip s = strip_chars is_space s"

definition tfname :: "splitArgs \<Rightarrow> daytime \<Rightarrow> string" where
  "tfname a t = (case t of (curday, curhour) \<Rightarrow>
     (let curstore = (if store_daily a then curday else curhour) in
      if make_daily_dir a then basedir a @ ''/'' @ curday @ ''/'' @ prefix a @ curstore @ ''.json''
      else basedir a @ ''/'' @ prefix a @ curstore @ ''.json''))"

definition dayDir :: "splitArgs \<Rightarrow> daytime \<Rightarrow> string list \<Rightarrow> string list" where
  "dayDir a t ds =
     (let d = basedir a @ ''/'' @ fst t in if make_daily_dir a \<and> d \<notin> set ds then ds @ [d] else ds)"

text \<open>Opening, writing and closing the file: its lines and the exception.\<close>

definition filebuffersize :: nat where "filebuffersize = 0"

definition append_line ::
  "pyver \<Rightarrow> string \<Rightarrow> string \<Rightarrow> (string \<times> string list) list \<Rightarrow> (string \<times> string list) list \<times> pyexn option" where
  "append_line ver path l fs =
     (let old = (case dget fs path of None \<Rightarrow> [] | Some ls \<Rightarrow> ls) in
      case open_text ver filebuffersize of
        Some e \<Rightarrow> (dput path old fs, Some e)
      | None \<Rightarrow> (dput path (old @ [l]) fs, None))"

definition readline :: "split \<Rightarrow> string" where
  "readline s = (case input s of [] \<Rightarrow> [] | l # ls \<Rightarrow> strip l)"

definition splitTurn :: "pyver \<Rightarrow> splitArgs \<Rightarrow> (nat \<Rightarrow> daytime) \<Rightarrow> split \<Rightarrow> split" where
  "splitTurn ver a now s =
     (let jsonStr = readline s; t = now (turns s); s' = s\<lparr>input := tl (input s), turns := Suc (turns s)\<rparr> in
      if jsonStr \<noteq> [] then
        (case append_line ver (tfname a t) jsonStr (files s) of (fs, e) \<Rightarrow>
           s'\<lparr>blank_cnt := 0, dirs := dayDir a t (dirs s), files := fs, died := e\<rparr>)
      else s'\<lparr>blank_cnt := Suc (blank_cnt s)\<rparr>)"

definition blank_max :: nat where "blank_max = 10"

text \<open>The condition of the loop, and that no exception has ended it.\<close>

definition goesOn :: "splitArgs \<Rightarrow> split \<Rightarrow> bool" where
  "goesOn a s \<longleftrightarrow> died s = None \<and> (looper a \<or> blank_cnt s \<le> blank_max)"

definition splitMain :: "pyver \<Rightarrow> splitArgs \<Rightarrow> (nat \<Rightarrow> daytime) \<Rightarrow> split \<Rightarrow> split option" where
  "splitMain ver a now s = while_option (goesOn a) (splitTurn ver a now) s"

definition startSplit :: "string list \<Rightarrow> string list \<Rightarrow> (string \<times> string list) list \<Rightarrow> split" where
  "startSplit ls ds fs = \<lparr>input = ls, turns = 0, blank_cnt = 0, dirs = ds, files = fs, died = None\<rparr>"

subsection \<open>What the files should hold\<close>

text \<open>
  The lines with the turns at which they are read, up to more than \<open>blank_max\<close> blank lines in a row.
\<close>

fun kept :: "nat \<Rightarrow> nat \<Rightarrow> string list \<Rightarrow> (nat \<times> string) list" where
  "kept i b [] = []"
| "kept i b (l # ls) =
     (if blank_max < b then []
      else if strip l \<noteq> [] then (i, strip l) # kept (Suc i) 0 ls else kept (Suc i) (Suc b) ls)"

definition lines_for :: "splitArgs \<Rightarrow> (nat \<Rightarrow> daytime) \<Rightarrow> string \<Rightarrow> (nat \<times> string) list \<Rightarrow> string list" where
  "lines_for a now path ls = [l. (i, l) \<leftarrow> ls, tfname a (now i) = path]"

definition content :: "(string \<times> string list) list \<Rightarrow> string \<Rightarrow> string list" where
  "content fs path = (case dget fs path of None \<Rightarrow> [] | Some ls \<Rightarrow> ls)"

lemma lines_for_simps [simp]:
  "lines_for a now path [] = []"
  "lines_for a now path ((i, l) # ls) = (if path = tfname a (now i) then [l] else []) @ lines_for a now path ls"
  by (auto simp: lines_for_def)

lemma append_line_simps [simp]:
  "append_line Py2 p l fs = (dput p (content fs p @ [l]) fs, None)"
  "append_line Py3 p l fs = (dput p (content fs p) fs, Some ValueError)"
  by (simp_all add: append_line_def open_text_def filebuffersize_def content_def Let_def)

lemma content_dput [simp]: "content (dput p ls fs) path = (if path = p then ls else content fs path)"
  by (simp add: content_def)

lemma splitTurn_data:
  "strip l \<noteq> [] \<Longrightarrow> input s = l # ls \<Longrightarrow> splitTurn ver a now s =
     (case append_line ver (tfname a (now (turns s))) (strip l) (files s) of (fs, e) \<Rightarrow>
        s\<lparr>input := ls, turns := Suc (turns s), blank_cnt := 0, dirs := dayDir a (now (turns s)) (dirs s),
          files := fs, died := e\<rparr>)"
  and splitTurn_blank:
  "strip l = [] \<Longrightarrow> input s = l # ls \<Longrightarrow> splitTurn ver a now s =
     s\<lparr>input := ls, turns := Suc (turns s), blank_cnt := Suc (blank_cnt s)\<rparr>"
  and splitTurn_end:
  "input s = [] \<Longrightarrow>
     splitTurn ver a now s = s\<lparr>input := [], turns := Suc (turns s), blank_cnt := Suc (blank_cnt s)\<rparr>"
  by (simp_all add: splitTurn_def readline_def Let_def)

lemma splitMain_unfold:
  "splitMain ver a now s = (if goesOn a s then splitMain ver a now (splitTurn ver a now s) else Some s)"
  unfolding splitMain_def by (rule while_option_unfold)

lemma splitMain_died: "died s \<noteq> None \<Longrightarrow> splitMain ver a now s = Some s"
  by (subst splitMain_unfold) (auto simp: goesOn_def)

lemma splitMain_end:
  assumes "\<not> looper a" and "input s = []" and "died s = None"
  shows "\<exists>s'. splitMain ver a now s = Some s' \<and> files s' = files s \<and> died s' = None"
  using assms(2,3)
proof (induction "Suc blank_max - blank_cnt s" arbitrary: s)
  case 0
  then have "\<not> goesOn a s" using assms(1) by (simp add: goesOn_def)
  then show ?case using "0.prems" by (subst splitMain_unfold) simp
next
  case (Suc n)
  then have "goesOn a s" using Suc.hyps(2) by (auto simp: goesOn_def)
  moreover have "\<exists>s'. splitMain ver a now (splitTurn ver a now s) = Some s' \<and>
      files s' = files (splitTurn ver a now s) \<and> died s' = None"
    using Suc by (intro Suc.hyps(1)) (simp_all add: splitTurn_end)
  ultimately show ?case by (subst splitMain_unfold) (simp add: splitTurn_end Suc.prems)
qed

text \<open>What a run leaves behind, from any turn on.\<close>

definition splitRun :: "pyver \<Rightarrow> splitArgs \<Rightarrow> (nat \<Rightarrow> daytime) \<Rightarrow> split \<Rightarrow> split \<Rightarrow> bool" where
  "splitRun ver a now s s' \<longleftrightarrow> (let ls = kept (turns s) (blank_cnt s) (input s) in
     case ver of
       Py2 \<Rightarrow> died s' = None \<and>
         (\<forall>path. content (files s') path = content (files s) path @ lines_for a now path ls)
     | Py3 \<Rightarrow> died s' = (if ls = [] then None else Some ValueError) \<and>
         (\<forall>path. content (files s') path = content (files s) path))"

lemma splitRun_data:
  assumes "input s = l # ls" and "strip l \<noteq> []" and "\<not> blank_max < blank_cnt s" and "died s = None"
    and "died (splitTurn ver a now s) = None \<Longrightarrow>
      \<exists>s'. splitMain ver a now (splitTurn ver a now s) = Some s' \<and> splitRun ver a now (splitTurn ver a now s) s'"
  shows "\<exists>s'. splitMain ver a now (splitTurn ver a now s) = Some s' \<and> splitRun ver a now s s'"
proof (cases ver)
  case Py2
  with assms(5) show ?thesis
    by (auto simp: splitTurn_data [OF assms(2,1)] splitRun_def assms(1-3) Let_def)
next
  case Py3
  then show ?thesis
    by (auto simp: splitTurn_data [OF assms(2,1)] splitMain_died splitRun_def assms(1-3) Let_def)
qed

lemma splitMain_lines:
  assumes "\<not> looper a" and "died s = None"
  shows "\<exists>s'. splitMain ver a now s = Some s' \<and> splitRun ver a now s s'"
  using assms(2)
proof (induction "input s" arbitrary: s)
  case Nil
  then show ?case
    using splitMain_end [OF assms(1), of s ver now] by (cases ver) (auto simp: splitRun_def)
next
  case (Cons l ls)
  show ?case
  proof (cases "goesOn a s")
    case False
    then have "blank_max < blank_cnt s" using Cons.prems by (simp add: goesOn_def)
    with False Cons.prems show ?thesis
      by (subst splitMain_unfold) (simp add: Cons.hyps(2) [symmetric] splitRun_def split: pyver.split)
  next
    case True
    then have b: "\<not> blank_max < blank_cnt s" using assms by (simp add: goesOn_def)
    have step: "ls = input (splitTurn ver a now s)"
      by (simp add: splitTurn_def Let_def Cons.hyps(2) [symmetric] split: prod.split)
    have "\<exists>s'. splitMain ver a now (splitTurn ver a now s) = Some s' \<and> splitRun ver a now s s'"
    proof (cases "strip l = []")
      case True
      with Cons.hyps(1) [OF step] b Cons.prems show ?thesis
        by (cases ver) (auto simp: splitTurn_blank splitRun_def Let_def Cons.hyps(2) [symmetric])
    next
      case False
      show ?thesis
        by (rule splitRun_data [OF Cons.hyps(2) [symmetric] False b Cons.prems Cons.hyps(1) [OF step]])
    qed
    with True show ?thesis by (subst splitMain_unfold) simp
  qed
qed

text \<open>
  C34.  Reading a file ends.  Under Python 2, every line up to the first eleven blank ones in a row is
  appended, stripped of white space and in order, to the file named after the time at which it was
  read, and to no other.  Under Python 3, the interpreter that the script asks for, no file gets a line:
  the first line that is not blank ends the script with \<^verbatim>\<open>ValueError\<close>, because its file is opened as text
  without a buffer.
\<close>

theorem split_complete:
  assumes "\<not> looper a"
  shows "\<exists>s'. splitMain ver a now (startSplit ls ds fs) = Some s' \<and>
    (case ver of
       Py2 \<Rightarrow> died s' = None \<and> (\<forall>path. content (files s') path = content fs path @ lines_for a now path (kept 0 0 ls))
     | Py3 \<Rightarrow> died s' = (if kept 0 0 ls = [] then None else Some ValueError) \<and>
         (\<forall>path. content (files s') path = content fs path))"
  using splitMain_lines [OF assms, of "startSplit ls ds fs" ver now]
  by (cases ver) (simp_all add: startSplit_def splitRun_def)

text \<open>With \<^verbatim>\<open>-w\<close> the loop only ends with an exception, in Python 2 never.\<close>

lemma looper_runs_forever:
  assumes "looper a" and "died s = None"
  shows "splitMain Py2 a now s = None"
proof -
  have False if t: "while_option (goesOn a) (splitTurn Py2 a now) s = Some t" for t
  proof -
    have "died t = None"
      by (rule while_option_rule [OF _ t, of "\<lambda>s. died s = None"]) (use assms(2) in \<open>simp_all add: splitTurn_def Let_def\<close>)
    then show ?thesis using while_option_stop [OF t] assms(1) by (simp add: goesOn_def)
  qed
  then show ?thesis by (cases "splitMain Py2 a now s") (auto simp: splitMain_def)
qed

definition sampleArgs :: splitArgs where
  "sampleArgs = \<lparr>basedir = ''d'', prefix = ''s_'', store_daily = True, make_daily_dir = False, looper = False\<rparr>"

theorem split_complete_witness:
  "\<exists>s'. splitMain Py2 sampleArgs (\<lambda>i. if i = 0 then (''1'', ''1-0'') else (''2'', ''2-0''))
       (startSplit ['' x '', '' '', ''y''] [] []) = Some s' \<and> died s' = None \<and>
     content (files s') ''d/s_1.json'' = [''x''] \<and> content (files s') ''d/s_2.json'' = [''y'']"
proof -
  let ?now = "\<lambda>i :: nat. if i = 0 then (''1'', ''1-0'') else (''2'', ''2-0'')"
  have "kept 0 0 ['' x '', '' '', ''y''] = [(0, ''x''), (2, ''y'')]" by code_simp
  moreover have "\<not> looper sampleArgs" by (simp add: sampleArgs_def)
  ultimately show ?thesis
    using split_complete [of sampleArgs Py2 ?now "['' x '', '' '', ''y'']" "[]" "[]"]
    by (auto simp: tfname_def sampleArgs_def content_def)
qed

end
