(* ===== verification/Influx.thy ===== *)
theory Influx
  imports Unwrap
begin

text \<open>
  The writer of \<^verbatim>\<open>utilities/se2influx.py\<close>: what it sends to the database for a line of performance
  data, and the names of rotated logs.  The conversion of a local date and time to UTC is the time
  zone library's and an argument; it is \<open>None\<close> where the library raises.
\<close>

datatype werror = Raised pyexn | DateError

record point =
  measurement :: string
  serial :: pykey
  utcTime :: string
  pfields :: pydict

definition is_nan :: "pyval \<Rightarrow> bool" where
  "is_nan v \<longleftrightarrow> v = PFloat NaN"

definition without_nan :: "pydict \<Rightarrow> pydict" where
  "without_nan d = filter (\<lambda>(k, v). \<not> is_nan v) d"

text \<open>\<^verbatim>\<open>d.pop(k)\<close>\<close>

definition pop_item :: "pykey \<Rightarrow> pydict \<Rightarrow> (pyval \<times> pydict) res" where
  "pop_item k d = rbind (dlookup d k) (\<lambda>v. Inr (v, AList.delete k d))"

definition popUtcDate :: "(pyval \<Rightarrow> pyval \<Rightarrow> string option) \<Rightarrow> pydict \<Rightarrow> werror + string \<times> pydict" where
  "popUtcDate utc d = (case pop_item (KS ''Date'') d of
       Inl e \<Rightarrow> Inl (Raised e)
     | Inr (date, d1) \<Rightarrow> (case pop_item (KS ''Time'') d1 of
           Inl e \<Rightarrow> Inl (Raised e)
         | Inr (time, d2) \<Rightarrow> (case utc date time of None \<Rightarrow> Inl DateError | Some t \<Rightarrow> Inr (t, d2))))"

definition hwPoint :: "(pyval \<Rightarrow> pyval \<Rightarrow> string option) \<Rightarrow> string \<Rightarrow> pykey \<times> pyval \<Rightarrow> werror + point" where
  "hwPoint utc hw_type item = (case item of (ser, v) \<Rightarrow> (case v of
       PDict d \<Rightarrow> (case popUtcDate utc (without_nan d) of
           Inl e \<Rightarrow> Inl e
         | Inr (t, d') \<Rightarrow> Inr \<lparr>measurement = hw_type, serial = ser, utcTime = t, pfields = d'\<rparr>)
     | _ \<Rightarrow> Inl (Raised AttributeError)))"

fun hwPoints :: "(pyval \<Rightarrow> pyval \<Rightarrow> string option) \<Rightarrow> string \<Rightarrow> pydict \<Rightarrow> point list \<times> werror option" where
  "hwPoints utc hw_type [] = ([], None)"
| "hwPoints utc hw_type (item # items) = (case hwPoint utc hw_type item of
       Inl e \<Rightarrow> ([], Some e)
     | Inr p \<Rightarrow> gen_then ([p], None) (hwPoints utc hw_type items))"

definition typePoints :: "(pyval \<Rightarrow> pyval \<Rightarrow> string option) \<Rightarrow> pyval \<Rightarrow> string \<Rightarrow> point list \<times> werror option" where
  "typePoints utc se_data hw_type = (case se_data of
       PDict d \<Rightarrow> (case dget d (KS hw_type) of
           None \<Rightarrow> ([], Some (Raised KeyError))
         | Some (PDict hws) \<Rightarrow> hwPoints utc hw_type hws
         | Some _ \<Rightarrow> ([], Some (Raised AttributeError)))
     | _ \<Rightarrow> ([], Some (Raised TypeError)))"

definition dataOut :: "(pyval \<Rightarrow> pyval \<Rightarrow> string option) \<Rightarrow> pyval \<Rightarrow> point list \<times> werror option" where
  "dataOut utc se_data =
     gen_then (typePoints utc se_data ''inverters'') (typePoints utc se_data ''optimizers'')"

text \<open>
  One turn of the writer's loop: nothing to write, points to write, or an exception that is not
  caught and ends the thread.
\<close>

datatype turn = Skip | Points "point list" | Dies pyexn

definition writerTurn :: "(pyval \<Rightarrow> pyval \<Rightarrow> string option) \<Rightarrow> (string \<Rightarrow> pyval res) \<Rightarrow> string \<Rightarrow> turn" where
  "writerTurn utc loads line = (case loads line of
       Inl e \<Rightarrow> Skip
     | Inr se_data \<Rightarrow> (case dataOut utc se_data of (ps, err) \<Rightarrow>
         (case err of
            Some (Raised e) \<Rightarrow> if e = KeyError then (if ps = [] then Skip else Points ps) else Dies e
          | _ \<Rightarrow> if ps = [] then Skip else Points ps)))"

subsection \<open>What is written\<close>

text \<open>A device as the writer should see it: the type of hardware, the serial number and the items.\<close>

type_synonym hw_device = "string \<times> pykey \<times> pydict"

definition devices_of :: "pydict \<Rightarrow> pydict \<Rightarrow> hw_device list" where
  "devices_of invs opts =
     [(''inverters'', k, d). (k, PDict d) \<leftarrow> invs] @ [(''optimizers'', k, d). (k, PDict d) \<leftarrow> opts]"

definition convertible :: "(pyval \<Rightarrow> pyval \<Rightarrow> string option) \<Rightarrow> hw_device \<Rightarrow> bool" where
  "convertible utc dev = (case dev of (t, k, d) \<Rightarrow>
     (case (dget d (KS ''Date''), dget d (KS ''Time'')) of
        (Some date, Some time) \<Rightarrow> \<not> is_nan date \<and> \<not> is_nan time \<and> utc date time \<noteq> None
      | _ \<Rightarrow> False))"

definition point_for :: "(pyval \<Rightarrow> pyval \<Rightarrow> string option) \<Rightarrow> hw_device \<Rightarrow> point" where
  "point_for utc dev = (case dev of (t, k, d) \<Rightarrow>
     \<lparr>measurement = t, serial = k,
      utcTime = the (utc (the (dget d (KS ''Date''))) (the (dget d (KS ''Time'')))),
      pfields = filter (\<lambda>(n, v). n \<noteq> KS ''Date'' \<and> n \<noteq> KS ''Time'' \<and> \<not> is_nan v) d\<rparr>)"

definition all_dicts :: "pydict \<Rightarrow> bool" where
  "all_dicts d \<longleftrightarrow> list_all (\<lambda>(k, v). is_dict v) d"

lemma dget_without_nan:
  "dwf d \<Longrightarrow> dget (without_nan d) k = (case dget d k of Some v \<Rightarrow> if is_nan v then None else Some v | None \<Rightarrow> None)"
proof (induction d)
  case (Cons kv d)
  obtain n v where kv: "kv = (n, v)" by (cases kv)
  have "dget d n = None" "dwf d" using Cons.prems by (auto simp: kv dwf_def dget_def map_of_eq_None_iff)
  then show ?case using Cons.IH by (auto simp: without_nan_def kv dget_Cons)
qed (simp add: without_nan_def)

lemma delete_filter: "AList.delete k d = filter (\<lambda>(n, v). n \<noteq> k) d"
  by (induction d) (auto simp: AList.delete_eq)

lemma dget_delete: "dget (AList.delete k d) k' = (if k' = k then None else dget d k')"
  by (simp add: dget_def delete_conv')

lemma hwPoint_spec:
  assumes "dwf d"
  shows "if convertible utc (t, k, d) then hwPoint utc t (k, PDict d) = Inr (point_for utc (t, k, d))
         else \<exists>e. hwPoint utc t (k, PDict d) = Inl e \<and> (e = Raised KeyError \<or> e = DateError)"
proof -
  have fields: "AList.delete (KS ''Time'') (AList.delete (KS ''Date'') (without_nan d))
      = filter (\<lambda>(n, v). n \<noteq> KS ''Date'' \<and> n \<noteq> KS ''Time'' \<and> \<not> is_nan v) d"
    by (auto simp: delete_filter without_nan_def intro!: filter_cong)
  show ?thesis
    by (auto simp: hwPoint_def popUtcDate_def pop_item_def dlookup_def convertible_def point_for_def
      dget_delete dget_without_nan [OF assms] fields split: option.splits)
qed

definition soft :: "werror option \<Rightarrow> bool" where
  "soft e \<longleftrightarrow> e = Some (Raised KeyError) \<or> e = Some DateError"

definition devs :: "string \<Rightarrow> pydict \<Rightarrow> hw_device list" where
  "devs t hws = [(t, k, d). (k, PDict d) \<leftarrow> hws]"

lemma devs_simps [simp]: "devs t [] = []" "devs t ((k, PDict d) # hws) = (t, k, d) # devs t hws"
  by (simp_all add: devs_def)

lemma hwPoints_spec:
  assumes "all_dicts hws" and "\<forall>(t, k, d) \<in> set (devs t hws). dwf d"
  shows "\<exists>e. hwPoints utc t hws = (map (point_for utc) (takeWhile (convertible utc) (devs t hws)), e) \<and>
    (if list_all (convertible utc) (devs t hws) then e = None else soft e)"
  using assms
proof (induction hws)
  case (Cons kv hws)
  obtain k d where kv: "kv = (k, PDict d)"
    using Cons.prems(1) by (cases kv; cases "snd kv") (auto simp: all_dicts_def)
  have IH: "\<exists>e. hwPoints utc t hws = (map (point_for utc) (takeWhile (convertible utc) (devs t hws)), e) \<and>
      (if list_all (convertible utc) (devs t hws) then e = None else soft e)"
    using Cons by (simp add: kv all_dicts_def)
  show ?case
    using IH hwPoint_spec [of d utc t k] Cons.prems(2)
    by (auto simp: kv soft_def split: if_splits)
qed simp

lemma dataOut_spec:
  assumes "path_get [KS ''inverters''] v = Some (PDict invs)" and "path_get [KS ''optimizers''] v = Some (PDict opts)"
    and "all_dicts invs" and "all_dicts opts" and "\<forall>(t, k, d) \<in> set (devices_of invs opts). dwf d"
  shows "\<exists>e. dataOut utc v = (map (point_for utc) (takeWhile (convertible utc) (devices_of invs opts)), e) \<and>
    (e = None \<or> soft e)"
proof -
  obtain s where s: "v = PDict s" "dget s (KS ''inverters'') = Some (PDict invs)"
      "dget s (KS ''optimizers'') = Some (PDict opts)"
    using assms(1,2) by (cases v) (auto split: option.splits)
  have all: "devices_of invs opts = devs ''inverters'' invs @ devs ''optimizers'' opts"
    by (simp add: devices_of_def devs_def)
  obtain e1 where e1: "hwPoints utc ''inverters'' invs
        = (map (point_for utc) (takeWhile (convertible utc) (devs ''inverters'' invs)), e1)"
      "if list_all (convertible utc) (devs ''inverters'' invs) then e1 = None else soft e1"
    using hwPoints_spec [OF assms(3), of "''inverters''"] assms(5) by (force simp: all)
  obtain e2 where e2: "hwPoints utc ''optimizers'' opts
        = (map (point_for utc) (takeWhile (convertible utc) (devs ''optimizers'' opts)), e2)"
      "if list_all (convertible utc) (devs ''optimizers'' opts) then e2 = None else soft e2"
    using hwPoints_spec [OF assms(4), of "''optimizers''"] assms(5) by (force simp: all)
  show ?thesis
  proof (cases "list_all (convertible utc) (devs ''inverters'' invs)")
    case True
    then have "takeWhile (convertible utc) (devices_of invs opts)
        = devs ''inverters'' invs @ takeWhile (convertible utc) (devs ''optimizers'' opts)"
      by (simp add: all takeWhile_append2 list_all_iff)
    moreover have whole: "takeWhile (convertible utc) (devs ''inverters'' invs) = devs ''inverters'' invs"
      using True by (simp add: takeWhile_eq_all_conv list_all_iff)
    moreover have "e1 = None" using True e1(2) by simp
    ultimately show ?thesis
      using e1(1) [unfolded whole] e2 by (auto simp: dataOut_def typePoints_def s split: if_splits)
  next
    case False
    then have "takeWhile (convertible utc) (devices_of invs opts)
        = takeWhile (convertible utc) (devs ''inverters'' invs)"
      by (auto simp: all list_all_iff takeWhile_append1)
    then show ?thesis
      using False e1 by (auto simp: dataOut_def typePoints_def s soft_def)
  qed
qed

text \<open>
  C29.  For a line of performance data the writer sends one point for each device, inverters before
  optimizers, with the device's items except date, time and NaN values, up to the first device whose
  date or time is missing or cannot be converted; the devices from there on are not written.  The
  thread survives.
\<close>

theorem influx_points:
  assumes "loads line = Inr v"
    and "path_get [KS ''inverters''] v = Some (PDict invs)" and "path_get [KS ''optimizers''] v = Some (PDict opts)"
    and "all_dicts invs" and "all_dicts opts" and "\<forall>(t, k, d) \<in> set (devices_of invs opts). dwf d"
  shows "writerTurn utc loads line =
    (let good = takeWhile (convertible utc) (devices_of invs opts)
     in if good = [] then Skip else Points (map (point_for utc) good))"
  using dataOut_spec [OF assms(2-6), of utc] assms(1)
  by (auto simp: writerTurn_def soft_def Let_def)

definition sampleUtc :: "pyval \<Rightarrow> pyval \<Rightarrow> string option" where
  "sampleUtc date time = (case (date, time) of (PStr d, PStr t) \<Rightarrow> Some (d @ ''T'' @ t @ ''Z'') | _ \<Rightarrow> None)"

definition influxSample :: pyval where
  "influxSample = PDict
     [(KS ''inverters'', PDict
        [(KS ''7E1'', PDict [(KS ''Date'', PStr ''2020-01-02''), (KS ''Time'', PStr ''10:00:00''),
                             (KS ''Pac'', PFloat (Fin 7)), (KS ''Temp'', PFloat NaN)]),
         (KS ''7E2'', PDict [(KS ''Date'', PStr ''2020-01-02''), (KS ''Pac'', PFloat (Fin 8))])]),
      (KS ''optimizers'', PDict [])]"

theorem influx_points_witness:
  "writerTurn sampleUtc (\<lambda>_. Inr influxSample) [] =
     Points [\<lparr>measurement = ''inverters'', serial = KS ''7E1'', utcTime = ''2020-01-02T10:00:00Z'',
              pfields = [(KS ''Pac'', PFloat (Fin 7))]\<rparr>]"
proof -
  let ?d1 = "[(KS ''Date'', PStr ''2020-01-02''), (KS ''Time'', PStr ''10:00:00''),
      (KS ''Pac'', PFloat (Fin 7)), (KS ''Temp'', PFloat NaN)]"
  let ?d2 = "[(KS ''Date'', PStr ''2020-01-02''), (KS ''Pac'', PFloat (Fin 8))]"
  let ?invs = "[(KS ''7E1'', PDict ?d1), (KS ''7E2'', PDict ?d2)]"
  have devs: "devices_of ?invs [] = [(''inverters'', KS ''7E1'', ?d1), (''inverters'', KS ''7E2'', ?d2)]"
    by (simp add: devices_of_def)
  have "path_get [KS ''inverters''] influxSample = Some (PDict ?invs)"
    "path_get [KS ''optimizers''] influxSample = Some (PDict [])" "all_dicts ?invs" "all_dicts []"
    "\<forall>(t, k, d) \<in> set (devices_of ?invs []). dwf d"
    unfolding devs by (simp_all add: influxSample_def dget_def all_dicts_def dwf_def)
  note run = influx_points [OF refl this, where line = "[]" and utc = sampleUtc]
  show ?thesis
    unfolding run devs by (simp add: convertible_def point_for_def sampleUtc_def is_nan_def dget_def)
qed

subsection \<open>Rotated logs\<close>

text \<open>\<open>rpartition c s\<close> is \<^verbatim>\<open>s.rpartition(c)\<close>.\<close>

fun rpartition :: "char \<Rightarrow> string \<Rightarrow> string \<times> string \<times> string" where
  "rpartition c [] = ([], [], [])"
| "rpartition c (x # s) = (case rpartition c s of (a, sep, b) \<Rightarrow>
     if sep \<noteq> [] then (x # a, sep, b) else if x = c then ([], [c], b) else (a, sep, x # b))"

definition gzLog :: "string \<Rightarrow> string \<Rightarrow> string" where
  "gzLog log_path ts = (case rpartition (CHR ''.'') log_path of (log_root, sep, log_ext) \<Rightarrow>
     (case (if log_root = [] then (log_ext, []) else (log_root, log_ext)) of (log_root, log_ext) \<Rightarrow>
        log_root @ ''-'' @ ts @ sep @ log_ext @ ''.gz''))"

lemma gzLog_inj: "gzLog p t = gzLog p t' \<longleftrightarrow> t = t'"
  by (simp add: gzLog_def split: prod.split)

end
