(* ===== verification/InfluxThreads.thy ===== *)
theory InfluxThreads
  imports Influx Transitions
begin

text \<open>
  The threads of \<^verbatim>\<open>utilities/se2influx.py\<close> as a step relation: the reader puts every line into the
  queue of the writer and then, if a log is kept, into that of the logger; the main thread orders the
  shutdown once a thread has ended and joins them all.  A \<^verbatim>\<open>get\<close> that times out because its queue is
  empty and the test of the shutdown that follows it are two steps: a line can be put between them.
  A blocked \<^verbatim>\<open>put\<close> is no step.  \<open>stdin\<close> holds the lines up to the end of the input.
\<close>

record config =
  keepLog :: bool
  queueSize :: nat      \<comment> \<open>0: unbounded\<close>
  maxLogSize :: nat     \<comment> \<open>0: never rotated\<close>
  logPath :: string

datatype reader = Reading | PutWriter string | PutLogger string | ReaderDone
datatype writer = Connecting | Writing | WriterTimedOut | WriterDone
datatype loggerState = Logging | LoggerTimedOut | LoggerDone

text \<open>
  \<open>archived\<close> holds the complete archives, \<open>damaged\<close> the text of those whose writing failed half-way
  (the log is then kept as it is).  The last three components only observe: an error ended the writer
  or the logger, a rotation wrote over a complete archive, the line of a failed write to the log.
\<close>

record pipe =
  stdin :: "string list"
  readerAt :: reader
  writerAt :: writer
  loggerAt :: loggerState
  writerQ :: "string list"
  loggerQ :: "string list"
  handled :: "string list"
  logFile :: "string list"
  archived :: "(string \<times> string list) list"
  damaged :: "(string \<times> string) list"
  shutdown :: bool
  finished :: bool
  failed :: bool
  overwritten :: bool
  lost :: "string list"

definition startPipe :: "string list \<Rightarrow> string list \<Rightarrow> pipe" where
  "startPipe input oldLog =
     \<lparr>stdin = input, readerAt = Reading, writerAt = Connecting, loggerAt = Logging, writerQ = [],
      loggerQ = [], handled = [], logFile = oldLog, archived = [], damaged = [], shutdown = False, finished = False,
      failed = False, overwritten = False, lost = []\<rparr>"

definition hasRoom :: "config \<Rightarrow> string list \<Rightarrow> bool" where
  "hasRoom c q \<longleftrightarrow> queueSize c = 0 \<or> length q < queueSize c"

definition tooBig :: "config \<Rightarrow> string list \<Rightarrow> bool" where
  "tooBig c ls \<longleftrightarrow> maxLogSize c \<noteq> 0 \<and> maxLogSize c < sum_list (map length ls)"

definition someDead :: "config \<Rightarrow> pipe \<Rightarrow> bool" where
  "someDead c s \<longleftrightarrow> readerAt s = ReaderDone \<or> writerAt s = WriterDone \<or> keepLog c \<and> loggerAt s = LoggerDone"

definition allDead :: "config \<Rightarrow> pipe \<Rightarrow> bool" where
  "allDead c s \<longleftrightarrow> readerAt s = ReaderDone \<and> writerAt s = WriterDone \<and> (keepLog c \<longrightarrow> loggerAt s = LoggerDone)"

inductive istep :: "config \<Rightarrow> pipe \<Rightarrow> pipe \<Rightarrow> bool" for c where
  read_line: "readerAt s = Reading \<Longrightarrow> stdin s = l # ls \<Longrightarrow>
    istep c s (s\<lparr>stdin := ls, readerAt := PutWriter l\<rparr>)"
| read_eof: "readerAt s = Reading \<Longrightarrow> stdin s = [] \<Longrightarrow> istep c s (s\<lparr>readerAt := ReaderDone\<rparr>)"
| read_error: "readerAt s = Reading \<Longrightarrow> istep c s (s\<lparr>readerAt := ReaderDone\<rparr>)"
| read_shutdown: "readerAt s = Reading \<Longrightarrow> shutdown s \<Longrightarrow> istep c s (s\<lparr>readerAt := ReaderDone\<rparr>)"
| put_writer: "readerAt s = PutWriter l \<Longrightarrow> hasRoom c (writerQ s) \<Longrightarrow>
    istep c s (s\<lparr>writerQ := writerQ s @ [l], readerAt := (if keepLog c then PutLogger l else Reading)\<rparr>)"
| put_logger: "readerAt s = PutLogger l \<Longrightarrow> hasRoom c (loggerQ s) \<Longrightarrow>
    istep c s (s\<lparr>loggerQ := loggerQ s @ [l], readerAt := Reading\<rparr>)"
| connect: "writerAt s = Connecting \<Longrightarrow> istep c s (s\<lparr>writerAt := Writing\<rparr>)"
| connect_fails: "writerAt s = Connecting \<Longrightarrow> istep c s (s\<lparr>writerAt := WriterDone, failed := True\<rparr>)"
| handle_line: "writerAt s = Writing \<Longrightarrow> writerQ s = l # q \<Longrightarrow>
    istep c s (s\<lparr>writerQ := q, handled := handled s @ [l]\<rparr>)"
| handle_dies: "writerAt s = Writing \<Longrightarrow> writerQ s = l # q \<Longrightarrow>
    istep c s (s\<lparr>writerQ := q, handled := handled s @ [l], writerAt := WriterDone, failed := True\<rparr>)"
| writer_timeout: "writerAt s = Writing \<Longrightarrow> writerQ s = [] \<Longrightarrow> istep c s (s\<lparr>writerAt := WriterTimedOut\<rparr>)"
| writer_continue: "writerAt s = WriterTimedOut \<Longrightarrow> \<not> shutdown s \<Longrightarrow> istep c s (s\<lparr>writerAt := Writing\<rparr>)"
| writer_exit: "writerAt s = WriterTimedOut \<Longrightarrow> shutdown s \<Longrightarrow> istep c s (s\<lparr>writerAt := WriterDone\<rparr>)"
| log_line: "keepLog c \<Longrightarrow> loggerAt s = Logging \<Longrightarrow> loggerQ s = l # q \<Longrightarrow> \<not> tooBig c (logFile s @ [l]) \<Longrightarrow>
    istep c s (s\<lparr>loggerQ := q, logFile := logFile s @ [l]\<rparr>)"
| log_rotate: "keepLog c \<Longrightarrow> loggerAt s = Logging \<Longrightarrow> loggerQ s = l # q \<Longrightarrow> tooBig c (logFile s @ [l]) \<Longrightarrow>
    istep c s (s\<lparr>loggerQ := q, logFile := [],
      archived := dput (gzLog (logPath c) ts) (logFile s @ [l]) (archived s),
      damaged := AList.delete (gzLog (logPath c) ts) (damaged s),
      overwritten := (overwritten s \<or> dget (archived s) (gzLog (logPath c) ts) \<noteq> None)\<rparr>)"
| log_rotate_fails: "keepLog c \<Longrightarrow> loggerAt s = Logging \<Longrightarrow> loggerQ s = l # q \<Longrightarrow> tooBig c (logFile s @ [l]) \<Longrightarrow>
    istep c s (s\<lparr>loggerQ := q, logFile := logFile s @ [l]\<rparr>)"
| log_rotate_breaks: "keepLog c \<Longrightarrow> loggerAt s = Logging \<Longrightarrow> loggerQ s = l # q \<Longrightarrow> tooBig c (logFile s @ [l]) \<Longrightarrow>
    istep c s (s\<lparr>loggerQ := q, logFile := logFile s @ [l],
      archived := AList.delete (gzLog (logPath c) ts) (archived s),
      damaged := dput (gzLog (logPath c) ts) (take n (concat (logFile s @ [l]))) (damaged s),
      overwritten := (overwritten s \<or> dget (archived s) (gzLog (logPath c) ts) \<noteq> None)\<rparr>)"
| log_write_fails: "keepLog c \<Longrightarrow> loggerAt s = Logging \<Longrightarrow> loggerQ s = l # q \<Longrightarrow>
    istep c s (s\<lparr>loggerQ := q, lost := [l], loggerAt := LoggerDone, failed := True\<rparr>)"
| log_open_fails: "keepLog c \<Longrightarrow> loggerAt s = Logging \<Longrightarrow> istep c s (s\<lparr>loggerAt := LoggerDone, failed := True\<rparr>)"
| log_timeout: "keepLog c \<Longrightarrow> loggerAt s = Logging \<Longrightarrow> loggerQ s = [] \<Longrightarrow> istep c s (s\<lparr>loggerAt := LoggerTimedOut\<rparr>)"
| log_continue: "keepLog c \<Longrightarrow> loggerAt s = LoggerTimedOut \<Longrightarrow> \<not> shutdown s \<Longrightarrow> istep c s (s\<lparr>loggerAt := Logging\<rparr>)"
| log_exit: "keepLog c \<Longrightarrow> loggerAt s = LoggerTimedOut \<Longrightarrow> shutdown s \<Longrightarrow> istep c s (s\<lparr>loggerAt := LoggerDone\<rparr>)"
| order_shutdown: "someDead c s \<Longrightarrow> \<not> shutdown s \<Longrightarrow> istep c s (s\<lparr>shutdown := True\<rparr>)"
| join_threads: "shutdown s \<Longrightarrow> allDead c s \<Longrightarrow> \<not> finished s \<Longrightarrow> istep c s (s\<lparr>finished := True\<rparr>)"

definition run_of :: "config \<Rightarrow> string list \<Rightarrow> string list \<Rightarrow> pipe \<Rightarrow> bool" where
  "run_of c input oldLog s \<longleftrightarrow> rtranclp (istep c) (startPipe input oldLog) s"

lemma run_of_induct [consumes 1, case_names start step]:
  assumes "run_of c input oldLog s" and "P (startPipe input oldLog)"
    and "\<And>s s'. run_of c input oldLog s \<Longrightarrow> istep c s s' \<Longrightarrow> P s \<Longrightarrow> P s'"
  shows "P s"
  using assms(1) unfolding run_of_def
  by (induction rule: rtranclp_induct) (use assms(2,3) in \<open>auto simp: run_of_def\<close>)

subsection \<open>Order and bounds\<close>

text \<open>The line between the reader and the two queues.\<close>

fun toWriter :: "reader \<Rightarrow> string list" where
  "toWriter (PutWriter l) = [l]"
| "toWriter _ = []"

fun toLogger :: "reader \<Rightarrow> string list" where
  "toLogger (PutWriter l) = [l]"
| "toLogger (PutLogger l) = [l]"
| "toLogger _ = []"

definition logged :: "pipe \<Rightarrow> string list" where
  "logged s = concat (map snd (archived s)) @ logFile s"

definition bounded :: "config \<Rightarrow> string list \<Rightarrow> bool" where
  "bounded c q \<longleftrightarrow> queueSize c = 0 \<or> length q \<le> queueSize c"

definition pipe_inv :: "config \<Rightarrow> string list \<Rightarrow> string list \<Rightarrow> pipe \<Rightarrow> bool" where
  "pipe_inv c input oldLog s \<longleftrightarrow>
     handled s @ writerQ s @ toWriter (readerAt s) @ stdin s = input \<and>
     (keepLog c \<and> \<not> overwritten s \<longrightarrow>
        logged s @ lost s @ loggerQ s @ toLogger (readerAt s) @ stdin s = oldLog @ input) \<and>
     (lost s \<noteq> [] \<longrightarrow> loggerAt s = LoggerDone) \<and>
     (\<forall>l. readerAt s = PutLogger l \<longrightarrow> keepLog c) \<and>
     bounded c (writerQ s) \<and> bounded c (loggerQ s)"

lemma pipe_inv_step: "istep c s s' \<Longrightarrow> pipe_inv c input oldLog s \<Longrightarrow> pipe_inv c input oldLog s'"
proof (induction rule: istep.induct)
  case (log_rotate s l q ts)
  then show ?case by (cases "dget (archived s) (gzLog (logPath c) ts)")
     (auto simp: pipe_inv_def logged_def dput_new bounded_def)
next
  case (log_rotate_breaks s l q ts n)
  then show ?case by (cases "dget (archived s) (gzLog (logPath c) ts)")
     (auto simp: pipe_inv_def logged_def bounded_def dget_def map_of_eq_None_iff)
qed (auto simp: pipe_inv_def logged_def bounded_def hasRoom_def)

lemma pipe_inv_run: "run_of c input oldLog s \<Longrightarrow> pipe_inv c input oldLog s"
proof (induction rule: run_of_induct)
  case start
  show ?case by (simp add: pipe_inv_def startPipe_def logged_def bounded_def)
qed (rule pipe_inv_step)

text \<open>
  C28.  No line overtakes another and none is invented: at every moment the lines the writer has
  handled, those in its queue, the one in the reader's hand and the input still to come are the input,
  in order; the archived logs, the log, its queue and the rest are the old log and the input, unless
  two rotations fell into the same second; neither queue is ever longer than its limit.
\<close>

theorem pipeline_order:
  assumes "run_of c input oldLog s"
  shows "handled s @ writerQ s @ toWriter (readerAt s) @ stdin s = input \<and>
    (keepLog c \<and> \<not> overwritten s \<longrightarrow>
       logged s @ lost s @ loggerQ s @ toLogger (readerAt s) @ stdin s = oldLog @ input) \<and>
    (queueSize c \<noteq> 0 \<longrightarrow> length (writerQ s) \<le> queueSize c \<and> length (loggerQ s) \<le> queueSize c)"
  using pipe_inv_run [OF assms] by (auto simp: pipe_inv_def bounded_def)

subsection \<open>Shutdown\<close>

definition clean_inv :: "config \<Rightarrow> pipe \<Rightarrow> bool" where
  "clean_inv c s \<longleftrightarrow> \<not> failed s \<longrightarrow>
     (shutdown s \<longrightarrow> readerAt s = ReaderDone) \<and>
     (writerAt s = WriterDone \<longrightarrow> shutdown s) \<and> (keepLog c \<and> loggerAt s = LoggerDone \<longrightarrow> shutdown s) \<and>
     lost s = [] \<and> (finished s \<longrightarrow> allDead c s)"

lemma clean_inv_step: "istep c s s' \<Longrightarrow> clean_inv c s \<Longrightarrow> clean_inv c s'"
  by (induction rule: istep.induct) (auto simp: clean_inv_def someDead_def allDead_def)

lemma clean_inv_run: "run_of c input oldLog s \<Longrightarrow> clean_inv c s"
proof (induction rule: run_of_induct)
  case start
  show ?case by (simp add: clean_inv_def startPipe_def)
qed (rule clean_inv_step)

text \<open>
  A thread that has found its queue empty will end at the next test if the shutdown has been ordered,
  whatever has been put into the queue since.  \<open>inTime\<close>: no line has come too late in this way.
\<close>

definition inTime :: "config \<Rightarrow> pipe \<Rightarrow> bool" where
  "inTime c s \<longleftrightarrow> shutdown s \<longrightarrow>
     (writerAt s = WriterTimedOut \<or> writerAt s = WriterDone \<longrightarrow> writerQ s = []) \<and>
     (keepLog c \<and> (loggerAt s = LoggerTimedOut \<or> loggerAt s = LoggerDone) \<longrightarrow> loggerQ s = [])"

text \<open>Once the shutdown has been ordered, every step uses something up.\<close>

definition work :: "pipe \<Rightarrow> nat" where
  "work s = 5 * length (stdin s) + length (writerQ s) + length (loggerQ s) +
     (case readerAt s of ReaderDone \<Rightarrow> 0 | Reading \<Rightarrow> 1 | PutLogger _ \<Rightarrow> 3 | PutWriter _ \<Rightarrow> 5) +
     (case writerAt s of
        Connecting \<Rightarrow> if shutdown s then 3 else 2
      | Writing \<Rightarrow> if shutdown s then 2 else 1
      | WriterTimedOut \<Rightarrow> if shutdown s then 1 else 2
      | WriterDone \<Rightarrow> 0) +
     (case loggerAt s of
        Logging \<Rightarrow> if shutdown s then 2 else 1
      | LoggerTimedOut \<Rightarrow> if shutdown s then 1 else 2
      | LoggerDone \<Rightarrow> 0) +
     (if shutdown s then 0 else 3) + (if finished s then 0 else 1)"

lemma work_decreases: "istep c s s' \<Longrightarrow> shutdown s \<Longrightarrow> work s' < work s"
  by (induction rule: istep.induct) (auto simp: work_def)

lemma istep_wf: "wfP (\<lambda>s' s. shutdown s \<and> istep c s s')"
  by (rule wfp_if_convertible_to_nat [of _ work]) (use work_decreases in blast)

lemma inTime_step:
  assumes "istep c s s'" and "shutdown s" and "clean_inv c s" and "inTime c s" and "\<not> failed s'"
  shows "inTime c s'"
  using assms by (induction rule: istep.induct) (auto simp: inTime_def clean_inv_def)

lemma failed_stays: "istep c s s' \<Longrightarrow> failed s \<Longrightarrow> failed s'"
  and shutdown_stays: "istep c s s' \<Longrightarrow> shutdown s \<Longrightarrow> shutdown s'"
  by (induction rule: istep.induct) auto

lemma inTime_steps:
  "(istep c)\<^sup>*\<^sup>* s t \<Longrightarrow> shutdown s \<Longrightarrow> clean_inv c s \<Longrightarrow> inTime c s \<Longrightarrow> \<not> failed t \<Longrightarrow>
     shutdown t \<and> clean_inv c t \<and> inTime c t"
proof (induction rule: rtranclp_induct)
  case (step t u)
  then show ?case using failed_stays shutdown_stays inTime_step clean_inv_step by blast
qed simp

text \<open>The states of runs without errors in which no line has come too late and, if \<open>eager\<close>, the reader
  has not given up before the end of its input.\<close>

definition sound :: "bool \<Rightarrow> config \<Rightarrow> string list \<Rightarrow> string list \<Rightarrow> pipe \<Rightarrow> bool" where
  "sound eager c input oldLog s \<longleftrightarrow> pipe_inv c input oldLog s \<and> clean_inv c s \<and> \<not> failed s \<and> inTime c s \<and>
     (eager \<and> readerAt s = ReaderDone \<longrightarrow> stdin s = [])"

text \<open>A step towards the end.\<close>

definition advances :: "bool \<Rightarrow> config \<Rightarrow> string list \<Rightarrow> string list \<Rightarrow> pipe \<Rightarrow> bool" where
  "advances eager c input oldLog s \<longleftrightarrow> (\<exists>s'. istep c s s' \<and> sound eager c input oldLog s' \<and> work s' < work s)"

lemma advancesI:
  assumes "sound eager c input oldLog s" and "istep c s s'" and "\<not> failed s'" and "inTime c s'"
    and "eager \<and> readerAt s' = ReaderDone \<longrightarrow> stdin s' = []" and "work s' < work s"
  shows "advances eager c input oldLog s"
  using assms pipe_inv_step clean_inv_step by (auto simp: sound_def advances_def)

lemma writer_goes_on:
  assumes "sound eager c input oldLog s" and "writerAt s \<noteq> WriterDone"
    and "writerQ s \<noteq> [] \<or> shutdown s \<or> writerAt s = WriterTimedOut"
  shows "advances eager c input oldLog s"
proof -
  have ok: "\<not> failed s" "eager \<and> readerAt s = ReaderDone \<longrightarrow> stdin s = []" "inTime c s"
    using assms(1) by (simp_all add: sound_def)
  note adv = advancesI [OF assms(1)]
  show ?thesis
  proof (cases "writerAt s")
    case Connecting
    then show ?thesis using adv [OF connect] ok by (simp add: inTime_def work_def)
  next
    case Writing
    show ?thesis
    proof (cases "writerQ s")
      case Nil
      then show ?thesis using adv [OF writer_timeout] ok Writing assms(3) by (simp add: inTime_def work_def)
    next
      case (Cons l q)
      then show ?thesis using adv [OF handle_line] ok Writing by (simp add: inTime_def work_def)
    qed
  next
    case WriterTimedOut
    then show ?thesis
      using adv [OF writer_continue] adv [OF writer_exit] ok by (cases "shutdown s") (simp_all add: inTime_def work_def)
  qed (use assms(2) in simp)
qed

lemma logger_goes_on:
  assumes "sound eager c input oldLog s" and "keepLog c" and "loggerAt s \<noteq> LoggerDone"
    and "loggerQ s \<noteq> [] \<or> shutdown s \<or> loggerAt s = LoggerTimedOut"
  shows "advances eager c input oldLog s"
proof -
  have ok: "\<not> failed s" "eager \<and> readerAt s = ReaderDone \<longrightarrow> stdin s = []" "inTime c s"
    using assms(1) by (simp_all add: sound_def)
  note adv = advancesI [OF assms(1)]
  show ?thesis
  proof (cases "loggerAt s")
    case Logging
    show ?thesis
    proof (cases "loggerQ s")
      case Nil
      then show ?thesis using adv [OF log_timeout] ok Logging assms(2,4) by (simp add: inTime_def work_def)
    next
      case (Cons l q)
      then show ?thesis
        using adv [OF log_line] adv [OF log_rotate_fails] ok Logging assms(2)
        by (cases "tooBig c (logFile s @ [l])") (simp_all add: inTime_def work_def)
    qed
  next
    case LoggerTimedOut
    then show ?thesis
      using adv [OF log_continue] adv [OF log_exit] ok assms(2) by (cases "shutdown s") (simp_all add: inTime_def work_def)
  qed (use assms(3) in simp)
qed

lemma reader_goes_on:
  assumes "sound eager c input oldLog s" and "readerAt s \<noteq> ReaderDone"
  shows "advances eager c input oldLog s"
proof -
  have ok: "\<not> failed s" "pipe_inv c input oldLog s" "\<not> shutdown s" "writerAt s \<noteq> WriterDone"
      "keepLog c \<longrightarrow> loggerAt s \<noteq> LoggerDone"
    using assms by (auto simp: sound_def clean_inv_def)
  note adv = advancesI [OF assms(1)]
  show ?thesis
  proof (cases "readerAt s")
    case Reading
    then show ?thesis
      using adv [OF read_eof] adv [OF read_line] ok by (cases "stdin s") (simp_all add: inTime_def work_def)
  next
    case (PutWriter l)
    show ?thesis
    proof (cases "hasRoom c (writerQ s)")
      case True
      then show ?thesis using adv [OF put_writer [OF PutWriter]] PutWriter ok by (simp add: inTime_def work_def)
    next
      case False
      then have "writerQ s \<noteq> []" by (auto simp: hasRoom_def)
      then show ?thesis using writer_goes_on [OF assms(1)] ok by blast
    qed
  next
    case (PutLogger l)
    show ?thesis
    proof (cases "hasRoom c (loggerQ s)")
      case True
      then show ?thesis using adv [OF put_logger [OF PutLogger]] PutLogger ok by (simp add: inTime_def work_def)
    next
      case False
      then have "keepLog c" "loggerQ s \<noteq> []" using ok(2) PutLogger by (auto simp: hasRoom_def pipe_inv_def)
      then show ?thesis using logger_goes_on [OF assms(1)] ok by blast
    qed
  qed (use assms(2) in simp)
qed

lemma sound_goes_on:
  assumes "sound eager c input oldLog s" and "\<not> finished s"
  shows "advances eager c input oldLog s"
proof (cases "readerAt s = ReaderDone")
  case True
  have ok: "\<not> failed s" "eager \<longrightarrow> stdin s = []" "clean_inv c s" "inTime c s"
    using assms(1) True by (simp_all add: sound_def)
  note adv = advancesI [OF assms(1)]
  show ?thesis
  proof (cases "shutdown s")
    case False
    show ?thesis
    proof (cases "writerAt s = WriterTimedOut \<or> keepLog c \<and> loggerAt s = LoggerTimedOut")
      case late: True
      then show ?thesis using writer_goes_on [OF assms(1)] logger_goes_on [OF assms(1)] by fastforce
    next
      case on_time: False
      have "writerAt s \<noteq> WriterDone" "keepLog c \<longrightarrow> loggerAt s \<noteq> LoggerDone"
        using ok(1,3) False by (auto simp: clean_inv_def)
      then show ?thesis
        using adv [OF order_shutdown] True False ok on_time
        by (cases "writerAt s"; cases "loggerAt s") (auto simp: someDead_def inTime_def work_def)
    qed
  next
    case sh: True
    show ?thesis
    proof (cases "allDead c s")
      case False
      then show ?thesis
        using writer_goes_on [OF assms(1)] logger_goes_on [OF assms(1)] True sh by (auto simp: allDead_def)
    next
      case dead: True
      then show ?thesis using adv [OF join_threads [OF sh dead assms(2)]] ok assms(2) by (simp add: inTime_def work_def)
    qed
  qed
qed (rule reader_goes_on [OF assms(1)])

interpretation drain: approach "istep c" "sound eager c input oldLog" finished work for eager c input oldLog
proof
  show "\<exists>s'. istep c s s' \<and> sound eager c input oldLog s' \<and> work s' < work s" if "sound eager c input oldLog s" "\<not> finished s" for s
    using sound_goes_on [OF that] by (simp add: advances_def)
qed

text \<open>
  C27.  The orderly end: once the shutdown has been ordered, every run of the threads is finite.  If at
  some moment after the order no line has come too late (neither the writer nor the logger stands
  between a \<^verbatim>\<open>get\<close> that has timed out and its test of the shutdown, or has ended, with a line in its
  queue), then a run from there that is not cut short by an error of the writer or the logger and
  cannot go on has finished: all threads have ended, every line that was read has been handled by the
  writer, and, if a log is kept, the log with its archives holds them all (unless a rotation wrote over an
  archive).
\<close>

theorem pipeline_drains:
  assumes "run_of c input oldLog s" and "shutdown s" and "inTime c s"
    and "(istep c)\<^sup>*\<^sup>* s t" and "\<not> failed t" and "\<forall>t'. \<not> istep c t t'"
  shows "wfP (\<lambda>s' s. shutdown s \<and> istep c s s') \<and> finished t \<and> allDead c t \<and> handled t @ stdin t = input \<and>
    (keepLog c \<and> \<not> overwritten t \<longrightarrow> logged t @ stdin t = oldLog @ input)"
proof -
  have run: "run_of c input oldLog t" using assms(1,4) by (simp add: run_of_def)
  note inv = pipe_inv_run [OF run]
  have ok: "shutdown t" "clean_inv c t" "inTime c t"
    using inTime_steps [OF assms(4,2) clean_inv_run [OF assms(1)] assms(3,5)] by simp_all
  then have "sound False c input oldLog t" using inv assms(5) by (simp add: sound_def)
  then have fin: "finished t" using drain.not_stuck assms(6) by blast
  then have dead: "allDead c t" using ok assms(5) by (simp add: clean_inv_def)
  then have "writerQ t = []" "keepLog c \<longrightarrow> loggerQ t = []" "lost t = []" "readerAt t = ReaderDone"
    using ok assms(5) by (auto simp: inTime_def allDead_def clean_inv_def)
  then show ?thesis
    using fin dead istep_wf inv by (auto simp: pipe_inv_def)
qed

text \<open>
  C40.  Without errors the program can always come to its end, however small the queues are: from every
  state of a run in which nothing has failed, the reader has not given up and no line has come too late
  (in particular from every such state before the shutdown is ordered), steps without a failure lead to a
  state in which the program has ended, the writer has handled every line of the input and, if a log is
  kept and no archive was written over, the log with its archives holds every line.
\<close>

theorem pipeline_can_finish:
  assumes "run_of c input oldLog s" and "\<not> failed s" and "readerAt s = ReaderDone \<longrightarrow> stdin s = []"
    and "inTime c s"
  shows "\<exists>s'. (istep c)\<^sup>*\<^sup>* s s' \<and> finished s' \<and> \<not> failed s' \<and> handled s' = input \<and>
    (keepLog c \<and> \<not> overwritten s' \<longrightarrow> logged s' = oldLog @ input)"
proof -
  have "sound True c input oldLog s"
    using assms pipe_inv_run clean_inv_run by (auto simp: sound_def)
  then obtain s' where s': "(istep c)\<^sup>*\<^sup>* s s'" "sound True c input oldLog s'" "finished s'"
    using drain.reaches by blast
  then have "allDead c s'" "shutdown s'" "\<not> failed s'" by (auto simp: sound_def clean_inv_def allDead_def)
  then show ?thesis
    using s' by (intro exI [of _ s']) (auto simp: sound_def pipe_inv_def clean_inv_def inTime_def allDead_def)
qed

text \<open>A run with one line of input and no log.\<close>

definition sampleConfig :: config where
  "sampleConfig = \<lparr>keepLog = False, queueSize = 1, maxLogSize = 0, logPath = []\<rparr>"

lemma run_step: "run_of c input oldLog s \<Longrightarrow> istep c s s' \<Longrightarrow> run_of c input oldLog s'"
  unfolding run_of_def by (rule rtranclp.rtrancl_into_rtrancl)

definition sampleRead :: pipe where
  "sampleRead = (startPipe [''x'', ''y''] [])\<lparr>stdin := [''y''], readerAt := PutWriter ''x''\<rparr>"

lemma sampleRead_run: "run_of sampleConfig [''x'', ''y''] [] sampleRead"
proof -
  have "run_of sampleConfig [''x'', ''y''] [] (startPipe [''x'', ''y''] [])" by (simp add: run_of_def)
  then show ?thesis unfolding sampleRead_def
    by (rule run_step) (intro read_line; simp add: startPipe_def)
qed

theorem pipeline_order_witness: "writerQ sampleRead @ [''x''] @ [''y''] = [''x'', ''y'']"
  using pipeline_order [OF sampleRead_run] by (simp add: sampleRead_def startPipe_def)

theorem pipeline_can_finish_witness:
  "\<exists>s. (istep sampleConfig)\<^sup>*\<^sup>* sampleRead s \<and> finished s \<and> handled s = [''x'', ''y'']"
  using pipeline_can_finish [OF sampleRead_run] by (auto simp: sampleRead_def startPipe_def inTime_def)

definition sampleOrdered :: pipe where
  "sampleOrdered = (startPipe [] [])\<lparr>readerAt := ReaderDone, shutdown := True\<rparr>"

definition sampleEnd :: pipe where
  "sampleEnd = sampleOrdered\<lparr>writerAt := WriterDone, finished := True\<rparr>"

lemmas sample_defs = sampleEnd_def sampleOrdered_def startPipe_def sampleConfig_def someDead_def allDead_def

lemma sampleOrdered_run: "run_of sampleConfig [] [] sampleOrdered"
proof -
  let ?s = "startPipe [] []"
  have "run_of sampleConfig [] [] ?s" by (simp add: run_of_def)
  then have "run_of sampleConfig [] [] (?s\<lparr>readerAt := ReaderDone\<rparr>)"
    by (rule run_step) (rule read_eof; simp add: sample_defs)
  then show ?thesis
    by (rule run_step) (use order_shutdown [of sampleConfig "?s\<lparr>readerAt := ReaderDone\<rparr>"] in \<open>simp add: sample_defs\<close>)
qed

lemma sampleEnd_reached: "(istep sampleConfig)\<^sup>*\<^sup>* sampleOrdered sampleEnd"
proof -
  let ?w = "\<lambda>w. sampleOrdered\<lparr>writerAt := w\<rparr>"
  have "istep sampleConfig sampleOrdered (?w Writing)"
    using connect [of sampleOrdered sampleConfig] by (simp add: sample_defs)
  moreover have "istep sampleConfig (?w Writing) (?w WriterTimedOut)"
    using writer_timeout [of "?w Writing" sampleConfig] by (simp add: sample_defs)
  moreover have "istep sampleConfig (?w WriterTimedOut) (?w WriterDone)"
    using writer_exit [of "?w WriterTimedOut" sampleConfig] by (simp add: sample_defs)
  moreover have "istep sampleConfig (?w WriterDone) sampleEnd"
    using join_threads [of "?w WriterDone" sampleConfig] by (simp add: sample_defs)
  ultimately show ?thesis by (meson converse_rtranclp_into_rtranclp rtranclp.rtrancl_refl)
qed

theorem pipeline_drains_witness: "finished sampleEnd \<and> wfP (\<lambda>s' s. shutdown s \<and> istep sampleConfig s s')"
proof -
  have "shutdown sampleOrdered" "inTime sampleConfig sampleOrdered" "\<not> failed sampleEnd"
    by (simp_all add: sample_defs inTime_def)
  moreover have "\<forall>s'. \<not> istep sampleConfig sampleEnd s'"
    by (auto simp: sample_defs elim!: istep.cases)
  ultimately show ?thesis using pipeline_drains [OF sampleOrdered_run _ _ sampleEnd_reached] by blast
qed

subsection \<open>A line that comes too late\<close>

lemma run_handles:
  assumes "\<not> keepLog c" and "k \<le> length input"
  shows "run_of c input [] ((startPipe input [])\<lparr>writerAt := Writing, stdin := drop k input, handled := take k input\<rparr>)"
  using assms(2)
proof (induction k)
  case 0
  have "run_of c input [] (startPipe input [])" by (simp add: run_of_def)
  then have "run_of c input [] ((startPipe input [])\<lparr>writerAt := Writing\<rparr>)"
    by (rule run_step) (rule connect, simp add: startPipe_def)
  then show ?case by (simp add: startPipe_def)
next
  case (Suc k)
  let ?s = "\<lambda>k. (startPipe input [])\<lparr>writerAt := Writing, stdin := drop k input, handled := take k input\<rparr>"
  have "drop k input = input ! k # drop (Suc k) input" using Suc.prems by (simp add: Cons_nth_drop_Suc)
  then have "istep c (?s k) ((?s k)\<lparr>stdin := drop (Suc k) input, readerAt := PutWriter (input ! k)\<rparr>)"
    by (intro read_line) (simp_all add: startPipe_def)
  moreover have "istep c ((?s k)\<lparr>stdin := drop (Suc k) input, readerAt := PutWriter (input ! k)\<rparr>)
      ((?s k)\<lparr>stdin := drop (Suc k) input, writerQ := [input ! k]\<rparr>)"
    using put_writer [of "(?s k)\<lparr>stdin := drop (Suc k) input, readerAt := PutWriter (input ! k)\<rparr>" "input ! k" c] assms(1)
    by (auto simp: hasRoom_def startPipe_def)
  moreover have "istep c ((?s k)\<lparr>stdin := drop (Suc k) input, writerQ := [input ! k]\<rparr>) (?s (Suc k))"
    using handle_line [of "(?s k)\<lparr>stdin := drop (Suc k) input, writerQ := [input ! k]\<rparr>" "input ! k" "[]" c] Suc.prems
    by (simp add: startPipe_def take_Suc_conv_app_nth)
  ultimately show ?case using Suc run_step by simp blast
qed

text \<open>
  C11.  Lines can be lost without any error.  For every input that is not empty there is a run (without a
  log) that comes to its end, with nothing failed and all of the input read, in which the writer has
  handled all lines but the last, which stays in its queue: the writer finds its queue empty, then the
  reader puts the last line there and ends, the shutdown is ordered, and the writer, still between its
  \<^verbatim>\<open>get\<close> and the test of the shutdown, ends as well.
\<close>

theorem line_left_behind:
  assumes "\<not> keepLog c"
  shows "\<exists>s. run_of c (input @ [l]) [] s \<and> finished s \<and> \<not> failed s \<and> stdin s = [] \<and>
    handled s = input \<and> writerQ s = [l]"
proof -
  let ?s = "(startPipe (input @ [l]) [])\<lparr>writerAt := Writing, stdin := [l], handled := input\<rparr>"
  let ?w = "?s\<lparr>writerAt := WriterTimedOut\<rparr>"
  let ?p = "?w\<lparr>stdin := [], readerAt := ReaderDone, writerQ := [l]\<rparr>"
  have "run_of c (input @ [l]) [] ?s"
    using run_handles [OF assms, of "length input" "input @ [l]"] by simp
  then have "run_of c (input @ [l]) [] ?w"
    by (rule run_step) (use writer_timeout [of ?s c] in \<open>simp add: startPipe_def\<close>)
  then have "run_of c (input @ [l]) [] (?w\<lparr>stdin := [], readerAt := PutWriter l\<rparr>)"
    by (rule run_step) (rule read_line; simp add: startPipe_def)
  then have "run_of c (input @ [l]) [] (?w\<lparr>stdin := [], writerQ := [l]\<rparr>)"
    by (rule run_step)
       (use put_writer [of "?w\<lparr>stdin := [], readerAt := PutWriter l\<rparr>" l c] assms in \<open>auto simp: startPipe_def hasRoom_def\<close>)
  then have "run_of c (input @ [l]) [] ?p"
    by (rule run_step) (use read_eof [of "?w\<lparr>stdin := [], writerQ := [l]\<rparr>" c] in \<open>simp add: startPipe_def\<close>)
  then have "run_of c (input @ [l]) [] (?p\<lparr>shutdown := True\<rparr>)"
    by (rule run_step) (rule order_shutdown; simp add: startPipe_def someDead_def)
  then have "run_of c (input @ [l]) [] (?p\<lparr>shutdown := True, writerAt := WriterDone\<rparr>)"
    by (rule run_step) (use writer_exit [of "?p\<lparr>shutdown := True\<rparr>" c] in \<open>simp add: startPipe_def\<close>)
  then have "run_of c (input @ [l]) [] (?p\<lparr>shutdown := True, writerAt := WriterDone, finished := True\<rparr>)"
    by (rule run_step)
       (use join_threads [of "?p\<lparr>shutdown := True, writerAt := WriterDone\<rparr>" c] assms in \<open>simp add: startPipe_def allDead_def\<close>)
  then show ?thesis by (intro exI conjI) (assumption | simp add: startPipe_def)+
qed

theorem line_left_behind_witness:
  "\<exists>s. run_of sampleConfig [''x'', ''y''] [] s \<and> finished s \<and> handled s = [''x''] \<and> writerQ s = [''y'']"
  using line_left_behind [of sampleConfig "[''x'']" "''y''"] by (auto simp: sampleConfig_def)

subsection \<open>A dead writer\<close>

lemma fill_queue:
  assumes "\<not> keepLog c" and "k \<le> queueSize c" and "k \<le> length input"
  shows "run_of c input [] ((startPipe input [])\<lparr>writerAt := WriterDone, failed := True, shutdown := True,
    writerQ := take k input, stdin := drop k input\<rparr>)"
  using assms(2,3)
proof (induction k)
  case 0
  let ?s = "startPipe input []"
  have "run_of c input [] ?s" by (simp add: run_of_def)
  then have "run_of c input [] (?s\<lparr>writerAt := WriterDone, failed := True\<rparr>)"
    by (rule run_step) (rule connect_fails, simp add: startPipe_def)
  then have "run_of c input [] (?s\<lparr>writerAt := WriterDone, failed := True, shutdown := True\<rparr>)"
    by (rule run_step) (rule order_shutdown [of c "?s\<lparr>writerAt := WriterDone, failed := True\<rparr>", simplified], simp_all add: someDead_def startPipe_def)
  then show ?case by (simp add: startPipe_def)
next
  case (Suc k)
  let ?s = "\<lambda>k. (startPipe input [])\<lparr>writerAt := WriterDone, failed := True, shutdown := True,
    writerQ := take k input, stdin := drop k input\<rparr>"
  have "drop k input = input ! k # drop (Suc k) input" using Suc.prems by (simp add: Cons_nth_drop_Suc)
  then have "istep c (?s k) ((?s k)\<lparr>stdin := drop (Suc k) input, readerAt := PutWriter (input ! k)\<rparr>)"
    by (intro read_line) (simp_all add: startPipe_def)
  moreover have "istep c ((?s k)\<lparr>stdin := drop (Suc k) input, readerAt := PutWriter (input ! k)\<rparr>) (?s (Suc k))"
    using put_writer [of "(?s k)\<lparr>stdin := drop (Suc k) input, readerAt := PutWriter (input ! k)\<rparr>" "input ! k" c] assms(1) Suc.prems
    by (simp add: hasRoom_def startPipe_def take_Suc_conv_app_nth)
  ultimately show ?case using Suc run_step by simp blast
qed

text \<open>
  When the writer cannot connect to the database and the input is longer than the queue, the
  program hangs: it reaches a state from which no step is possible and which is not the end, because
  the reader waits for room in a queue that nobody empties while the main program waits for the reader.
\<close>

theorem dead_writer_hangs:
  assumes "\<not> keepLog c" and "0 < queueSize c" and "queueSize c < length input"
  shows "\<exists>s. run_of c input [] s \<and> (\<forall>s'. \<not> istep c s s') \<and> shutdown s \<and> \<not> finished s \<and> readerAt s \<noteq> ReaderDone"
proof -
  let ?n = "queueSize c"
  let ?s = "(startPipe input [])\<lparr>writerAt := WriterDone, failed := True, shutdown := True,
    writerQ := take ?n input, stdin := drop ?n input\<rparr>"
  let ?t = "?s\<lparr>stdin := drop (Suc ?n) input, readerAt := PutWriter (input ! ?n)\<rparr>"
  have "drop ?n input = input ! ?n # drop (Suc ?n) input" using assms by (simp add: Cons_nth_drop_Suc)
  then have "istep c ?s ?t" by (intro read_line) (simp_all add: startPipe_def)
  then have "run_of c input [] ?t"
    using fill_queue [of c ?n input] assms run_step by simp
  moreover have "\<not> istep c ?t s'" for s'
    using assms by (auto simp: startPipe_def hasRoom_def allDead_def elim!: istep.cases)
  ultimately show ?thesis by (intro exI [of _ ?t]) (simp add: startPipe_def)
qed

theorem dead_writer_hangs_witness:
  "\<exists>s. run_of sampleConfig [''x'', ''y''] [] s \<and> (\<forall>s'. \<not> istep sampleConfig s s') \<and> \<not> finished s"
  using dead_writer_hangs [of sampleConfig "[''x'', ''y'']"] by (auto simp: sampleConfig_def)

end
