(* ===== verification/ScriptOptions.thy ===== *)
theory ScriptOptions
  imports Options GetOpt Csv SplitFile InfluxThreads
begin

text \<open>
  The command lines of the scripts that use \<^verbatim>\<open>argparse\<close>: \<^verbatim>\<open>se2csv.py\<close>, \<^verbatim>\<open>se2file.py\<close> and
  \<^verbatim>\<open>se2influx.py\<close>.
\<close>

subsection \<open>\<^verbatim>\<open>se2csv.py\<close>\<close>

text \<open>\<^verbatim>\<open>type=deprecated\<close> refuses every value.\<close>

definition deprecated :: "string \<Rightarrow> optval option" where
  "deprecated s = None"

definition csvParser :: "(string \<Rightarrow> bool) \<Rightarrow> optval argparser" where
  "csvParser openable =
     \<lparr>p_options = [
        switch [''-a''] ''append'' setTrue,
        valued [''-d''] ''delimeter'' textOpt,
        switch [''-t''] ''headers'' setTrue,
        (valued [''-p''] ''prefix'' textOpt)\<lparr>o_required := True\<rparr>,
        valued [''-i''] ''i'' deprecated,
        valued [''-o''] ''o'' deprecated,
        valued [''-e''] ''e'' deprecated],
      p_operand = Some (''infile'', fileOpt openable ''r''),
      p_defaults = [
        (''append'', OBool False), (''delimeter'', OText '',''), (''headers'', OBool False), (''prefix'', ONone),
        (''i'', ONone), (''o'', ONone), (''e'', ONone), (''infile'', OFile ''-'' ''r'')]\<rparr>"

definition textOr :: "string \<Rightarrow> optval option \<Rightarrow> string" where
  "textOr s v = (case the_text v of Some t \<Rightarrow> t | None \<Rightarrow> s)"

definition fileInput :: "optval option \<Rightarrow> input" where
  "fileInput v = (case the_file v of None \<Rightarrow> StandardInput | Some n \<Rightarrow> if n = ''-'' then StandardInput else FileInput n)"

text \<open>The name of the file of a type of device, and whether it is appended to.\<close>

definition devsFileName :: "optval namespace \<Rightarrow> string \<Rightarrow> string \<times> bool" where
  "devsFileName xs dev = (textOr [] (dget xs ''prefix'') @ ''.'' @ dev @ ''.csv'', isSet xs ''append'')"

definition csvScript ::
  "(string \<Rightarrow> pyval res) \<Rightarrow> (string \<Rightarrow> bool) \<Rightarrow> (input \<Rightarrow> string list) \<Rightarrow> string list \<Rightarrow>
     exit + (string \<Rightarrow> string \<times> bool) \<times> unit res \<times> csvfiles" where
  "csvScript loads openable lines_of argv =
     then_do (parse_args (csvParser openable) argv) (\<lambda>xs.
       Inr (devsFileName xs, csvLines loads (isSet xs ''headers'') (lines_of (fileInput (dget xs ''infile''))) []))"

subsection \<open>\<^verbatim>\<open>se2file.py\<close>\<close>

definition splitParser :: "optval argparser" where
  "splitParser =
     \<lparr>p_options = [
        switch [''-v''] ''debug'' setTrue,
        (valued [''-b''] ''basedir'' textOpt)\<lparr>o_required := True\<rparr>,
        valued [''-p''] ''prefix'' textOpt,
        switch [''-d''] ''store_daily'' setTrue,
        valued [''-t''] ''openfilesecs'' textOpt,
        switch [''-w''] ''looper'' setTrue,
        switch [''-m''] ''make_daily_dir'' setTrue],
      p_operand = Some (''infile'', textOpt),
      p_defaults = [
        (''debug'', OBool False), (''basedir'', ONone), (''prefix'', OText ''solardata_''), (''store_daily'', OBool False),
        (''openfilesecs'', OText ''120''), (''looper'', OBool False), (''make_daily_dir'', OBool False),
        (''infile'', OText ''stdin'')]\<rparr>"

text \<open>The warning that \<^verbatim>\<open>getargs\<close> prints: waiting for ever is only for standard input.\<close>

definition loopWarning :: "optval namespace \<Rightarrow> bool" where
  "loopWarning xs \<longleftrightarrow> isSet xs ''looper'' \<and> the_text (dget xs ''infile'') \<noteq> Some ''stdin''"

text \<open>
  The beginning of \<^verbatim>\<open>main\<close>.  A file that cannot be opened raises \<^verbatim>\<open>NameError\<close> (the message names
  \<^verbatim>\<open>ars\<close>); a file is never waited for.
\<close>

definition splitStart :: "(string \<Rightarrow> bool) \<Rightarrow> optval namespace \<Rightarrow> failure + input \<times> splitArgs" where
  "splitStart openable xs =
     (let a = \<lparr>basedir = textOr [] (dget xs ''basedir''), prefix = textOr [] (dget xs ''prefix''),
               store_daily = isSet xs ''store_daily'', make_daily_dir = isSet xs ''make_daily_dir'',
               looper = isSet xs ''looper''\<rparr>;
          infile = textOr [] (dget xs ''infile'')
      in case py_int 10 (textOr [] (dget xs ''openfilesecs'')) of
           Inl e \<Rightarrow> Inl (Raises e)
         | Inr secs \<Rightarrow>
             if infile = ''stdin'' then Inr (StandardInput, a)
             else if openable infile then Inr (FileInput infile, a\<lparr>looper := False\<rparr>)
             else Inl NameError)"

definition splitScript ::
  "pyver \<Rightarrow> (string \<Rightarrow> bool) \<Rightarrow> (input \<Rightarrow> string list) \<Rightarrow> (nat \<Rightarrow> daytime) \<Rightarrow> string list \<Rightarrow>
     (string \<times> string list) list \<Rightarrow> string list \<Rightarrow> exit + failure + split option" where
  "splitScript ver openable lines_of at_turn ds fs argv =
     then_do (parse_args splitParser argv) (\<lambda>xs. Inr
       (then_do (splitStart openable xs) (\<lambda>(inp, a). Inr (splitMain ver a at_turn (startSplit (lines_of inp) ds fs)))))"

text \<open>A file is read to its end whatever the options: only standard input is waited for.\<close>

lemma splitStart_file: "splitStart openable xs = Inr (inp, a) \<Longrightarrow> inp \<noteq> StandardInput \<Longrightarrow> \<not> looper a"
  by (auto simp: splitStart_def Let_def split: sum.splits if_splits)

subsection \<open>\<^verbatim>\<open>se2influx.py\<close>\<close>

text \<open>Options without a type keep the text that was typed; their defaults are numbers.\<close>

definition influxParser :: "optval argparser" where
  "influxParser =
     \<lparr>p_options = [
        valued [''--host''] ''host'' textOpt,
        valued [''--port''] ''port'' textOpt,
        valued [''--username''] ''username'' textOpt,
        valued [''--password''] ''password'' textOpt,
        valued [''--database''] ''database'' textOpt,
        switch [''--ssl''] ''ssl'' setTrue,
        switch [''--verify_ssl''] ''verify_ssl'' setTrue,
        valued [''--timeout''] ''timeout'' intOpt,
        valued [''--retries''] ''retries'' textOpt,
        switch [''--use_udp''] ''use_udp'' setTrue,
        valued [''--udp_port''] ''udp_port'' textOpt,
        valued [''--queue_size''] ''queue_size'' textOpt,
        valued [''--log_path''] ''log_path'' textOpt,
        valued [''--max_log_size''] ''max_log_size'' textOpt,
        valued [''--local_tz''] ''local_tz'' textOpt,
        valued [''--stat_timer_secs''] ''stat_timer_secs'' intOpt,
        switch [''--debug''] ''debug'' setTrue],
      p_operand = None,
      p_defaults = [
        (''host'', OText ''localhost''), (''port'', ONum 8086), (''username'', OText ''root''),
        (''password'', OText ''root''), (''database'', OText ''semonitor''), (''ssl'', OBool False),
        (''verify_ssl'', OBool False), (''timeout'', ONone), (''retries'', ONum 3), (''use_udp'', OBool False),
        (''udp_port'', ONum 4444), (''queue_size'', ONum 10000), (''log_path'', ONone),
        (''max_log_size'', ONum 1024000), (''local_tz'', ONone), (''stat_timer_secs'', ONone), (''debug'', OBool False)]\<rparr>"

text \<open>The constructor: an unknown time zone exits; \<open>known_tz\<close> is the time zone library.\<close>

record influxSetup =
  i_params :: "(string \<times> optval option) list"
  i_queue_size :: optval
  i_log_path :: "string option"
  i_max_log_size :: optval
  i_local_tz :: "string option"
  i_stat_timer :: optval

definition influxParams :: "optval namespace \<Rightarrow> (string \<times> optval option) list" where
  "influxParams xs = map (\<lambda>d. (d, dget xs d)) [''host'', ''port'', ''username'', ''password'', ''database'', ''ssl'',
     ''verify_ssl'', ''timeout'', ''retries'', ''use_udp'', ''udp_port'']"

definition influxInit :: "(string \<Rightarrow> bool) \<Rightarrow> optval namespace \<Rightarrow> exit + influxSetup" where
  "influxInit known_tz xs =
     (let local_tz = the_text (dget xs ''local_tz''); v = (\<lambda>d. case dget xs d of Some x \<Rightarrow> x | None \<Rightarrow> ONone)
      in if (case local_tz of None \<Rightarrow> True | Some n \<Rightarrow> known_tz n)
         then Inr \<lparr>i_params = influxParams xs,
                   i_queue_size = v ''queue_size'', i_log_path = the_text (dget xs ''log_path''),
                   i_max_log_size = v ''max_log_size'', i_local_tz = local_tz, i_stat_timer = v ''stat_timer_secs''\<rparr>
         else Inl UsageError)"

text \<open>
  The configuration of the threads.  There is none when a size is text: comparing it with a number
  raises \<^verbatim>\<open>TypeError\<close>, for the queue at the first line, for the log after the first line (an
  empty text switches the rotation off, like zero).
\<close>

fun queueLimit :: "optval \<Rightarrow> nat option" where
  "queueLimit (ONum n) = Some (nat n)"
| "queueLimit v = None"

definition logLimit :: "optval \<Rightarrow> nat option" where
  "logLimit v = (if v = OText [] then Some 0 else queueLimit v)"

definition threadConfig :: "influxSetup \<Rightarrow> config option" where
  "threadConfig s =
     (case (queueLimit (i_queue_size s), logLimit (i_max_log_size s)) of
        (Some q, Some m) \<Rightarrow> Some
          \<lparr>keepLog = (i_log_path s \<noteq> None \<and> i_log_path s \<noteq> Some []), queueSize = q, maxLogSize = m,
           logPath = (case i_log_path s of Some p \<Rightarrow> p | None \<Rightarrow> [])\<rparr>
      | _ \<Rightarrow> None)"

definition influxStart :: "(string \<Rightarrow> bool) \<Rightarrow> string list \<Rightarrow> exit + influxSetup" where
  "influxStart known_tz argv = then_do (parse_args influxParser argv) (influxInit known_tz)"

subsection \<open>What the options can be\<close>

text \<open>The deprecated options of the conversion to CSV are never accepted.\<close>

definition csvKind :: "string \<Rightarrow> optval \<Rightarrow> bool" where
  "csvKind d v \<longleftrightarrow> (d \<in> {''i'', ''o'', ''e''} \<longrightarrow> v = ONone)"

theorem csv_deprecated:
  assumes "parse_args (csvParser openable) argv = Inr xs" and "d \<in> {''i'', ''o'', ''e''}"
    and "dget xs d = Some v"
  shows "v = ONone"
proof -
  have "holds csvKind xs"
  proof (rule parse_args_holds [OF assms(1)])
    show "holds csvKind (p_defaults (csvParser openable))"
      by (rule holds_list) (simp add: csvParser_def csvKind_def)
    show "list_all (option_keeps csvKind) (p_options (csvParser openable))"
      by (simp add: csvParser_def option_keeps_def switch_def valued_def csvKind_def setTrue_def deprecated_def)
    show "\<forall>d conv s v. p_operand (csvParser openable) = Some (d, conv) \<longrightarrow> conv s = Some v \<longrightarrow> csvKind d v"
      by (simp add: csvParser_def csvKind_def)
  qed
  then show ?thesis using assms(2,3) by (auto simp: holds_def csvKind_def)
qed

definition influxKind :: "string \<Rightarrow> optval \<Rightarrow> bool" where
  "influxKind d v \<longleftrightarrow>
     (if d = ''queue_size'' then v = ONum 10000 \<or> (\<exists>s. v = OText s)
      else if d = ''max_log_size'' then v = ONum 1024000 \<or> (\<exists>s. v = OText s) else True)"

text \<open>
  No command line gives the database script another size of the queues: a size that is typed stays
  text, with which the threads cannot work.  The log is rotated at the default size or not at all.
\<close>

theorem influx_sizes:
  assumes "influxStart known_tz argv = Inr s" and "threadConfig s = Some c"
  shows "queueSize c = 10000 \<and> maxLogSize c \<in> {1024000, 0}"
proof -
  obtain xs where xs: "parse_args influxParser argv = Inr xs" "influxInit known_tz xs = Inr s"
    using assms(1) by (auto simp: influxStart_def then_do_eq_Inr)
  have kinds: "holds influxKind xs"
  proof (rule parse_args_holds [OF xs(1)])
    show "holds influxKind (p_defaults influxParser)"
      by (rule holds_list) (simp add: influxParser_def influxKind_def)
    show "list_all (option_keeps influxKind) (p_options influxParser)"
      by (simp add: influxParser_def option_keeps_def switch_def valued_def influxKind_def setTrue_def)
  qed (simp add: influxParser_def)
  have "i_queue_size s = (case dget xs ''queue_size'' of Some x \<Rightarrow> x | None \<Rightarrow> ONone)"
      "i_max_log_size s = (case dget xs ''max_log_size'' of Some x \<Rightarrow> x | None \<Rightarrow> ONone)"
    using xs(2) by (auto simp: influxInit_def Let_def split: if_splits)
  moreover have "v = ONum 10000 \<or> (\<exists>s. v = OText s)" if "dget xs ''queue_size'' = Some v" for v
    using kinds that by (auto simp: holds_def influxKind_def dest!: spec [of _ "''queue_size''"])
  moreover have "v = ONum 1024000 \<or> (\<exists>s. v = OText s)" if "dget xs ''max_log_size'' = Some v" for v
    using kinds that by (auto simp: holds_def influxKind_def dest!: spec [of _ "''max_log_size''"])
  ultimately show ?thesis
    using assms(2) by (force simp: threadConfig_def logLimit_def split: option.splits if_splits)
qed

end
