(* ===== verification/NetIO.thy ===== *)
theory NetIO
  imports Logging PyVersion
begin

text \<open>
  What the two servers of \<^verbatim>\<open>se/network.py\<close> share.  The module treats byte strings as text, as Python 2
  does: the elements of a \<^verbatim>\<open>str\<close> are strings of one character.  Those of a \<^verbatim>\<open>bytearray\<close>, and of any byte
  string in Python 3, are integers, which \<^verbatim>\<open>ord\<close> refuses and which have no \<^verbatim>\<open>encode\<close>; \<^verbatim>\<open>chr\<close> gives text that
  cannot be added to bytes in Python 3.  The version is a parameter (\<open>pyver\<close>).

  A server is code with visible effects, the records of its log and the datagrams it sends, that may
  raise: its log calls evaluate their arguments at every level, so that they can end it.
\<close>

subsection \<open>Byte strings\<close>

datatype pyseq = ByteStr bytes | ByteArr bytes

primrec seqBytes :: "pyseq \<Rightarrow> bytes" where
  "seqBytes (ByteStr b) = b"
| "seqBytes (ByteArr b) = b"

text \<open>Whether the elements are characters.\<close>

definition has_chars :: "pyver \<Rightarrow> pyseq \<Rightarrow> bool" where
  "has_chars ver s \<longleftrightarrow> ver = Py2 \<and> (case s of ByteStr b \<Rightarrow> True | ByteArr b \<Rightarrow> False)"

text \<open>\<^verbatim>\<open>ord(s[i])\<close> of an element, \<^verbatim>\<open>chr(i)\<close> where it is added to bytes.\<close>

definition ord_item :: "pyver \<Rightarrow> byte \<Rightarrow> int res" where
  "ord_item ver b = (case ver of Py2 \<Rightarrow> Inr (uint b) | Py3 \<Rightarrow> Inl TypeError)"

definition chr_bytes :: "pyver \<Rightarrow> int \<Rightarrow> bytes res" where
  "chr_bytes ver i = (case ver of
       Py2 \<Rightarrow> if 0 \<le> i \<and> i < 256 then Inr [word_of_int i] else Inl ValueError
     | Py3 \<Rightarrow> Inl TypeError)"

text \<open>\<^verbatim>\<open>ord(s)\<close> of a byte string, which must have one byte in either version.\<close>

definition ord_bytes :: "bytes \<Rightarrow> int res" where
  "ord_bytes s = (case s of [b] \<Rightarrow> Inr (uint b) | _ \<Rightarrow> Inl TypeError)"

text \<open>\<^verbatim>\<open>[x.encode('hex') for x in s]\<close>\<close>

definition hex_items :: "pyver \<Rightarrow> pyseq \<Rightarrow> string list res" where
  "hex_items ver s = rmap (\<lambda>b. if has_chars ver s then Inr (hex2 b) else Inl AttributeError) (seqBytes s)"

text \<open>\<^verbatim>\<open>socket.inet_ntoa(b)\<close>\<close>

definition inet_ntoa :: "bytes \<Rightarrow> string res" where
  "inet_ntoa b = (if length b = 4 then Inr (join ''.'' (map (\<lambda>x. dec_str (unat x)) b)) else Inl OSError)"

lemma hex_items_str [simp]: "hex_items Py2 (ByteStr b) = Inr (map hex2 b)"
  unfolding hex_items_def by (subst rmap_Inr [where g = hex2]) (simp_all add: has_chars_def)

lemma hex_items_none: "\<not> has_chars ver s \<Longrightarrow> seqBytes s \<noteq> [] \<Longrightarrow> hex_items ver s = Inl AttributeError"
  by (cases "seqBytes s") (simp_all add: hex_items_def)

lemma inet_ntoa_ok [simp]: "length b = 4 \<Longrightarrow> \<exists>s. inet_ntoa b = Inr s"
  by (simp add: inet_ntoa_def)

subsection \<open>Effects\<close>

datatype net_effect = LogLine string | SendTo bytes string nat

type_synonym 'a net = "net_effect list \<times> 'a res"

definition nret :: "'a \<Rightarrow> 'a net" where
  "nret x = ([], Inr x)"

definition nlift :: "'a res \<Rightarrow> 'a net" where
  "nlift r = ([], r)"

definition sendto :: "bytes \<Rightarrow> string \<Rightarrow> nat \<Rightarrow> unit net" where
  "sendto data addr port = ([SendTo data addr port], Inr ())"

definition nbind :: "'a net \<Rightarrow> ('a \<Rightarrow> 'b net) \<Rightarrow> 'b net" where
  "nbind m k = (case snd m of Inl e \<Rightarrow> (fst m, Inl e) | Inr x \<Rightarrow> (fst m @ fst (k x), snd (k x)))"

lemma nbind_lift [simp]:
  "nbind (nlift (Inr x)) k = k x" "nbind (nlift (Inl e)) k = ([], Inl e)" "nbind (nret x) k = k x"
  by (simp_all add: nbind_def nlift_def nret_def)

lemma nbind_snd: "snd (nbind m k) = rbind (snd m) (\<lambda>x. snd (k x))"
  by (cases "snd m") (simp_all add: nbind_def)

lemma net_snd [simp]: "snd (nret x) = Inr x" "snd (nlift r) = r" "snd (sendto data addr port) = Inr ()"
  by (simp_all add: nret_def nlift_def sendto_def)

text \<open>The datagrams sent.\<close>

fun sends :: "net_effect list \<Rightarrow> (bytes \<times> string \<times> nat) list" where
  "sends [] = []"
| "sends (SendTo b a p # es) = (b, a, p) # sends es"
| "sends (LogLine l # es) = sends es"

lemma sends_append [simp]: "sends (es @ es') = sends es @ sends es'"
  by (induction es rule: sends.induct) simp_all

lemma sends_LogLine [simp]: "sends (map LogLine ls) = []"
  by (induction ls) simp_all

text \<open>\<open>quiet m\<close>: nothing is sent.\<close>

definition quiet :: "'a net \<Rightarrow> bool" where
  "quiet m \<longleftrightarrow> sends (fst m) = []"

lemma quiet_nret [intro, simp]: "quiet (nret x)" and quiet_nlift [intro, simp]: "quiet (nlift r)"
  by (simp_all add: quiet_def nret_def nlift_def)

lemma quiet_nbind [intro]: "quiet m \<Longrightarrow> (\<And>x. snd m = Inr x \<Longrightarrow> quiet (k x)) \<Longrightarrow> quiet (nbind m k)"
  by (auto simp: quiet_def nbind_def split: sum.split)

subsection \<open>Log calls\<close>

definition logLine :: "nat \<Rightarrow> nat \<Rightarrow> string \<Rightarrow> unit net" where
  "logLine level lvl text = (if isEnabledFor level lvl then [LogLine text] else [], Inr ())"

text \<open>Records of the level DATA in turn, with arguments that may raise.\<close>

fun logData :: "nat \<Rightarrow> string res list \<Rightarrow> unit net" where
  "logData level [] = nret ()"
| "logData level (r # rs) =
     nbind (nlift r) (\<lambda>text. nbind (logLine level LOG_LEVEL_DATA text) (\<lambda>_. logData level rs))"

text \<open>\<^verbatim>\<open>logger.message\<close>: the hex dump formats each element of the message as an integer.\<close>

definition logMessage :: "pyver \<Rightarrow> nat \<Rightarrow> string \<Rightarrow> nat \<Rightarrow> pyseq \<Rightarrow> string \<Rightarrow> unit net" where
  "logMessage ver level direction seq msg endPoint =
     (let ls = map LogLine (message_log level direction seq (seqBytes msg) endPoint)
      in if isEnabledFor level DEBUG \<and> isEnabledFor level LOG_LEVEL_RAW \<and> has_chars ver msg \<and> seqBytes msg \<noteq> []
         then (take 1 ls, Inl ValueError) else (ls, Inr ()))"

lemma quiet_log [intro, simp]: "quiet (logLine level lvl text)" "quiet (logData level rs)"
    "quiet (logMessage ver level direction seq msg endPoint)"
proof -
  show q: "quiet (logLine level lvl text)" for lvl "text" by (simp add: quiet_def logLine_def)
  show "quiet (logData level rs)" by (induction rs) (auto intro!: quiet_nbind q)
  show "quiet (logMessage ver level direction seq msg endPoint)"
    by (simp add: quiet_def logMessage_def Let_def take_map)
qed

lemma logData_ok:
  "list_all (\<lambda>r. \<exists>t. r = Inr t) rs \<Longrightarrow> snd (logData level rs) = Inr ()"
  by (induction rs) (auto simp: nbind_snd logLine_def)

lemma logData_raises:
  "list_all (\<lambda>r. \<exists>t. r = Inr t) rs \<Longrightarrow> snd (logData level (rs @ Inl e # rs')) = Inl e"
  by (induction rs) (auto simp: nbind_snd logLine_def)

lemma logData_stops: "Inl e \<in> set rs \<Longrightarrow> \<exists>e'. snd (logData level rs) = Inl e'"
proof (induction rs)
  case (Cons r rs)
  then show ?case by (cases r) (auto simp: nbind_snd logLine_def)
qed simp

lemma logMessage_ok:
  "LOG_LEVEL_RAW < level \<or> \<not> has_chars ver msg \<Longrightarrow> snd (logMessage ver level direction seq msg endPoint) = Inr ()"
  by (auto simp: logMessage_def Let_def isEnabledFor_def)

lemma logMessage_raw:
  "level \<le> LOG_LEVEL_RAW \<Longrightarrow> has_chars ver msg \<Longrightarrow> seqBytes msg \<noteq> [] \<Longrightarrow>
     snd (logMessage ver level direction seq msg endPoint) = Inl ValueError"
  by (auto simp: logMessage_def Let_def isEnabledFor_def LOG_LEVEL_RAW_def DEBUG_def)

text \<open>What a run sends and how it ends, one call after the other.\<close>

definition sentResult :: "'a net \<Rightarrow> (bytes \<times> string \<times> nat) list \<times> 'a res" where
  "sentResult m = (sends (fst m), snd m)"

lemma sentResult_then:
  "sentResult m = (s, Inr x) \<Longrightarrow> sentResult (nbind m k) = (s @ fst (sentResult (k x)), snd (sentResult (k x)))"
  by (simp add: sentResult_def nbind_def)

lemma sentResult_basic [simp]:
  "sentResult (nret x) = ([], Inr x)" "sentResult (nlift r) = ([], r)"
  "sentResult (sendto data addr port) = ([(data, addr, port)], Inr ())"
  "sentResult (logLine level lvl text) = ([], Inr ())"
  by (simp_all add: sentResult_def nret_def nlift_def sendto_def logLine_def)

lemma sentResult_log [simp]:
  "sentResult (nbind (logLine level lvl text) k) = sentResult (k ())"
  "sentResult (nbind (sendto data addr port) k) = ((data, addr, port) # fst (sentResult (k ())), snd (sentResult (k ())))"
  by (simp_all add: sentResult_def nbind_def logLine_def sendto_def)

lemma sentResult_quiet: "quiet m \<Longrightarrow> sentResult m = ([], snd m)"
  by (simp add: sentResult_def quiet_def)

end
