(* ===== verification/Dhcp.thy ===== *)
theory Dhcp
  imports NetIO
begin

text \<open>
  The DHCP half of \<^verbatim>\<open>se/network.py\<close>: the message class, the handling of one request and the server
  thread.
\<close>

subsection \<open>Messages\<close>

definition dhcpCookie :: bytes where "dhcpCookie = [0x63, 0x82, 0x53, 0x63]"
definition hdrLen :: nat where "hdrLen = 12"
definition chaddrLen :: nat where "chaddrLen = 16"
definition snameLen :: nat where "snameLen = 64"
definition filenameLen :: nat where "filenameLen = 128"
definition dhcpMsgLen :: nat where "dhcpMsgLen = 300"

definition opCodeReply :: int where "opCodeReply = 2"
definition msgTypeDiscover :: int where "msgTypeDiscover = 1"
definition msgTypeOffer :: int where "msgTypeOffer = 2"
definition msgTypeRequest :: int where "msgTypeRequest = 3"
definition msgTypeAck :: int where "msgTypeAck = 5"
definition optCodeSubnetMask :: int where "optCodeSubnetMask = 1"
definition optCodeRouter :: int where "optCodeRouter = 3"
definition optCodeDNS :: int where "optCodeDNS = 6"
definition optCodeLeaseTime :: int where "optCodeLeaseTime = 51"
definition optCodeMsgType :: int where "optCodeMsgType = 53"
definition optCodeServerId :: int where "optCodeServerId = 54"
definition optCodeEnd :: int where "optCodeEnd = 255"

record dhcpMsg =
  d_op :: int
  d_htype :: int
  d_hlen :: int
  d_hops :: int
  d_xid :: int
  d_secs :: int
  d_flags :: int
  d_ciaddr :: bytes
  d_yiaddr :: bytes
  d_siaddr :: bytes
  d_giaddr :: bytes
  d_chaddr :: bytes
  d_sname :: bytes
  d_filename :: bytes
  d_cookie :: bytes
  d_options :: "(int \<times> pyseq) list"

definition zeros :: "nat \<Rightarrow> bytes" where
  "zeros n = replicate n 0"

definition newDhcp :: dhcpMsg where
  "newDhcp =
     \<lparr>d_op = 0, d_htype = 1, d_hlen = 6, d_hops = 0, d_xid = 0, d_secs = 0, d_flags = 0x8000,
      d_ciaddr = zeros 4, d_yiaddr = zeros 4, d_siaddr = zeros 4, d_giaddr = zeros 4,
      d_chaddr = zeros chaddrLen, d_sname = zeros snameLen, d_filename = zeros filenameLen,
      d_cookie = dhcpCookie, d_options = []\<rparr>"

definition dhcpCodes :: "icode list" where
  "dhcpCodes = [CB, CB, CB, CB, CL, CH, CH]"

definition padded :: "nat \<Rightarrow> bytes \<Rightarrow> bytes" where
  "padded n s = s @ zeros (n - length s)"

fun formatOptions :: "(int \<times> pyseq) list \<Rightarrow> bytes res" where
  "formatOptions [] = Inr []"
| "formatOptions ((code, data) # opts) =
     rbind (pack BE [CB, CB] [code, int (length (seqBytes data))]) (\<lambda>h.
     rbind (formatOptions opts) (\<lambda>rest. Inr (h @ seqBytes data @ rest)))"

definition dhcpFormat :: "pyver \<Rightarrow> dhcpMsg \<Rightarrow> bytes res" where
  "dhcpFormat ver m =
     rbind (pack BE dhcpCodes [d_op m, d_htype m, d_hlen m, d_hops m, d_xid m, d_secs m, d_flags m]) (\<lambda>hdr.
     rbind (formatOptions (d_options m)) (\<lambda>opts.
     rbind (chr_bytes ver optCodeEnd) (\<lambda>end_mark.
       Inr (padded dhcpMsgLen
         (hdr @ d_ciaddr m @ d_yiaddr m @ d_siaddr m @ d_giaddr m @ padded chaddrLen (d_chaddr m) @
          padded snameLen (d_sname m) @ padded filenameLen (d_filename m) @ d_cookie m @ opts @ end_mark)))))"

text \<open>The loop over the options, on what is left of the message.\<close>

fun parseOptions :: "pyver \<Rightarrow> bytes \<Rightarrow> (int \<times> pyseq) list res" where
  "parseOptions ver [] = Inr []"
| "parseOptions ver (c # rest) =
     rbind (ord_item ver c) (\<lambda>optCode.
       if optCode \<noteq> optCodeEnd then
         (case rest of
            [] \<Rightarrow> Inl IndexError
          | n # data \<Rightarrow> rbind (ord_item ver n) (\<lambda>optLen.
              rbind (parseOptions ver (drop (nat optLen) data)) (\<lambda>opts.
                Inr ((optCode, ByteStr (take (nat optLen) data)) # opts))))
       else Inr [])"

definition dhcpParse :: "pyver \<Rightarrow> bytes \<Rightarrow> dhcpMsg res" where
  "dhcpParse ver msg =
     rbind (unpack_ints BE dhcpCodes (take hdrLen msg)) (\<lambda>h.
     rbind (parseOptions ver (drop 240 msg)) (\<lambda>opts. Inr
       \<lparr>d_op = h ! 0, d_htype = h ! 1, d_hlen = h ! 2, d_hops = h ! 3, d_xid = h ! 4, d_secs = h ! 5,
        d_flags = h ! 6, d_ciaddr = slice 12 16 msg, d_yiaddr = slice 16 20 msg,
        d_siaddr = slice 20 24 msg, d_giaddr = slice 24 28 msg,
        d_chaddr = slice 28 (28 + nat (h ! 2)) msg, d_sname = slice 44 108 msg,
        d_filename = slice 108 236 msg, d_cookie = slice 236 240 msg, d_options = opts\<rparr>))"

subsection \<open>The log of a message\<close>

text \<open>\<^verbatim>\<open>s[0:s.find(b"\x00")]\<close>: without a zero, \<^verbatim>\<open>find\<close> is -1 and the last byte is cut off.\<close>

definition upToZero :: "bytes \<Rightarrow> bytes" where
  "upToZero s = (if 0 \<in> set s then takeWhile (\<lambda>b. b \<noteq> 0) s else butlast s)"

definition addrLine :: "string \<Rightarrow> bytes \<Rightarrow> string res" where
  "addrLine name addr = rbind (inet_ntoa addr) (\<lambda>a. Inr (name @ a))"

definition bytesLine :: "pyver \<Rightarrow> string \<Rightarrow> string \<Rightarrow> pyseq \<Rightarrow> string res" where
  "bytesLine ver name sep s = rbind (hex_items ver s) (\<lambda>hs. Inr (name @ join sep hs))"

definition optionLine :: "pyver \<Rightarrow> int \<times> pyseq \<Rightarrow> string res" where
  "optionLine ver opt = bytesLine ver (''option: '' @ int_str (fst opt) @ '' 0x'') [] (snd opt)"

definition dhcpLines :: "pyver \<Rightarrow> dhcpMsg \<Rightarrow> string res list" where
  "dhcpLines ver m =
     [Inr (''op: '' @ int_str (d_op m)), Inr (''htype: '' @ hex_str (nat (d_htype m))),
      Inr (''hlen: '' @ int_str (d_hlen m)), Inr (''hops: '' @ int_str (d_hops m)),
      Inr (''xid: 0x'' @ zpad 8 (hex_str (nat (d_xid m)))), Inr (''secs: '' @ int_str (d_secs m)),
      Inr (''flags: 0x'' @ zpad 4 (hex_str (nat (d_flags m)))),
      addrLine ''ciaddr: '' (d_ciaddr m), addrLine ''yiaddr: '' (d_yiaddr m),
      addrLine ''siaddr: '' (d_siaddr m), addrLine ''giaddr: '' (d_giaddr m),
      bytesLine ver ''chaddr: '' '':'' (ByteStr (take (nat (d_hlen m)) (d_chaddr m))),
      bytesLine ver ''sname: '' [] (ByteStr (upToZero (d_sname m))),
      bytesLine ver ''filename: '' [] (ByteStr (upToZero (d_filename m))),
      bytesLine ver ''cookie: 0x'' [] (ByteStr (d_cookie m))] @
     map (optionLine ver) (d_options m)"

definition dhcpLog :: "pyver \<Rightarrow> nat \<Rightarrow> dhcpMsg \<Rightarrow> unit net" where
  "dhcpLog ver level m = logData level (dhcpLines ver m)"

lemma quiet_dhcpLog [intro, simp]: "quiet (dhcpLog ver level m)"
  by (simp add: dhcpLog_def)

subsection \<open>The server\<close>

definition dhcpDnsBufferSize :: nat where "dhcpDnsBufferSize = 4096"
definition dhcpClientPort :: nat where "dhcpClientPort = 68"
definition dhcpThreadName :: string where "dhcpThreadName = ''dhcpThread''"

definition validMacs :: "bytes list" where
  "validMacs = [[0xb8, 0x27, 0xeb], [0x00, 0x27, 0x02]]"

definition leaseTime :: int where "leaseTime = 24 * 60 * 60"

text \<open>The client's address is the server's plus one; computed when the thread starts.\<close>

definition clientIp :: "pyver \<Rightarrow> bytes \<Rightarrow> bytes res" where
  "clientIp ver ip =
     rbind (ord_item ver (ip ! 3)) (\<lambda>n. rbind (chr_bytes ver (n + 1)) (\<lambda>c. Inr (take 3 ip @ c)))"

text \<open>The packed lease time is turned into a \<^verbatim>\<open>bytearray\<close>, the other options are strings.\<close>

definition replyOptions :: "int \<Rightarrow> bytes \<Rightarrow> bytes \<Rightarrow> bytes \<Rightarrow> (int \<times> pyseq) list" where
  "replyOptions msgType ip subnet lease =
     [(optCodeMsgType, ByteStr [word_of_int msgType]), (optCodeServerId, ByteStr ip),
      (optCodeLeaseTime, ByteArr lease), (optCodeSubnetMask, ByteStr subnet),
      (optCodeRouter, ByteStr ip), (optCodeDNS, ByteStr ip)]"

definition dhcpReply :: "dhcpMsg \<Rightarrow> int \<Rightarrow> bytes \<Rightarrow> bytes \<Rightarrow> bytes \<Rightarrow> dhcpMsg res" where
  "dhcpReply req msgType ip client subnet =
     rbind (pack BE [CL] [leaseTime]) (\<lambda>lease. Inr (newDhcp
       \<lparr>d_op := opCodeReply, d_hlen := d_hlen req, d_xid := d_xid req, d_secs := d_secs req,
        d_ciaddr := d_ciaddr req, d_yiaddr := client, d_chaddr := d_chaddr req,
        d_options := replyOptions msgType ip subnet lease\<rparr>))"

text \<open>The reply to a message of some type, \<open>None\<close> for a type that is ignored.\<close>

definition dhcpAnswer :: "dhcpMsg \<Rightarrow> int \<Rightarrow> bytes \<Rightarrow> bytes \<Rightarrow> bytes \<Rightarrow> dhcpMsg option res" where
  "dhcpAnswer req t ip client subnet =
     (if t = msgTypeDiscover then rbind (dhcpReply req msgTypeOffer ip client subnet) (\<lambda>r. Inr (Some r))
      else if t = msgTypeRequest then rbind (dhcpReply req msgTypeAck ip client subnet) (\<lambda>r. Inr (Some r))
      else Inr None)"

definition endPointText :: "string \<Rightarrow> nat \<Rightarrow> string" where
  "endPointText addr port = addr @ '':'' @ dec_str port"

text \<open>What is configured: the server's address and the mask as \<^verbatim>\<open>inet_aton\<close> gives them, the text of the broadcast address.\<close>

record dhcpConf =
  c_ip :: bytes
  c_subnet :: bytes
  c_broadcast :: string

text \<open>Sending a reply; the result is the new sequence number.\<close>

definition dhcpSend :: "pyver \<Rightarrow> nat \<Rightarrow> dhcpConf \<Rightarrow> nat \<Rightarrow> dhcpMsg \<Rightarrow> nat net" where
  "dhcpSend ver level conf seq r =
     nbind (nlift (dhcpFormat ver r)) (\<lambda>m.
     nbind (logMessage ver level ''<--'' (seq + 1) (ByteArr m) (endPointText (c_broadcast conf) dhcpClientPort)) (\<lambda>_.
     nbind (dhcpLog ver level r) (\<lambda>_.
     nbind (sendto m (c_broadcast conf) dhcpClientPort) (\<lambda>_. nret (seq + 1)))))"

text \<open>The handling of one datagram.\<close>

definition dhcpHandle :: "pyver \<Rightarrow> nat \<Rightarrow> dhcpConf \<Rightarrow> bytes \<Rightarrow> nat \<Rightarrow> bytes \<Rightarrow> string \<Rightarrow> nat \<Rightarrow> nat net" where
  "dhcpHandle ver level conf client seq msg addr port =
     nbind (logMessage ver level ''-->'' (seq + 1) (ByteStr msg) (endPointText addr port)) (\<lambda>_.
     nbind (nlift (dhcpParse ver msg)) (\<lambda>req.
       if take 3 (d_chaddr req) \<in> set validMacs then
         nbind (dhcpLog ver level req) (\<lambda>_.
         nbind (nlift (py_index (d_options req) 0)) (\<lambda>opt.
           if fst opt = optCodeMsgType then
             nbind (nlift (ord_bytes (seqBytes (snd opt)))) (\<lambda>t.
             nbind (nlift (dhcpAnswer req t (c_ip conf) client (c_subnet conf))) (\<lambda>reply.
               case reply of
                 None \<Rightarrow> nret (seq + 1)
               | Some r \<Rightarrow> dhcpSend ver level conf (seq + 1) r))
           else nbind (logLine level INFO ''first option is not message type'') (\<lambda>_. nret (seq + 1))))
       else
         nbind (nlift (bytesLine ver ''ignoring DHCP request from '' '':'' (ByteStr (d_chaddr req)))) (\<lambda>text.
         nbind (logLine level DEBUG text) (\<lambda>_. nret (seq + 1)))))"

text \<open>
  The loop of the thread over the datagrams that arrive, each with its sender: the result is the
  sequence number with which it waits for the next, or the exception that ends it.
\<close>

fun dhcpLoop :: "pyver \<Rightarrow> nat \<Rightarrow> dhcpConf \<Rightarrow> bytes \<Rightarrow> nat \<Rightarrow> (bytes \<times> string \<times> nat) list \<Rightarrow> nat net" where
  "dhcpLoop ver level conf client seq [] =
     nbind (logLine level DEBUG ''waiting for DHCP message'') (\<lambda>_. nret seq)"
| "dhcpLoop ver level conf client seq ((msg, addr, port) # ds) =
     nbind (logLine level DEBUG ''waiting for DHCP message'') (\<lambda>_.
     nbind (dhcpHandle ver level conf client seq (take dhcpDnsBufferSize msg) addr port) (\<lambda>seq'.
       dhcpLoop ver level conf client seq' ds))"

definition dhcpThread :: "pyver \<Rightarrow> nat \<Rightarrow> dhcpConf \<Rightarrow> (bytes \<times> string \<times> nat) list \<Rightarrow> nat net" where
  "dhcpThread ver level conf ds =
     nbind (logLine level DEBUG (''starting '' @ dhcpThreadName)) (\<lambda>_.
     nbind (nlift (clientIp ver (c_ip conf))) (\<lambda>client. dhcpLoop ver level conf client 0 ds))"

end
