(* ===== verification/DhcpProps.thy ===== *)
theory DhcpProps
  imports Dhcp
begin

text \<open>
  DHCP messages survive formatting and parsing, what the reply to a client says, and what becomes of it.
\<close>

lemma slice_skip: "length xs \<le> a \<Longrightarrow> slice a b (xs @ ys) = slice (a - length xs) (b - length xs) ys"
  by (simp add: slice_def)

lemma slice_first: "length xs = n \<Longrightarrow> slice 0 n (xs @ ys) = xs"
  by (simp add: slice_def)

lemma length_zeros [simp]: "length (zeros n) = n"
  by (simp add: zeros_def)

lemma length_padded [simp]: "length (padded n s) = max n (length s)"
  by (simp add: padded_def)

lemma padded_full: "n \<le> length s \<Longrightarrow> padded n s = s"
  by (simp add: padded_def zeros_def)

lemma take_padded: "length s \<le> n \<Longrightarrow> slice 0 (length s) (padded n s @ ys) = s"
  by (simp add: slice_def padded_def)

subsection \<open>Options\<close>

definition option_ok :: "int \<times> pyseq \<Rightarrow> bool" where
  "option_ok opt \<longleftrightarrow> 0 \<le> fst opt \<and> fst opt < optCodeEnd \<and> length (seqBytes (snd opt)) < 256"

text \<open>What is read back are strings, whatever was written.\<close>

definition readBack :: "(int \<times> pyseq) list \<Rightarrow> (int \<times> pyseq) list" where
  "readBack opts = map (\<lambda>(c, d). (c, ByteStr (seqBytes d))) opts"

lemma pack_bytes: "0 \<le> a \<Longrightarrow> a < 256 \<Longrightarrow> 0 \<le> b \<Longrightarrow> b < 256 \<Longrightarrow>
    pack BE [CB, CB] [a, b] = Inr [word_of_int a, word_of_int b]"
  by (simp add: in_range_def enc_field_def ordered_def)

lemma formatOptions_ok:
  "list_all option_ok opts \<Longrightarrow> \<exists>bs. formatOptions opts = Inr bs"
proof (induction opts)
  case (Cons opt opts)
  obtain c d where "opt = (c, d)" by (cases opt)
  then show ?case using Cons by (auto simp: option_ok_def optCodeEnd_def pack_bytes simp del: pack.simps)
qed simp

lemma parse_formatOptions:
  "list_all option_ok opts \<Longrightarrow> formatOptions opts = Inr bs \<Longrightarrow>
     parseOptions Py2 (bs @ 255 # rest) = Inr (readBack opts)"
proof (induction opts arbitrary: bs)
  case Nil
  then show ?case by (simp add: ord_item_def optCodeEnd_def readBack_def)
next
  case (Cons opt opts)
  obtain c d where opt: "opt = (c, d)" by (cases opt)
  have ok: "0 \<le> c" "c < 255" "length (seqBytes d) < 256"
    using Cons.prems(1) by (simp_all add: opt option_ok_def optCodeEnd_def)
  then obtain bs' where bs: "bs = word_of_int c # word_of_int (int (length (seqBytes d))) # seqBytes d @ bs'"
      and bs': "formatOptions opts = Inr bs'"
    using Cons.prems(2) by (auto simp: opt pack_bytes res_simps simp del: pack.simps)
  have u: "uint (word_of_int c :: byte) = c" "uint (word_of_nat (length (seqBytes d)) :: byte) = int (length (seqBytes d))"
    using ok by (simp_all add: uint_word_of_int unsigned_of_nat take_bit_eq_mod)
  have "parseOptions Py2 (bs' @ 255 # rest) = Inr (readBack opts)"
    using Cons.IH [OF _ bs'] Cons.prems(1) by simp
  then show ?case
    using ok by (simp add: bs opt ord_item_def u optCodeEnd_def readBack_def)
qed

subsection \<open>Messages\<close>

definition dhcp_ok :: "dhcpMsg \<Rightarrow> bool" where
  "dhcp_ok m \<longleftrightarrow>
     list_all2 in_range dhcpCodes [d_op m, d_htype m, d_hlen m, d_hops m, d_xid m, d_secs m, d_flags m] \<and>
     length (d_ciaddr m) = 4 \<and> length (d_yiaddr m) = 4 \<and> length (d_siaddr m) = 4 \<and> length (d_giaddr m) = 4 \<and>
     int (length (d_chaddr m)) = d_hlen m \<and> d_hlen m \<le> 16 \<and> length (d_sname m) = 64 \<and>
     length (d_filename m) = 128 \<and> length (d_cookie m) = 4 \<and> list_all option_ok (d_options m)"

lemmas dhcp_lens = chaddrLen_def snameLen_def filenameLen_def dhcpMsgLen_def hdrLen_def

lemma dhcp_format_parse:
  assumes "dhcp_ok m"
  shows "\<exists>bs. dhcpFormat Py2 m = Inr bs \<and> dhcpParse Py2 bs = Inr (m\<lparr>d_options := readBack (d_options m)\<rparr>)"
proof -
  let ?vs = "[d_op m, d_htype m, d_hlen m, d_hops m, d_xid m, d_secs m, d_flags m]"
  obtain hdr where hdr: "pack BE dhcpCodes ?vs = Inr hdr"
    using assms pack_Inr_iff [of BE dhcpCodes ?vs] by (auto simp: dhcp_ok_def)
  have hl: "length hdr = 12" using pack_length [OF hdr] by (simp add: dhcpCodes_def)
  obtain opts where opts: "formatOptions (d_options m) = Inr opts"
    using formatOptions_ok assms by (auto simp: dhcp_ok_def)
  define ch where "ch = padded chaddrLen (d_chaddr m)"
  have ok: "length (d_ciaddr m) = 4" "length (d_yiaddr m) = 4" "length (d_siaddr m) = 4"
      "length (d_giaddr m) = 4" "length ch = 16" "length (d_chaddr m) \<le> 16" "length (d_chaddr m) = nat (d_hlen m)"
      "length (d_sname m) = 64" "length (d_filename m) = 128" "length (d_cookie m) = 4"
      "list_all option_ok (d_options m)"
    using assms by (auto simp: dhcp_ok_def ch_def dhcp_lens)
  define body where "body = hdr @ d_ciaddr m @ d_yiaddr m @ d_siaddr m @ d_giaddr m @ ch @
    d_sname m @ d_filename m @ d_cookie m @ opts @ [255]"
  define bs where "bs = hdr @ d_ciaddr m @ d_yiaddr m @ d_siaddr m @ d_giaddr m @ ch @
    d_sname m @ d_filename m @ d_cookie m @ opts @ 255 # zeros (300 - length body)"
  have fmt: "dhcpFormat Py2 m = Inr bs"
    using ok by (simp add: dhcpFormat_def hdr opts chr_bytes_def optCodeEnd_def padded_def [of 300]
      padded_full dhcp_lens ch_def bs_def body_def)
  have "split_ints BE dhcpCodes hdr = ?vs" using split_ints_pack [OF hdr, of "[]"] by simp
  then have h: "unpack_ints BE dhcpCodes (take hdrLen bs) = Inr ?vs"
    using hl by (simp add: bs_def unpack_ints_def dhcp_lens dhcpCodes_def)
  have "drop 240 bs = opts @ 255 # zeros (300 - length body)"
    using ok hl by (simp add: bs_def)
  then have o: "parseOptions Py2 (drop 240 bs) = Inr (readBack (d_options m))"
    using parse_formatOptions [OF ok(11) opts] by simp
  have "drop 28 bs = ch @ d_sname m @ d_filename m @ d_cookie m @ opts @ 255 # zeros (300 - length body)"
    using ok(1-4) hl by (simp add: bs_def)
  moreover have "take (length (d_chaddr m)) (ch @ rest) = d_chaddr m" for rest
    by (simp add: ch_def padded_def)
  ultimately have chs: "slice 28 (28 + nat (d_hlen m)) bs = d_chaddr m"
    by (simp only: slice_def ok(7) [symmetric] add_diff_cancel_left')
  have "dhcpParse Py2 bs = Inr (m\<lparr>d_options := readBack (d_options m)\<rparr>)"
    unfolding dhcpParse_def h o using chs
    by (simp, insert ok hl, simp add: bs_def slice_skip slice_first)
  with fmt show ?thesis by blast
qed

subsection \<open>The reply\<close>

text \<open>What a reply should say: the client's address, and where to find everything else.\<close>

definition expectedReply :: "dhcpMsg \<Rightarrow> int \<Rightarrow> bytes \<Rightarrow> bytes \<Rightarrow> bytes \<Rightarrow> dhcpMsg" where
  "expectedReply req msgType ip client subnet = newDhcp
     \<lparr>d_op := 2, d_hlen := d_hlen req, d_xid := d_xid req, d_secs := d_secs req,
      d_ciaddr := d_ciaddr req, d_yiaddr := client, d_chaddr := d_chaddr req,
      d_options := [(53, ByteStr [word_of_int msgType]), (54, ByteStr ip), (51, ByteStr [0, 1, 0x51, 0x80]),
        (1, ByteStr subnet), (3, ByteStr ip), (6, ByteStr ip)]\<rparr>"

lemma lease_bytes: "pack BE [CL] [leaseTime] = Inr [0, 1, 0x51, 0x80]"
  by code_simp

lemma dhcpReply_ok:
  obtains r where "dhcpReply req t ip client subnet = Inr r"
    and "r\<lparr>d_options := readBack (d_options r)\<rparr> = expectedReply req t ip client subnet"
    and "r = (expectedReply req t ip client subnet)\<lparr>d_options := replyOptions t ip subnet [0, 1, 0x51, 0x80]\<rparr>"
  by (simp add: dhcpReply_def lease_bytes expectedReply_def replyOptions_def opCodeReply_def readBack_def
    optCodeMsgType_def optCodeServerId_def optCodeLeaseTime_def optCodeSubnetMask_def optCodeRouter_def optCodeDNS_def
    del: pack.simps)

lemma parsed_ranges:
  assumes "dhcpParse Py2 msg = Inr req"
  shows "list_all2 in_range dhcpCodes
    [d_op req, d_htype req, d_hlen req, d_hops req, d_xid req, d_secs req, d_flags req]"
proof -
  obtain h where h: "unpack_ints BE dhcpCodes (take hdrLen msg) = Inr h"
      and req: "d_op req = h ! 0" "d_htype req = h ! 1" "d_hlen req = h ! 2" "d_hops req = h ! 3"
        "d_xid req = h ! 4" "d_secs req = h ! 5" "d_flags req = h ! 6"
    using assms by (auto simp: dhcpParse_def res_simps)
  have "length h = 7" using unpack_length [OF h] by (simp add: dhcpCodes_def)
  then have "h = [d_op req, d_htype req, d_hlen req, d_hops req, d_xid req, d_secs req, d_flags req]"
    by (intro nth_equalityI) (auto simp: req nth_Cons' eval_nat_numeral less_Suc_eq)
  then show ?thesis
    using pack_unpack [OF h] pack_Inr_iff by metis
qed

text \<open>With an option present the message is complete up to its options.\<close>

lemma parsed_lengths:
  assumes "dhcpParse Py2 msg = Inr req" and "d_options req \<noteq> []" and "d_hlen req \<le> 16"
  shows "length (d_ciaddr req) = 4" and "int (length (d_chaddr req)) = d_hlen req"
proof -
  have opts: "parseOptions Py2 (drop 240 msg) = Inr (d_options req)"
    and ci: "d_ciaddr req = slice 12 16 msg" and ch: "d_chaddr req = slice 28 (28 + nat (d_hlen req)) msg"
    using assms(1) by (auto simp: dhcpParse_def res_simps)
  have "drop 240 msg \<noteq> []" using opts assms(2) by (cases "drop 240 msg") auto
  then have len: "240 < length msg" by simp
  have "0 \<le> d_hlen req"
    using parsed_ranges [OF assms(1)] by (simp add: dhcpCodes_def in_range_def)
  then show "length (d_ciaddr req) = 4" "int (length (d_chaddr req)) = d_hlen req"
    using len assms(3) by (simp_all add: ci ch)
qed

lemma reply_ok:
  assumes "dhcpParse Py2 msg = Inr req" and "d_options req \<noteq> []" and "d_hlen req \<le> 16"
    and "length ip = 4" and "length client = 4" and "length subnet = 4"
  shows "dhcp_ok ((expectedReply req t ip client subnet)\<lparr>d_options := replyOptions t ip subnet [0, 1, 0x51, 0x80]\<rparr>)"
  using parsed_ranges [OF assms(1)] parsed_lengths [OF assms(1-3)] assms(3-6)
  by (simp add: dhcp_ok_def expectedReply_def newDhcp_def dhcp_lens dhcpCookie_def option_ok_def optCodeEnd_def
    dhcpCodes_def in_range_def replyOptions_def optCodeMsgType_def optCodeServerId_def optCodeLeaseTime_def
    optCodeSubnetMask_def optCodeRouter_def optCodeDNS_def)

subsection \<open>The log of requests and replies\<close>

lemma line_ok [simp]:
  "length a = 4 \<Longrightarrow> \<exists>s. addrLine name a = Inr s"
  "\<exists>s. bytesLine Py2 name sep (ByteStr b) = Inr s"
  "\<exists>s. optionLine Py2 (c, ByteStr b) = Inr s"
  by (auto simp: addrLine_def inet_ntoa_def bytesLine_def optionLine_def)

lemma log_strings:
  assumes "length (d_ciaddr m) = 4" "length (d_yiaddr m) = 4" "length (d_siaddr m) = 4" "length (d_giaddr m) = 4"
  shows "list_all (\<lambda>r. \<exists>s. r = Inr s) (dhcpLines Py2 (m\<lparr>d_options := readBack opts\<rparr>))"
  using assms by (auto simp: dhcpLines_def list_all_iff readBack_def split: prod.split)

text \<open>The lease time of a reply is a \<^verbatim>\<open>bytearray\<close>, whose elements have no \<^verbatim>\<open>encode\<close>.\<close>

lemma lease_line: "optionLine ver (optCodeLeaseTime, ByteArr [0, 1, 0x51, 0x80]) = Inl AttributeError"
  by (simp add: optionLine_def bytesLine_def hex_items_none has_chars_def)

lemma dhcpAnswer_cases:
  assumes "dhcpAnswer req t ip client subnet = Inr (Some r)"
  obtains t' where "d_options r = replyOptions t' ip subnet [0, 1, 0x51, 0x80]"
  using assms by (auto simp: dhcpAnswer_def dhcpReply_def lease_bytes simp del: pack.simps split: if_splits)

lemma dhcpLog_reply:
  assumes "d_options r = replyOptions t ip subnet [0, 1, 0x51, 0x80]"
  shows "\<exists>e. snd (dhcpLog ver level r) = Inl e"
proof -
  have "Inl AttributeError \<in> set (dhcpLines ver r)"
    using lease_line [of ver] by (simp add: dhcpLines_def assms replyOptions_def)
  from logData_stops [OF this] show ?thesis by (simp add: dhcpLog_def)
qed

lemma dhcpLog_reply_py2:
  assumes "d_options r = replyOptions t ip subnet [0, 1, 0x51, 0x80]"
    and "length (d_ciaddr r) = 4" "length (d_yiaddr r) = 4" "length (d_siaddr r) = 4" "length (d_giaddr r) = 4"
  shows "snd (dhcpLog Py2 level r) = Inl AttributeError"
proof -
  let ?front = "[(optCodeMsgType, [word_of_int t]), (optCodeServerId, ip)] :: (int \<times> bytes) list"
  have "dhcpLines Py2 r = dhcpLines Py2 (r\<lparr>d_options := readBack (map (\<lambda>(c, b). (c, ByteStr b)) ?front)\<rparr>) @ Inl AttributeError #
      map (optionLine Py2) [(optCodeSubnetMask, ByteStr subnet), (optCodeRouter, ByteStr ip), (optCodeDNS, ByteStr ip)]"
    by (simp add: dhcpLines_def assms(1) replyOptions_def lease_line readBack_def)
  then show ?thesis
    using logData_raises [OF log_strings [OF assms(2-5)]] by (simp add: dhcpLog_def)
qed

text \<open>
  No datagram is ever sent, whatever arrives, in either version and at every level: the log call before
  \<^verbatim>\<open>sendto\<close> raises.
\<close>

lemma quiet_dhcpHandle: "quiet (dhcpHandle ver level conf client seq msg addr port)"
proof -
  have "quiet (dhcpSend ver level conf s r)" if "dhcpAnswer req t ip client subnet = Inr (Some r)" for req t ip subnet s r
  proof -
    from that obtain t' where "d_options r = replyOptions t' ip subnet [0, 1, 0x51, 0x80]"
      by (rule dhcpAnswer_cases)
    from dhcpLog_reply [OF this] have "snd (dhcpLog ver level r) \<noteq> Inr ()" by (metis Inl_Inr_False)
    then show ?thesis
      unfolding dhcpSend_def by (auto intro!: quiet_nbind quiet_dhcpLog)
  qed
  then show ?thesis
    unfolding dhcpHandle_def by (auto intro!: quiet_nbind quiet_dhcpLog split: option.split)
qed

theorem dhcp_silent: "sends (fst (dhcpThread ver level conf ds)) = []"
proof -
  have "quiet (dhcpLoop ver level conf client seq ds)" for client seq
    by (induction ds arbitrary: seq) (auto intro!: quiet_nbind quiet_dhcpHandle)
  then have "quiet (dhcpThread ver level conf ds)"
    unfolding dhcpThread_def by (auto intro!: quiet_nbind)
  then show ?thesis by (simp add: quiet_def)
qed

subsection \<open>The answer to a client\<close>

lemma parsed_strings: "parseOptions Py2 bs = Inr opts \<Longrightarrow> readBack opts = opts"
proof (induction Py2 bs arbitrary: opts rule: parseOptions.induct)
  case (2 c rest)
  then show ?case by (auto simp: ord_item_def readBack_def res_simps split: if_splits list.splits)
qed (simp add: readBack_def)

text \<open>A request with an option is logged without an exception.\<close>

lemma parsed_log:
  assumes "dhcpParse Py2 msg = Inr req" and "d_options req \<noteq> []"
  shows "snd (dhcpLog Py2 level req) = Inr ()"
proof -
  have opts: "parseOptions Py2 (drop 240 msg) = Inr (d_options req)"
    and addrs: "d_ciaddr req = slice 12 16 msg" "d_yiaddr req = slice 16 20 msg"
      "d_siaddr req = slice 20 24 msg" "d_giaddr req = slice 24 28 msg"
    using assms(1) by (auto simp: dhcpParse_def res_simps)
  have "drop 240 msg \<noteq> []" using opts assms(2) by (cases "drop 240 msg") auto
  then have len: "240 < length msg" by simp
  have "req\<lparr>d_options := readBack (d_options req)\<rparr> = req" by (simp add: parsed_strings [OF opts])
  moreover have "list_all (\<lambda>r. \<exists>s. r = Inr s) (dhcpLines Py2 (req\<lparr>d_options := readBack (d_options req)\<rparr>))"
    using len by (intro log_strings) (simp_all add: addrs)
  ultimately show ?thesis by (simp add: dhcpLog_def logData_ok)
qed

text \<open>
  Under Python 3 neither direction works: every message with anything in its option field raises,
  and so does every reply and the start of the server.
\<close>

lemma dhcp_python3:
  "c \<noteq> [] \<Longrightarrow> parseOptions Py3 c = Inl TypeError"
  "dhcpFormat Py3 m \<noteq> Inr bs"
  "clientIp Py3 ip = Inl TypeError"
  by (cases c) (auto simp: ord_item_def dhcpFormat_def chr_bytes_def clientIp_def res_simps)

lemma dhcpThread_python3: "sentResult (dhcpThread Py3 level conf ds) = ([], Inl TypeError)"
proof -
  have "snd (dhcpThread Py3 level conf ds) = Inl TypeError"
    by (simp add: dhcpThread_def nbind_snd logLine_def dhcp_python3(3))
  moreover have "quiet (dhcpThread Py3 level conf ds)"
    using dhcp_silent by (simp add: quiet_def)
  ultimately show ?thesis by (simp add: sentResult_quiet)
qed

text \<open>
  C35.  Under Python 2, for a client of a known maker that asks for an address (its hardware address has
  at most 16 bytes and its first option is a message type of one byte, Discover or Request), and a
  server whose address does not end in 255, the right answer is prepared: a DHCP message that parses
  back to an Offer or an Acknowledge with the transaction number and the hardware address of the
  request, the address after the server's own, the lease time, and the server as router and name server.
  But it is never sent: the log call before \<^verbatim>\<open>sendto\<close> encodes the elements of each option, those of the
  lease time are integers, and \<^verbatim>\<open>AttributeError\<close> ends the server thread; at -vvvv the dump of the request
  has already ended it with \<^verbatim>\<open>ValueError\<close>.  Under Python 3, the interpreter that the monitor asks for, the
  thread ends with \<^verbatim>\<open>TypeError\<close> when it starts, before any request, and sends nothing either.
\<close>

theorem dhcp_answers:
  assumes "dhcpParse Py2 msg = Inr req" and "take 3 (d_chaddr req) \<in> set validMacs" and "d_hlen req \<le> 16"
    and "d_options req = (53, ByteStr [t]) # others" and "t = 1 \<or> t = 3"
    and "length (c_ip conf) = 4" and "c_ip conf ! 3 < 255" and "length (c_subnet conf) = 4"
  shows "(\<exists>client r bs. clientIp Py2 (c_ip conf) = Inr client \<and> client = take 3 (c_ip conf) @ [c_ip conf ! 3 + 1] \<and>
      dhcpAnswer req (uint t) (c_ip conf) client (c_subnet conf) = Inr (Some r) \<and>
      dhcpFormat Py2 r = Inr bs \<and>
      dhcpParse Py2 bs = Inr (expectedReply req (if t = 1 then 2 else 5) (c_ip conf) client (c_subnet conf)) \<and>
      sentResult (dhcpHandle Py2 level conf client seq msg addr port) =
        ([], Inl (if LOG_LEVEL_RAW < level then AttributeError else ValueError))) \<and>
    sentResult (dhcpThread Py3 level conf ((msg, addr, port) # ds)) = ([], Inl TypeError)"
proof -
  let ?client = "take 3 (c_ip conf) @ [c_ip conf ! 3 + 1]" and ?t = "if t = 1 then 2 else 5"
  have "uint (c_ip conf ! 3) < 255" using assms(7) by (simp add: word_less_def)
  moreover have "word_of_int (uint (c_ip conf ! 3) + 1) = c_ip conf ! 3 + 1" by simp
  ultimately have client: "clientIp Py2 (c_ip conf) = Inr ?client"
    by (simp add: clientIp_def ord_item_def chr_bytes_def)
  have some: "d_options req \<noteq> []" by (simp add: assms(4))
  obtain r where r: "dhcpReply req ?t (c_ip conf) ?client (c_subnet conf) = Inr r"
      "r\<lparr>d_options := readBack (d_options r)\<rparr> = expectedReply req ?t (c_ip conf) ?client (c_subnet conf)"
      "r = (expectedReply req ?t (c_ip conf) ?client (c_subnet conf))
        \<lparr>d_options := replyOptions ?t (c_ip conf) (c_subnet conf) [0, 1, 0x51, 0x80]\<rparr>"
    by (rule dhcpReply_ok)
  have ok: "dhcp_ok r"
    unfolding r(3) by (rule reply_ok [OF assms(1) some assms(3,6) _ assms(8)]) (simp add: assms(6))
  from dhcp_format_parse [OF ok] obtain bs where bs: "dhcpFormat Py2 r = Inr bs"
      "dhcpParse Py2 bs = Inr (expectedReply req ?t (c_ip conf) ?client (c_subnet conf))"
    unfolding r(2) by blast
  have answer: "dhcpAnswer req (uint t) (c_ip conf) ?client (c_subnet conf) = Inr (Some r)"
    using assms(5) r(1) by (auto simp: dhcpAnswer_def msgTypeDiscover_def msgTypeRequest_def msgTypeOffer_def msgTypeAck_def)
  have "d_options r = replyOptions ?t (c_ip conf) (c_subnet conf) [0, 1, 0x51, 0x80]" by (subst r(3)) simp
  then have lost: "snd (dhcpLog Py2 level r) = Inl AttributeError"
    using ok by (intro dhcpLog_reply_py2) (auto simp: dhcp_ok_def)
  have "msg \<noteq> []" using assms(1,2) by (auto simp: dhcpParse_def validMacs_def res_simps)
  then have "snd (dhcpHandle Py2 level conf ?client seq msg addr port) =
      Inl (if LOG_LEVEL_RAW < level then AttributeError else ValueError)"
    using assms(2) parsed_log [OF assms(1) some] lost
    by (simp add: dhcpHandle_def dhcpSend_def nbind_snd assms(1,4) logMessage_ok logMessage_raw py_index_def ord_bytes_def
      optCodeMsgType_def answer bs(1) has_chars_def)
  then have "sentResult (dhcpHandle Py2 level conf ?client seq msg addr port) =
      ([], Inl (if LOG_LEVEL_RAW < level then AttributeError else ValueError))"
    by (simp only: sentResult_quiet [OF quiet_dhcpHandle])
  moreover have "sentResult (dhcpThread Py3 level conf ((msg, addr, port) # ds)) = ([], Inl TypeError)"
    by (rule dhcpThread_python3)
  ultimately show ?thesis using client answer bs by blast
qed

definition sampleDiscover :: dhcpMsg where
  "sampleDiscover = newDhcp\<lparr>d_op := 1, d_xid := 77, d_chaddr := [0x00, 0x27, 0x02, 1, 2, 3],
     d_options := [(53, ByteStr [1]), (12, ByteStr [0x73, 0x65])]\<rparr>"

definition sampleConf :: dhcpConf where
  "sampleConf = \<lparr>c_ip = [10, 0, 0, 1], c_subnet = [255, 255, 255, 0], c_broadcast = ''10.0.0.255''\<rparr>"

theorem dhcp_answers_witness:
  "\<exists>msg bs r. dhcpParse Py2 msg = Inr sampleDiscover \<and>
     dhcpParse Py2 bs = Inr r \<and> d_xid r = 77 \<and> d_yiaddr r = [10, 0, 0, 2] \<and>
     sentResult (dhcpHandle Py2 INFO sampleConf [10, 0, 0, 2] 0 msg ''0.0.0.0'' 68) = ([], Inl AttributeError)"
proof -
  have "dhcp_ok sampleDiscover"
    by (simp add: dhcp_ok_def sampleDiscover_def newDhcp_def dhcp_lens dhcpCookie_def option_ok_def
      optCodeEnd_def dhcpCodes_def in_range_def)
  moreover have "sampleDiscover\<lparr>d_options := readBack (d_options sampleDiscover)\<rparr> = sampleDiscover"
    by (simp add: sampleDiscover_def readBack_def)
  ultimately obtain msg where msg: "dhcpParse Py2 msg = Inr sampleDiscover" using dhcp_format_parse by metis
  have "(\<exists>client r bs. clientIp Py2 (c_ip sampleConf) = Inr client \<and>
      client = take 3 (c_ip sampleConf) @ [c_ip sampleConf ! 3 + 1] \<and>
      dhcpAnswer sampleDiscover (uint (1 :: byte)) (c_ip sampleConf) client (c_subnet sampleConf) = Inr (Some r) \<and>
      dhcpFormat Py2 r = Inr bs \<and>
      dhcpParse Py2 bs = Inr (expectedReply sampleDiscover (if (1 :: byte) = 1 then 2 else 5) (c_ip sampleConf) client (c_subnet sampleConf)) \<and>
      sentResult (dhcpHandle Py2 INFO sampleConf client 0 msg ''0.0.0.0'' 68) =
        ([], Inl (if LOG_LEVEL_RAW < INFO then AttributeError else ValueError))) \<and>
    sentResult (dhcpThread Py3 INFO sampleConf [(msg, ''0.0.0.0'', 68)]) = ([], Inl TypeError)"
    by (rule dhcp_answers [OF msg, where others = "[(12, ByteStr [0x73, 0x65])]"])
       (simp_all add: sampleDiscover_def newDhcp_def validMacs_def sampleConf_def)
  then obtain bs where bs: "dhcpParse Py2 bs = Inr (expectedReply sampleDiscover 2 [10, 0, 0, 1] [10, 0, 0, 2] [255, 255, 255, 0])"
      "sentResult (dhcpHandle Py2 INFO sampleConf [10, 0, 0, 2] 0 msg ''0.0.0.0'' 68) = ([], Inl AttributeError)"
    by (auto simp: sampleConf_def LOG_LEVEL_RAW_def INFO_def)
  show ?thesis
    by (rule exI [of _ msg], rule exI [of _ bs], rule exI, intro conjI, rule msg, rule bs(1))
       (simp_all add: bs(2) expectedReply_def sampleDiscover_def newDhcp_def)
qed

end
