(* ===== verification/Dns.thy ===== *)
theory Dns
  imports Dhcp
begin

text \<open>
  The DNS half of \<^verbatim>\<open>se/network.py\<close>: a server that resolves every name to its own address.  Names are
  byte strings with dots between the labels, as in Python 2.
\<close>

subsection \<open>Messages\<close>

record dnsMsg =
  n_ident :: int
  n_flags :: int
  n_questions :: "(bytes \<times> int \<times> int) list"
  n_answers :: "(bytes \<times> int \<times> int \<times> int \<times> bytes) list"
  n_auths :: nat      \<comment> \<open>only their number is used\<close>
  n_adds :: nat

definition newDns :: dnsMsg where
  "newDns = \<lparr>n_ident = 0, n_flags = 0, n_questions = [], n_answers = [], n_auths = 0, n_adds = 0\<rparr>"

definition dot :: byte where "dot = 0x2e"

text \<open>\<open>parseName\<close> on what is left of the message.\<close>

fun parseName :: "pyver \<Rightarrow> bytes \<Rightarrow> bytes res" where
  "parseName ver [] = Inl IndexError"
| "parseName ver (c # rest) = rbind (ord_item ver c) (\<lambda>partLen.
     if 0 < partLen
     then rbind (parseName ver (drop (nat partLen) rest)) (\<lambda>name. Inr (take (nat partLen) rest @ dot # name))
     else Inr [])"

fun parseQuestions :: "pyver \<Rightarrow> nat \<Rightarrow> bytes \<Rightarrow> (bytes \<times> int \<times> int) list res" where
  "parseQuestions ver 0 msg = Inr []"
| "parseQuestions ver (Suc n) msg =
     rbind (parseName ver msg) (\<lambda>qname. let rest = drop (length qname + 1) msg in
     rbind (unpack_ints BE [CH, CH] (take 4 rest)) (\<lambda>tc.
     rbind (parseQuestions ver n (drop 4 rest)) (\<lambda>qs. Inr ((butlast qname, tc ! 0, tc ! 1) # qs))))"

definition dnsParse :: "pyver \<Rightarrow> bytes \<Rightarrow> dnsMsg res" where
  "dnsParse ver msg =
     rbind (unpack_ints BE [CH, CH, CH, CH, CH, CH] (take 12 msg)) (\<lambda>h.
     rbind (parseQuestions ver (nat (h ! 2)) (drop 12 msg)) (\<lambda>qs.
       Inr (newDns\<lparr>n_ident := h ! 0, n_flags := h ! 1, n_questions := qs\<rparr>)))"

text \<open>\<^verbatim>\<open>name.split(".")\<close>\<close>

fun labels :: "bytes \<Rightarrow> bytes list" where
  "labels [] = [[]]"
| "labels (c # s) = (if c = dot then [] # labels s else (case labels s of p # ps \<Rightarrow> (c # p) # ps | [] \<Rightarrow> [[c]]))"

fun formatLabels :: "pyver \<Rightarrow> bytes list \<Rightarrow> bytes res" where
  "formatLabels ver [] = Inr []"
| "formatLabels ver (p # ps) =
     rbind (chr_bytes ver (int (length p))) (\<lambda>n. rbind (formatLabels ver ps) (\<lambda>rest. Inr (n @ p @ rest)))"

definition formatName :: "pyver \<Rightarrow> bytes \<Rightarrow> bytes res" where
  "formatName ver name = rbind (formatLabels ver (labels name)) (\<lambda>s. Inr (s @ [0]))"

definition formatQuestion :: "pyver \<Rightarrow> bytes \<times> int \<times> int \<Rightarrow> bytes res" where
  "formatQuestion ver q = (case q of (name, qtype, qclass) \<Rightarrow>
     rbind (formatName ver name) (\<lambda>n. rbind (pack BE [CH, CH] [qtype, qclass]) (\<lambda>tc. Inr (n @ tc))))"

definition formatAnswer :: "pyver \<Rightarrow> bytes \<times> int \<times> int \<times> int \<times> bytes \<Rightarrow> bytes res" where
  "formatAnswer ver a = (case a of (name, atype, aclass, ttl, data) \<Rightarrow>
     rbind (formatName ver name) (\<lambda>n.
     rbind (pack BE [CH, CH, CL, CH] [atype, aclass, ttl, int (length data)]) (\<lambda>h. Inr (n @ h @ data))))"

definition dnsFormat :: "pyver \<Rightarrow> dnsMsg \<Rightarrow> bytes res" where
  "dnsFormat ver m =
     rbind (pack BE [CH, CH, CH, CH, CH, CH] [n_ident m, n_flags m, int (length (n_questions m)),
       int (length (n_answers m)), int (n_auths m), int (n_adds m)]) (\<lambda>hdr.
     rbind (rmap (formatQuestion ver) (n_questions m)) (\<lambda>qs.
     rbind (rmap (formatAnswer ver) (n_answers m)) (\<lambda>as.
       Inr (hdr @ concat qs @ concat as))))"

subsection \<open>The server\<close>

definition dnsTtl :: int where "dnsTtl = 24 * 60 * 60"

definition noName :: bytes where "noName = [0x4e, 0x4f, 0x4e, 0x45]"

definition dnsReply :: "dnsMsg \<Rightarrow> bytes \<Rightarrow> dnsMsg" where
  "dnsReply req ip = newDns\<lparr>n_ident := n_ident req, n_flags := 0x8000, n_questions := n_questions req,
     n_answers := map (\<lambda>(name, t, c). (name, t, c, dnsTtl, ip)) (n_questions req)\<rparr>"

definition questionLines :: "bytes \<times> int \<times> int \<Rightarrow> string res list" where
  "questionLines q = (case q of (name, qtype, qclass) \<Rightarrow>
     [Inr ''question'', Inr (''    name: '' @ text_of name), Inr (''    type: '' @ zpad 4 (hex_str (nat qtype))),
      Inr (''    class: '' @ zpad 4 (hex_str (nat qclass)))])"

definition answerLines :: "bytes \<times> int \<times> int \<times> int \<times> bytes \<Rightarrow> string res list" where
  "answerLines a = (case a of (name, atype, aclass, ttl, data) \<Rightarrow>
     [Inr ''answer'', Inr (''    name: '' @ text_of name), Inr (''    type: '' @ zpad 4 (hex_str (nat atype))),
      Inr (''    class: '' @ zpad 4 (hex_str (nat aclass))), Inr (''    TTL: '' @ int_str ttl),
      rbind (inet_ntoa data) (\<lambda>s. Inr (''    resource: '' @ s))])"

definition dnsLog :: "nat \<Rightarrow> dnsMsg \<Rightarrow> unit net" where
  "dnsLog level m = logData level
     ([Inr (''id: '' @ hex_str (nat (n_ident m))), Inr (''flags: '' @ zpad 4 (hex_str (nat (n_flags m))))] @
      concat (map questionLines (n_questions m)) @ concat (map answerLines (n_answers m)))"

text \<open>The handling of one datagram; the result is the new sequence number.\<close>

definition dnsHandle :: "pyver \<Rightarrow> nat \<Rightarrow> bytes \<Rightarrow> nat \<Rightarrow> bytes \<Rightarrow> string \<Rightarrow> nat \<Rightarrow> nat net" where
  "dnsHandle ver level ip seq msg addr port =
     nbind (logMessage ver level ''-->'' (seq + 1) (ByteStr msg) (endPointText addr port)) (\<lambda>_.
     nbind (nlift (dnsParse ver msg)) (\<lambda>req.
     nbind (dnsLog level req) (\<lambda>_.
     nbind (nlift (py_index (n_questions req) 0)) (\<lambda>q.
       if fst q \<noteq> noName then
         nbind (nlift (dnsFormat ver (dnsReply req ip))) (\<lambda>m.
         nbind (logMessage ver level ''<--'' (seq + 2) (ByteArr m) (endPointText addr port)) (\<lambda>_.
         nbind (dnsLog level (dnsReply req ip)) (\<lambda>_.
         nbind (sendto m addr port) (\<lambda>_. nret (seq + 2)))))
       else nbind (logLine level DEBUG ''ignoring DNS request with no hostname'') (\<lambda>_. nret (seq + 1))))))"

definition dnsThreadName :: string where "dnsThreadName = ''dnsThread''"

fun dnsLoop :: "pyver \<Rightarrow> nat \<Rightarrow> bytes \<Rightarrow> nat \<Rightarrow> (bytes \<times> string \<times> nat) list \<Rightarrow> nat net" where
  "dnsLoop ver level ip seq [] = nbind (logLine level DEBUG ''waiting for DNS message'') (\<lambda>_. nret seq)"
| "dnsLoop ver level ip seq ((msg, addr, port) # ds) =
     nbind (logLine level DEBUG ''waiting for DNS message'') (\<lambda>_.
     nbind (dnsHandle ver level ip seq (take dhcpDnsBufferSize msg) addr port) (\<lambda>seq'.
       dnsLoop ver level ip seq' ds))"

definition dnsThread :: "pyver \<Rightarrow> nat \<Rightarrow> bytes \<Rightarrow> (bytes \<times> string \<times> nat) list \<Rightarrow> nat net" where
  "dnsThread ver level ip ds =
     nbind (logLine level DEBUG (''starting '' @ dnsThreadName)) (\<lambda>_. dnsLoop ver level ip 0 ds)"

lemma quiet_dnsLog [intro, simp]: "quiet (dnsLog level m)"
  unfolding dnsLog_def by (rule quiet_log)

lemma dnsLog_ok:
  assumes "list_all (\<lambda>(name, t, c, ttl, data). length data = 4) (n_answers m)"
  shows "sentResult (dnsLog level m) = ([], Inr ())"
proof -
  have "list_all (\<lambda>r. \<exists>s. r = Inr s) (concat (map answerLines (n_answers m)))"
    using assms by (fastforce simp: list_all_iff answerLines_def inet_ntoa_def)
  moreover have "list_all (\<lambda>r. \<exists>s. r = Inr s) (concat (map questionLines (n_questions m)))"
    by (fastforce simp: list_all_iff questionLines_def)
  ultimately have "snd (dnsLog level m) = Inr ()"
    unfolding dnsLog_def by (intro logData_ok) auto
  then show ?thesis by (simp add: sentResult_quiet)
qed

lemma dnsParse_answers: "dnsParse ver msg = Inr req \<Longrightarrow> n_answers req = []"
  by (auto simp: dnsParse_def res_simps newDns_def)

subsection \<open>Names\<close>

text \<open>A name whose labels have a length of one byte and are not empty.\<close>

definition name_ok :: "bytes \<Rightarrow> bool" where
  "name_ok name \<longleftrightarrow> list_all (\<lambda>p. p \<noteq> [] \<and> length p < 256) (labels name)"

lemma labels_nonempty [simp]: "labels s \<noteq> []"
  by (induction s) (auto split: list.splits)

text \<open>The labels, each followed by a dot, are the name followed by a dot.\<close>

lemma labels_join: "concat (map (\<lambda>p. p @ [dot]) (labels s)) = s @ [dot]"
  by (induction s) (auto split: list.splits)

lemma formatLabels_ok:
  "list_all (\<lambda>p. p \<noteq> [] \<and> length p < 256) ps \<Longrightarrow>
     \<exists>bs. formatLabels Py2 ps = Inr bs \<and>
       (\<forall>rest. parseName Py2 (bs @ 0 # rest) = Inr (concat (map (\<lambda>p. p @ [dot]) ps))) \<and>
       length bs = length (concat (map (\<lambda>p. p @ [dot]) ps))"
proof (induction ps)
  case Nil
  then show ?case by (simp add: ord_item_def)
next
  case (Cons p ps)
  obtain bs where bs: "formatLabels Py2 ps = Inr bs"
      "\<forall>rest. parseName Py2 (bs @ 0 # rest) = Inr (concat (map (\<lambda>p. p @ [dot]) ps))"
      "length bs = length (concat (map (\<lambda>p. p @ [dot]) ps))"
    using Cons by auto
  have "uint (word_of_nat (length p) :: byte) = int (length p)"
    using Cons.prems by (simp add: unsigned_of_nat take_bit_eq_mod)
  then show ?case
    using Cons.prems bs by (simp add: chr_bytes_def ord_item_def)
qed

lemma formatName_ok:
  assumes "name_ok name"
  obtains bs where "formatName Py2 name = Inr (bs @ [0])" and "length bs = length name + 1"
    and "\<forall>rest. parseName Py2 (bs @ 0 # rest) = Inr (name @ [dot])"
  using formatLabels_ok [of "labels name"] assms
  unfolding name_ok_def labels_join by (auto simp: formatName_def)

subsection \<open>Replies\<close>

text \<open>A resolver's reading of the answers: name, type, class, time to live, data.\<close>

fun readAnswers :: "nat \<Rightarrow> bytes \<Rightarrow> (bytes \<times> int \<times> int \<times> int \<times> bytes) list res" where
  "readAnswers 0 msg = Inr []"
| "readAnswers (Suc n) msg =
     rbind (parseName Py2 msg) (\<lambda>name. let rest = drop (length name + 1) msg in
     rbind (unpack_ints BE [CH, CH, CL, CH] (take 10 rest)) (\<lambda>h. let rest' = drop 10 rest in
     rbind (readAnswers n (drop (nat (h ! 3)) rest')) (\<lambda>as.
       Inr ((butlast name, h ! 0, h ! 1, h ! 2, take (nat (h ! 3)) rest') # as))))"

definition question_ok :: "bytes \<times> int \<times> int \<Rightarrow> bool" where
  "question_ok q \<longleftrightarrow> (case q of (name, t, c) \<Rightarrow> name_ok name \<and> in_range CH t \<and> in_range CH c)"

lemma pack_ok: "list_all2 in_range cs vs \<Longrightarrow>
    \<exists>bs. pack en cs vs = Inr bs \<and> length bs = icalcsize cs \<and> unpack_ints en cs bs = Inr vs"
  using pack_Inr_iff pack_length unpack_pack by metis

lemma formatQuestion_ok:
  assumes "question_ok q"
  shows "\<exists>bs. formatQuestion Py2 q = Inr bs \<and>
    (\<forall>n rest. parseQuestions Py2 (Suc n) (bs @ rest) = rbind (parseQuestions Py2 n rest) (\<lambda>qs. Inr (q # qs)))"
proof -
  obtain name t c where q: "q = (name, t, c)" by (cases q)
  obtain n where n: "formatName Py2 name = Inr (n @ [0])" "length n = length name + 1"
      "\<forall>rest. parseName Py2 (n @ 0 # rest) = Inr (name @ [dot])"
    using assms formatName_ok by (auto simp: q question_ok_def)
  obtain tc where tc: "pack BE [CH, CH] [t, c] = Inr tc" "length tc = 4" "unpack_ints BE [CH, CH] tc = Inr [t, c]"
    using assms pack_ok [of "[CH, CH]" "[t, c]" BE] by (auto simp: q question_ok_def)
  show ?thesis
    using n tc by (intro exI [of _ "n @ 0 # tc"]) (simp add: q formatQuestion_def Let_def del: pack.simps)
qed

lemma formatQuestions_ok:
  "list_all question_ok qs \<Longrightarrow> \<exists>bss. rmap (formatQuestion Py2) qs = Inr bss \<and>
     (\<forall>rest. parseQuestions Py2 (length qs) (concat bss @ rest) = Inr qs)"
proof (induction qs)
  case (Cons q qs)
  obtain bss where bss: "rmap (formatQuestion Py2) qs = Inr bss"
      "\<forall>rest. parseQuestions Py2 (length qs) (concat bss @ rest) = Inr qs"
    using Cons by auto
  obtain bs where "formatQuestion Py2 q = Inr bs"
      "\<forall>n rest. parseQuestions Py2 (Suc n) (bs @ rest) = rbind (parseQuestions Py2 n rest) (\<lambda>qs. Inr (q # qs))"
    using formatQuestion_ok [of q] Cons.prems by auto
  then show ?case using bss by (simp del: parseQuestions.simps)
qed simp

lemma formatAnswer_ok:
  assumes "question_ok (name, t, c)" and "length data = 4"
  shows "\<exists>bs. formatAnswer Py2 (name, t, c, dnsTtl, data) = Inr bs \<and>
    (\<forall>n rest. readAnswers (Suc n) (bs @ rest) =
       rbind (readAnswers n rest) (\<lambda>as. Inr ((name, t, c, dnsTtl, data) # as)))"
proof -
  obtain n where n: "formatName Py2 name = Inr (n @ [0])" "length n = length name + 1"
      "\<forall>rest. parseName Py2 (n @ 0 # rest) = Inr (name @ [dot])"
    using assms formatName_ok by (auto simp: question_ok_def)
  have "list_all2 in_range [CH, CH, CL, CH] [t, c, dnsTtl, 4]"
    using assms by (simp add: question_ok_def in_range_def dnsTtl_def)
  from pack_ok [OF this, of BE] obtain h where h: "pack BE [CH, CH, CL, CH] [t, c, dnsTtl, 4] = Inr h" "length h = 10"
      "unpack_ints BE [CH, CH, CL, CH] h = Inr [t, c, dnsTtl, 4]"
    by (auto simp del: pack.simps)
  show ?thesis
    using n h assms(2)
    by (intro exI [of _ "n @ 0 # h @ data"]) (simp add: formatAnswer_def Let_def del: pack.simps)
qed

lemma formatAnswers_ok:
  "list_all question_ok qs \<Longrightarrow> length ip = 4 \<Longrightarrow>
     \<exists>bss. rmap (formatAnswer Py2) (map (\<lambda>(name, t, c). (name, t, c, dnsTtl, ip)) qs) = Inr bss \<and>
     (\<forall>rest. readAnswers (length qs) (concat bss @ rest) = Inr (map (\<lambda>(name, t, c). (name, t, c, dnsTtl, ip)) qs))"
proof (induction qs)
  case (Cons q qs)
  obtain name t c where q: "q = (name, t, c)" by (cases q)
  obtain bss where bss: "rmap (formatAnswer Py2) (map (\<lambda>(name, t, c). (name, t, c, dnsTtl, ip)) qs) = Inr bss"
      "\<forall>rest. readAnswers (length qs) (concat bss @ rest) = Inr (map (\<lambda>(name, t, c). (name, t, c, dnsTtl, ip)) qs)"
    using Cons by auto
  obtain bs where "formatAnswer Py2 (name, t, c, dnsTtl, ip) = Inr bs"
      "\<forall>n rest. readAnswers (Suc n) (bs @ rest) =
         rbind (readAnswers n rest) (\<lambda>as. Inr ((name, t, c, dnsTtl, ip) # as))"
    using formatAnswer_ok [of name t c ip] Cons.prems by (auto simp: q)
  then show ?case using bss by (simp add: q del: readAnswers.simps)
qed simp

text \<open>A query with a reply: what is sent, and what is logged does not raise.\<close>

lemma dnsHandle_sends:
  assumes "dnsParse Py2 msg = Inr req" and "n_questions req = q # qs" and "fst q \<noteq> noName"
    and "dnsFormat Py2 (dnsReply req ip) = Inr m" and "length ip = 4" and "LOG_LEVEL_RAW < level"
  shows "sentResult (dnsHandle Py2 level ip seq msg addr port) = ([(m, addr, port)], Inr (seq + 2))"
proof -
  have message: "sentResult (logMessage Py2 level d n s e) = ([], Inr ())" for d n s e
    using assms(6) by (simp add: sentResult_quiet logMessage_ok)
  have request: "sentResult (dnsLog level req) = ([], Inr ())"
    using dnsParse_answers [OF assms(1)] by (intro dnsLog_ok) simp
  have reply: "sentResult (dnsLog level (dnsReply req ip)) = ([], Inr ())"
    using assms(5) by (intro dnsLog_ok) (auto simp: dnsReply_def list_all_iff)
  show ?thesis
    using assms(2,3)
    by (simp add: dnsHandle_def sentResult_then [OF message] sentResult_then [OF request] sentResult_then [OF reply]
      assms(1,4) py_index_def)
qed

text \<open>A query whose first name is \<^verbatim>\<open>NONE\<close> is not answered.\<close>

lemma dnsHandle_ignores:
  assumes "dnsParse Py2 msg = Inr req" and "n_questions req = q # qs" and "fst q = noName" and "LOG_LEVEL_RAW < level"
  shows "sentResult (dnsHandle Py2 level ip seq msg addr port) = ([], Inr (seq + 1))"
proof -
  have message: "sentResult (logMessage Py2 level d n s e) = ([], Inr ())" for d n s e
    using assms(4) by (simp add: sentResult_quiet logMessage_ok)
  have request: "sentResult (dnsLog level req) = ([], Inr ())"
    using dnsParse_answers [OF assms(1)] by (intro dnsLog_ok) simp
  show ?thesis
    using assms(2,3)
    by (simp add: dnsHandle_def sentResult_then [OF message] sentResult_then [OF request] assms(1) py_index_def)
qed

lemma parseQuestions_length: "parseQuestions ver n msg = Inr qs \<Longrightarrow> length qs = n"
  by (induction n arbitrary: msg qs) (auto simp: res_simps Let_def)

text \<open>The reply to a well-formed query can be formatted and read.\<close>

lemma dnsReply_formats:
  assumes "dnsParse Py2 msg = Inr req" and "list_all question_ok (n_questions req)" and "length ip = 4"
  shows "\<exists>hdr questions answers. dnsFormat Py2 (dnsReply req ip) = Inr (hdr @ questions @ answers) \<and> length hdr = 12 \<and>
    dnsParse Py2 (hdr @ questions @ answers) = Inr (newDns\<lparr>n_ident := n_ident req, n_flags := 0x8000, n_questions := n_questions req\<rparr>) \<and>
    readAnswers (length (n_questions req)) answers = Inr (map (\<lambda>(name, t, c). (name, t, c, dnsTtl, ip)) (n_questions req))"
proof -
  let ?n = "length (n_questions req)"
  obtain h where h: "unpack_ints BE [CH, CH, CH, CH, CH, CH] (take 12 msg) = Inr h"
      and id: "n_ident req = h ! 0" and "parseQuestions Py2 (nat (h ! 2)) (drop 12 msg) = Inr (n_questions req)"
    using assms(1) by (auto simp: dnsParse_def res_simps)
  then have "?n = nat (h ! 2)"
    using parseQuestions_length by blast
  have ranges: "list_all2 in_range [CH, CH, CH, CH, CH, CH] h"
    using pack_unpack [OF h] pack_Inr_iff by metis
  then have hr: "in_range CH (h ! 0)" "in_range CH (h ! 2)"
    by (auto simp: list_all2_Cons1)
  then have "list_all2 in_range [CH, CH, CH, CH, CH, CH] [n_ident req, 0x8000, int ?n, int ?n, 0, 0]"
    using \<open>?n = nat (h ! 2)\<close> by (simp add: id in_range_def)
  from pack_ok [OF this, of BE] obtain hdr where hdr: "pack BE [CH, CH, CH, CH, CH, CH] [n_ident req, 0x8000, int ?n, int ?n, 0, 0] = Inr hdr"
      "length hdr = 12" "unpack_ints BE [CH, CH, CH, CH, CH, CH] hdr = Inr [n_ident req, 0x8000, int ?n, int ?n, 0, 0]"
    by (auto simp del: pack.simps)
  obtain qbs where qbs: "rmap (formatQuestion Py2) (n_questions req) = Inr qbs"
      "\<forall>rest. parseQuestions Py2 ?n (concat qbs @ rest) = Inr (n_questions req)"
    using formatQuestions_ok [OF assms(2)] by blast
  obtain abs where abs: "rmap (formatAnswer Py2) (map (\<lambda>(name, t, c). (name, t, c, dnsTtl, ip)) (n_questions req)) = Inr abs"
      "\<forall>rest. readAnswers ?n (concat abs @ rest) = Inr (map (\<lambda>(name, t, c). (name, t, c, dnsTtl, ip)) (n_questions req))"
    using formatAnswers_ok [OF assms(2,3)] by blast
  have "dnsFormat Py2 (dnsReply req ip) = Inr (hdr @ concat qbs @ concat abs)"
    using hdr(1) qbs(1) abs(1) by (simp add: dnsFormat_def dnsReply_def newDns_def del: pack.simps)
  moreover have "dnsParse Py2 (hdr @ concat qbs @ concat abs)
      = Inr (newDns\<lparr>n_ident := n_ident req, n_flags := 0x8000, n_questions := n_questions req\<rparr>)"
    using hdr(2,3) qbs(2) by (simp add: dnsParse_def)
  moreover have "readAnswers ?n (concat abs) = Inr (map (\<lambda>(name, t, c). (name, t, c, dnsTtl, ip)) (n_questions req))"
    using abs(2) [rule_format, of "[]"] by simp
  ultimately show ?thesis using hdr(2) by blast
qed

text \<open>
  C36.  Under Python 2, with a log level above the lowest (at -vvvv the dump of the query raises), the
  server handles every query that can be parsed, has a question and asks only for names whose parts
  between the dots are neither empty (so the name is not that of the root) nor longer than 255 bytes,
  as follows.  If the first name is NONE, nothing is sent.  Otherwise exactly one datagram goes to the
  sender, which carries the identification and the questions of the query, and after them one answer for
  each question, which a resolver reads as that name with the server's own address, valid for a day.
\<close>

theorem dns_resolves:
  assumes "dnsParse Py2 msg = Inr req" and "n_questions req = q # qs"
    and "list_all question_ok (n_questions req)" and "length ip = 4" and "LOG_LEVEL_RAW < level"
  shows "if fst q = noName then sentResult (dnsHandle Py2 level ip seq msg addr port) = ([], Inr (seq + 1))
   else \<exists>hdr questions answers.
    sentResult (dnsHandle Py2 level ip seq msg addr port) = ([(hdr @ questions @ answers, addr, port)], Inr (seq + 2)) \<and>
    length hdr = 12 \<and>
    dnsParse Py2 (hdr @ questions @ answers) = Inr (newDns\<lparr>n_ident := n_ident req, n_flags := 0x8000, n_questions := n_questions req\<rparr>) \<and>
    readAnswers (length (n_questions req)) answers = Inr (map (\<lambda>(name, t, c). (name, t, c, dnsTtl, ip)) (n_questions req))"
proof (cases "fst q = noName")
  case True
  then show ?thesis using dnsHandle_ignores [OF assms(1,2) True assms(5)] by simp
next
  case False
  obtain hdr questions answers where reply: "dnsFormat Py2 (dnsReply req ip) = Inr (hdr @ questions @ answers)"
      "length hdr = 12"
      "dnsParse Py2 (hdr @ questions @ answers) = Inr (newDns\<lparr>n_ident := n_ident req, n_flags := 0x8000, n_questions := n_questions req\<rparr>)"
      "readAnswers (length (n_questions req)) answers = Inr (map (\<lambda>(name, t, c). (name, t, c, dnsTtl, ip)) (n_questions req))"
    using dnsReply_formats [OF assms(1,3,4)] by blast
  from dnsHandle_sends [OF assms(1,2) False reply(1) assms(4,5)] reply(2-4) False show ?thesis by auto
qed

definition sampleQuery :: bytes where
  "sampleQuery = [0, 9, 1, 0, 0, 1, 0, 0, 0, 0, 0, 0, 2, 0x73, 0x65, 1, 0x61, 0, 0, 1, 0, 1]"

theorem dns_resolves_witness:
  "\<exists>hdr questions answers.
     sentResult (dnsHandle Py2 INFO [10, 0, 0, 1] 0 sampleQuery ''10.0.0.2'' 4000) =
       ([(hdr @ questions @ answers, ''10.0.0.2'', 4000)], Inr 2) \<and>
     readAnswers 1 answers = Inr [([0x73, 0x65, dot, 0x61], 1, 1, 86400, [10, 0, 0, 1])]"
proof -
  let ?qs = "[([0x73, 0x65, dot, 0x61], 1, 1)] :: (bytes \<times> int \<times> int) list"
  let ?req = "newDns\<lparr>n_ident := 9, n_flags := 256, n_questions := ?qs\<rparr>"
  have parse: "dnsParse Py2 sampleQuery = Inr ?req" by code_simp
  have first: "n_questions ?req = hd ?qs # []" and name: "fst (hd ?qs) \<noteq> noName"
    and ok: "list_all question_ok (n_questions ?req)"
    and ip: "length [10, 0, 0, 1 :: byte] = 4" and level: "LOG_LEVEL_RAW < INFO"
    by (simp_all add: noName_def question_ok_def name_ok_def dot_def in_range_def LOG_LEVEL_RAW_def INFO_def)
  obtain hdr questions answers where
      sent: "sentResult (dnsHandle Py2 INFO [10, 0, 0, 1] 0 sampleQuery ''10.0.0.2'' 4000) =
        ([(hdr @ questions @ answers, ''10.0.0.2'', 4000)], Inr (0 + 2))"
      and read: "readAnswers (length (n_questions ?req)) answers =
        Inr (map (\<lambda>(name, t, c). (name, t, c, dnsTtl, [10, 0, 0, 1])) (n_questions ?req))"
    using dns_resolves [OF parse first ok ip level, of 0 "''10.0.0.2''" 4000] name by auto
  have "readAnswers 1 answers = Inr [([0x73, 0x65, dot, 0x61], 1, 1, 86400, [10, 0, 0, 1])]"
    using read by (simp add: dnsTtl_def del: readAnswers.simps)
  with sent show ?thesis by auto
qed

text \<open>
  Well-formed queries that arrive one after the other are all answered, each to its sender, and the
  thread goes on.
\<close>

definition wellformedQuery :: "bytes \<Rightarrow> bool" where
  "wellformedQuery msg \<longleftrightarrow> length msg \<le> dhcpDnsBufferSize \<and>
     (case dnsParse Py2 msg of
        Inl e \<Rightarrow> False
      | Inr req \<Rightarrow> n_questions req \<noteq> [] \<and> fst (hd (n_questions req)) \<noteq> noName \<and> list_all question_ok (n_questions req))"

text \<open>The reply to a query.\<close>

definition dnsAnswerTo :: "bytes \<Rightarrow> bytes \<Rightarrow> bytes" where
  "dnsAnswerTo ip msg = projr (dnsFormat Py2 (dnsReply (projr (dnsParse Py2 msg)) ip))"

lemma dnsHandle_wellformed:
  assumes "wellformedQuery msg" and "length ip = 4" and "LOG_LEVEL_RAW < level"
  shows "sentResult (dnsHandle Py2 level ip seq msg addr port) = ([(dnsAnswerTo ip msg, addr, port)], Inr (seq + 2))"
proof -
  obtain req where req: "dnsParse Py2 msg = Inr req" and qs: "n_questions req \<noteq> []"
      "fst (hd (n_questions req)) \<noteq> noName" "list_all question_ok (n_questions req)"
    using assms(1) by (auto simp: wellformedQuery_def split: sum.splits)
  obtain m where m: "dnsFormat Py2 (dnsReply req ip) = Inr m"
    using dnsReply_formats [OF req qs(3) assms(2)] by blast
  show ?thesis
    using dnsHandle_sends [OF req _ qs(2) m assms(2,3), of "tl (n_questions req)"] qs(1)
    by (simp add: dnsAnswerTo_def req m)
qed

theorem dns_serves:
  assumes "list_all (\<lambda>(msg, addr, port). wellformedQuery msg) ds" and "length ip = 4" and "LOG_LEVEL_RAW < level"
  shows "sentResult (dnsThread Py2 level ip ds) =
    (map (\<lambda>(msg, addr, port). (dnsAnswerTo ip msg, addr, port)) ds, Inr (2 * length ds))"
proof -
  have "sentResult (dnsLoop Py2 level ip seq ds) =
      (map (\<lambda>(msg, addr, port). (dnsAnswerTo ip msg, addr, port)) ds, Inr (seq + 2 * length ds))" for seq
    using assms(1)
  proof (induction ds arbitrary: seq)
    case Nil
    then show ?case by simp
  next
    case (Cons d ds)
    obtain msg addr port where d: "d = (msg, addr, port)" by (cases d)
    have ok: "wellformedQuery msg" "take dhcpDnsBufferSize msg = msg"
      using Cons.prems by (simp_all add: d wellformedQuery_def)
    show ?case
      using Cons.IH Cons.prems
      by (simp add: d ok(2) sentResult_then [OF dnsHandle_wellformed [OF ok(1) assms(2,3)]])
  qed
  then show ?thesis by (simp add: dnsThread_def)
qed

text \<open>Under Python 3 no query is answered, whatever arrives.\<close>

lemma dns_python3: "quiet (dnsHandle Py3 level ip seq msg addr port)"
proof -
  have no: "parseQuestions Py3 n ms \<noteq> Inr (q # qs)" for n ms q qs
    by (cases n; cases ms) (auto simp: res_simps ord_item_def)
  have "\<not> 0 < length (n_questions req)" if "dnsParse Py3 msg = Inr req" for req
    using that no by (auto simp: dnsParse_def res_simps neq_Nil_conv)
  then show ?thesis
    unfolding dnsHandle_def dnsLog_def py_index_def by (auto intro!: quiet_nbind)
qed

end
