(* ===== verification/Debug2hex.thy ===== *)
theory Debug2hex
  imports Logging GetOpt PyVersion
begin

text \<open>
  \<^verbatim>\<open>utilities/debug2hex.py\<close>, which turns a log back into the bytes that its dumps show, and what it
  makes of the whole log of a run.  The script works under Python 2 and without the name of a data
  file: with one, the opened file is assigned to another name than the one that is written to, and in
  Python 3 the bytes are not text for the standard output.
\<close>

subsection \<open>The script\<close>

text \<open>\<^verbatim>\<open>binascii.unhexlify\<close> and the exceptions of the two versions.\<close>

definition unhexlify_text :: "pyver \<Rightarrow> string \<Rightarrow> bytes res" where
  "unhexlify_text ver s =
     (case unhexlify s of
        Inr b \<Rightarrow> Inr b
      | Inl e \<Rightarrow> Inl (if ver = Py2 then TypeError
                      else if list_ex (\<lambda>c. 128 \<le> (of_char c :: nat)) s then ValueError else e))"

definition write_stdout :: "pyver \<Rightarrow> bytes \<Rightarrow> bytes res" where
  "write_stdout ver b = (if ver = Py2 then Inr b else Inl TypeError)"

text \<open>
  The loop over the lines: the bytes written and the failure that ends it.  \<open>bound\<close>: whether \<^verbatim>\<open>dataFile\<close>,
  which the body looks up before anything else, is a variable.
\<close>

fun debugLoop :: "pyver \<Rightarrow> bool \<Rightarrow> string list \<Rightarrow> bytes \<times> failure option" where
  "debugLoop ver bound [] = ([], None)"
| "debugLoop ver bound (l # ls) =
     (if \<not> dumpLine l then debugLoop ver bound ls
      else if \<not> bound then ([], Some NameError)
      else case rbind (unhexlify_text ver (dumpText l)) (write_stdout ver) of
             Inl e \<Rightarrow> ([], Some (Raises e))
           | Inr b \<Rightarrow> (case debugLoop ver bound ls of (bs, e) \<Rightarrow> (b @ bs, e)))"

text \<open>
  The whole script: \<open>logs\<close> gives the lines of a file that can be opened, \<open>creatable\<close> the files that can be
  written.  The output is what goes to the standard output.
\<close>

definition debug2hex :: "pyver \<Rightarrow> (string \<Rightarrow> string list option) \<Rightarrow> (string \<Rightarrow> bool) \<Rightarrow> string list \<Rightarrow>
    bytes \<times> failure option" where
  "debug2hex ver logs creatable argv =
     (case argv of
        [] \<Rightarrow> ([], Some (Raises IndexError))
      | f # rest \<Rightarrow> (case logs f of
            None \<Rightarrow> ([], Some (Raises OSError))
          | Some ls \<Rightarrow> (case rest of
                [] \<Rightarrow> debugLoop ver True ls
              | out # _ \<Rightarrow> if creatable out then debugLoop ver False ls else ([], Some (Raises OSError)))))"

subsection \<open>What it recovers\<close>

lemma debugLoop_shows:
  assumes "shows_bytes ls bs"
  shows "debugLoop Py2 True ls = (bs, None)"
    and "debugLoop Py3 True ls = ([], if bs = [] then None else Some (Raises TypeError))"
    and "debugLoop ver False ls = ([], if bs = [] then None else Some NameError)"
  using assms
  by (induction rule: shows_bytes.induct) (simp_all add: unhexlify_text_def write_stdout_def)

definition is_file_log :: "handler \<Rightarrow> bool" where
  "is_file_log h \<longleftrightarrow> (case h of LogFile name app \<Rightarrow> True | _ \<Rightarrow> False)"

text \<open>A text of one line that does not begin like a dump.\<close>

definition dataFree :: "string \<Rightarrow> bool" where
  "dataFree s \<longleftrightarrow> CHR 0x0A \<notin> set s \<and> CHR 0x0D \<notin> set s \<and> \<not> dumpLine (s @ [CHR 0x0A])"

text \<open>The times have 15 characters, and neither they nor the texts of the other records look like a dump.\<close>

fun ordinary :: "log_call \<Rightarrow> bool" where
  "ordinary (Plain t lvl s) \<longleftrightarrow> length t = 15 \<and> dataFree t \<and> dataFree s"
| "ordinary (Dump t data) \<longleftrightarrow> length t = 15 \<and> dataFree t"
| "ordinary (Message t direction seq msg endPoint) \<longleftrightarrow>
     length t = 15 \<and> dataFree t \<and> dataFree endPoint \<and> direction \<in> {''-->'', ''<--''}"

text \<open>The bytes that a call shows in the log, by the number of \<^verbatim>\<open>-v\<close>.\<close>

fun logged_bytes :: "nat \<Rightarrow> log_call \<Rightarrow> bytes" where
  "logged_bytes v (Plain t lvl s) = []"
| "logged_bytes v (Dump t data) = (if 3 \<le> v then data else [])"
| "logged_bytes v (Message t direction seq msg endPoint) = (if 4 \<le> v then msg else [])"

lemma dumpLine_prefix:
  assumes "\<not> dumpLine (s @ [CHR 0x0A])"
  shows "\<not> dumpLine (s @ CHR '' '' # rest)"
proof (cases "5 \<le> length s")
  case True
  then show ?thesis using assms by (simp add: dumpLine_def slice_def)
next
  case False
  then have "take 5 (s @ CHR '' '' # rest) ! length s = CHR '' ''" by (simp add: nth_append)
  moreover have "''data:'' ! length s \<noteq> CHR '' ''"
    using False by (auto simp: not_le less_Suc_eq numeral_eq_Suc)
  ultimately show ?thesis by (metis dumpLine_def drop0 slice_def diff_zero)
qed

lemma level_raw: "isEnabledFor (logLevel v) LOG_LEVEL_RAW \<longleftrightarrow> 4 \<le> v"
  and level_data: "isEnabledFor (logLevel v) LOG_LEVEL_DATA \<longleftrightarrow> 3 \<le> v"
  by (auto simp: isEnabledFor_def logLevel_def Let_def ERROR_def INFO_def DEBUG_def LOG_LEVEL_DATA_def
      LOG_LEVEL_RAW_def)

lemma level_debug: "4 \<le> v \<Longrightarrow> isEnabledFor (logLevel v) DEBUG"
  by (simp add: isEnabledFor_def logLevel_def DEBUG_def LOG_LEVEL_RAW_def)

text \<open>The lines of one call.\<close>

definition callText :: "nat \<Rightarrow> handler \<Rightarrow> log_call \<Rightarrow> string list" where
  "callText level h c = map (\<lambda>(t, s). formatRecord h t s @ [CHR 0x0A]) (records level c)"

lemma logText_callText: "logText level h calls = concat (map (callText level h) calls)"
  by (simp add: logText_def callText_def [abs_def] map_concat comp_def)

lemma call_shows:
  assumes "ordinary c" and "\<not> is_file_log h"
  shows "shows_bytes (callText (logLevel v) h c) (logged_bytes v c)"
proof -
  have f: "formatRecord h t s = s" for t s
    using assms(2) by (cases h) (simp_all add: formatRecord_def is_file_log_def)
  show ?thesis
  proof (cases c)
    case (Plain t lvl s)
    then show ?thesis using assms(1) by (simp add: callText_def records_def f dataFree_def shows_no_bytes)
  next
    case (Dump t data)
    then show ?thesis
      using format_data_shows [of data]
      by (simp add: callText_def records_def f data_log_def level_data comp_def no_lines)
  next
    case (Message t direction seq msg endPoint)
    define top where "top = endPoint @ '' '' @ direction @ '' message: '' @ dec_str seq @ '' length: '' @ dec_str (length msg)"
    have "\<not> dumpLine (top @ [CHR 0x0A])"
      using assms(1) dumpLine_prefix [of endPoint] by (simp add: Message top_def dataFree_def)
    moreover have "callText (logLevel v) h c = map (\<lambda>l. l @ [CHR 0x0A])
        (if isEnabledFor (logLevel v) DEBUG
         then top # (if isEnabledFor (logLevel v) LOG_LEVEL_RAW then format_data msg else []) else [])"
      by (simp add: Message callText_def records_def message_log_def f comp_def top_def)
    ultimately show ?thesis
      using format_data_shows [of msg] level_debug [of v]
      by (auto simp: level_raw Message intro: shows_bytes.intros)
  qed
qed

lemma file_call_shows:
  assumes "ordinary c" and "is_file_log h"
  shows "shows_bytes (callText level h c) []"
proof (rule shows_no_bytes)
  have "\<forall>r \<in> set (records level c). length (fst r) = 15 \<and> \<not> dumpLine (fst r @ [CHR 0x0A])"
    using assms(1) by (cases c) (auto simp: records_def dataFree_def)
  then have "\<forall>(t, s) \<in> set (records level c). \<not> dumpLine (formatRecord h t s @ [CHR 0x0A])"
    using assms(2) by (cases h) (auto simp: formatRecord_def is_file_log_def dumpLine_def slice_def)
  then show "\<forall>l \<in> set (callText level h c). \<not> dumpLine l" by (auto simp: callText_def)
qed

definition recoverable :: "nat \<Rightarrow> handler \<Rightarrow> log_call list \<Rightarrow> bytes" where
  "recoverable v h calls = (if is_file_log h then [] else concat (map (logged_bytes v) calls))"

lemma logText_shows:
  assumes "\<forall>c \<in> set calls. ordinary c"
  shows "shows_bytes (logText (logLevel v) h calls) (recoverable v h calls)"
  using assms
proof (induction calls)
  case Nil
  show ?case by (simp add: logText_callText recoverable_def no_lines)
next
  case (Cons c calls)
  have "shows_bytes (callText (logLevel v) h c) (if is_file_log h then [] else logged_bytes v c)"
    using call_shows [of c h v] file_call_shows [of c h] Cons.prems by simp
  with Cons show ?case
    using shows_bytes_append by (fastforce simp: logText_callText recoverable_def)
qed

text \<open>
  C39.  Of a log whose other records are single lines that do not begin with "data:", debug2hex under
  Python 2, without the name of a data file, writes exactly the bytes that were dumped, in order.  When the
  log goes to syslog or to a standard stream these are, from -vvvv on, the bytes of every message
  received and sent, and, from -vvv on, those of every dump of rejected, surplus, ignored or
  uninterpreted bytes (so that such bytes come twice at -vvvv); of a log written to a file, where
  every line begins with the time, it writes nothing.  Whenever there is something to write, the
  script ends instead with TypeError under Python 3, and with NameError under both versions when a data file is named.
\<close>

theorem log_recovers_messages:
  assumes "\<forall>c \<in> set calls. ordinary c" and "logs f = Some (logText (logLevel v) h calls)"
  shows "debug2hex Py2 logs creatable [f] = (recoverable v h calls, None) \<and>
    debug2hex Py3 logs creatable [f] = ([], if recoverable v h calls = [] then None else Some (Raises TypeError)) \<and>
    (creatable out \<longrightarrow> debug2hex ver logs creatable [f, out] =
       ([], if recoverable v h calls = [] then None else Some NameError))"
  using debugLoop_shows [OF logText_shows [OF assms(1), of v h]] assms(2) by (simp add: debug2hex_def)

theorem log_recovers_messages_witness:
  "debug2hex Py2 (\<lambda>f. Some (logText (logLevel 4) StderrLog
     [Plain ''Nov 19 12:00:00'' 20 ''opening stdin'', Message ''Nov 19 12:00:01'' ''-->'' 1 [0x12, 0x34] ''<stdin>'',
      Dump ''Nov 19 12:00:01'' [0x34]])) (\<lambda>f. True) [''log''] = ([0x12, 0x34, 0x34], None)"
  using log_recovers_messages [of
    "[Plain ''Nov 19 12:00:00'' 20 ''opening stdin'', Message ''Nov 19 12:00:01'' ''-->'' 1 [0x12, 0x34] ''<stdin>'',
      Dump ''Nov 19 12:00:01'' [0x34]]" "\<lambda>f. Some (logText (logLevel 4) StderrLog
     [Plain ''Nov 19 12:00:00'' 20 ''opening stdin'', Message ''Nov 19 12:00:01'' ''-->'' 1 [0x12, 0x34] ''<stdin>'',
      Dump ''Nov 19 12:00:01'' [0x34]])" "''log''" 4 StderrLog "\<lambda>f. True" "''out''" Py2]
  by (simp add: dataFree_def dumpLine_def slice_def is_file_log_def recoverable_def)

end
