(* ===== verification/Spec2Isabelle.thy ===== *)
theory Spec2Isabelle
  imports Feed Collected ScriptOptions DhcpProps Dns Debug2hex
begin

text \<open>
  A model of the SolarEdge monitor: the programs that read the messages of inverters from a file, a
  serial line or a socket, check and interpret them, answer them, and write the performance data.

  \<^bold>\<open>The program.\<close>  \<^verbatim>\<open>semonitor.py\<close> reads messages with \<^verbatim>\<open>se/msg.py\<close> (framing, header, checksum),
  hands their payload to \<^verbatim>\<open>se/data.py\<close>, which parses it by function code (\<^verbatim>\<open>se/commands.py\<close>) with
  the tables of \<^verbatim>\<open>se/dataparams.py\<close> and the device classes of \<^verbatim>\<open>se/datadevices.py\<close>, writes
  performance data as lines of JSON, and replies to inverters.  As the master of an RS485 bus a second
  thread grants the bus to the slaves in turn; with commands on the command line it sends these
  instead.  The scripts under \<^verbatim>\<open>conversion/\<close> and \<^verbatim>\<open>utilities/\<close> read the lines of JSON and turn them
  into tables, a state file, metrics, database points or dated files.  \<^verbatim>\<open>se/env.py\<close> reads and
  validates the command line, derives the run mode and sets up the log; \<^verbatim>\<open>se/logutils.py\<close> formats hex dumps, which
  \<^verbatim>\<open>utilities/debug2hex.py\<close> converts back.

  \<^bold>\<open>Python.\<close>  \<open>Prelude\<close>: bytes, exceptions as values (\<open>'a res\<close> is an exception or a value),
  slices, little-endian integers.  \<open>PyFloat\<close>: floats as rationals with the rounding of double
  precision.  \<open>PyStr\<close>: text, hexadecimal and decimal numerals.  \<open>PyVal\<close>: values and dictionaries, with
  the interface \<open>py_dict\<close> that the clients use.  \<open>PyStruct\<close>: \<^verbatim>\<open>struct\<close>, with the interface
  \<open>int_codec\<close> of a fixed-width field.  \<open>PyInt\<close>: \<^verbatim>\<open>int(s)\<close> and \<^verbatim>\<open>int(s, 16)\<close>.  \<open>Effects\<close>: code that
  changes a state and may raise.  \<open>PyNum\<close>: arithmetic on values and changes of nested dictionaries in
  place.  \<open>PyVersion\<close>: the version of the interpreter, where it matters.  \<open>PyFormat\<close>: \<^verbatim>\<open>float(v)\<close>, the text of floats in Python 2 and in \<^verbatim>\<open>%.2f\<close>.  \<open>Transitions\<close>: the
  interface \<open>approach\<close> of a transition system that can always come nearer to a goal, which \<open>Master\<close> and
  \<open>InfluxThreads\<close> provide.

  \<^bold>\<open>The components.\<close>
    \<^item> \<open>Crc\<close> and \<open>Msg\<close> model \<open>crcTable\<close>, \<open>calcCrc\<close>, \<open>parseMsg\<close>, \<open>validateMsg\<close> and \<open>formatMsg\<close>: the
      table-driven checksum is the serial one; the parser accepts exactly what the formatter builds,
      and rejects every message with a changed byte or two changed adjacent data bytes.
    \<^item> \<open>MsgIO\<close> and \<open>Framing\<close> model \<open>readMsg\<close>, \<open>readBytes\<close>, \<open>recordMsg\<close> and \<open>sendMsg\<close> over a source with
      scheduled chunks (interface \<open>byte_source\<close>): the passive reader implements the splitting of a
      stream at the magic number, everything read or sent is recorded.  A read that never returns
      is \<open>None\<close>.
    \<^item> \<open>Commands\<close> holds the function codes and the two dictionaries, \<open>Payloads\<close> the fixed payloads,
      \<open>Times\<close> the time stamps (\<^verbatim>\<open>time.localtime\<close> is an argument, the clock), \<open>Data\<close> the dispatch
      \<open>parseData\<close>.
    \<^item> \<open>DataParams\<close>, \<open>Blocks\<close> and \<open>BlockProps\<close> model performance data: the tables, the block parsers
      and the walk over a message; each documented item is the field at its documented place.
    \<^item> \<open>Devices\<close>, \<open>DeviceFields\<close> and \<open>Merging\<close> model \<open>ParseDevice\<close> and its subclasses, with the layouts
      that the classes share as explicit state, and \<open>merge_update\<close>.
    \<^item> \<open>Json\<close> models \<^verbatim>\<open>json.dumps\<close> with sorted keys, \<open>JsonLoads\<close> \<^verbatim>\<open>json.loads\<close>.  \<open>FloatRound\<close> shows that the
      shortest decimal of a float exists and rounds to it, \<open>NumberText\<close> that it is read back, \<open>JsonRound\<close>
      that the decoder inverts the encoder (these theories are about the standard library).  \<open>Utf8Text\<close> and \<open>JsonSafe\<close> show that performance data is
      always well-formed text, doubles and integers under keys of one kind, so that it can be written and
      read back.  \<open>Feed\<close> composes the monitor's output with a script's input, through the interface
      \<open>line_code\<close>: what a file of messages says is what the script decodes.
    \<^item> \<open>Env\<close> models the argument validators and the checks that derive the run mode.  \<open>ArgParse\<close> models
      what the programs use of \<^verbatim>\<open>argparse\<close>: a parser is a table of options, and what every default and
      conversion satisfies holds of the whole result (\<open>parse_args_holds\<close>).  \<open>Options\<close> has the options of
      \<^verbatim>\<open>semonitor.py\<close> and goes from the words of the command line to the running program, \<open>ScriptOptions\<close>
      those of \<^verbatim>\<open>se2csv.py\<close>, \<^verbatim>\<open>se2file.py\<close> and \<^verbatim>\<open>se2influx.py\<close>; \<open>GetOpt\<close> the scripts that use \<^verbatim>\<open>getopt\<close>, with
      whole runs from their command lines.
    \<^item> \<open>Monitor\<close> and \<open>MonitorProps\<close> model \<open>processMsg\<close>, \<open>readData\<close>, \<open>writeUpdate\<close> and \<open>nextSeq\<close>: a file is
      digested frame by frame; in the modes that reply, performance data is acknowledged when it has been
      stored (or is empty) and processed without an exception.  What
      survives a message, a turn of the loop and a whole run is shown once, in the locales
      \<open>monitor_invariant\<close>, \<open>reading_invariant\<close> and \<open>run_invariant\<close>.
      The reading loop is a function because every turn consumes bytes or a connection.
    \<^item> \<open>Master\<close> models \<open>masterCommands\<close>, \<open>masterGrant\<close> and the timers, interleaved with the reading loop,
      as a step relation: mutual exclusion, the end of every wait, and the races that remain.
    \<^item> \<open>Control\<close> models \<open>doCommands\<close>: what the command line accepts can be taken apart, and what is
      sent is read back by the parser.
    \<^item> \<open>Program\<close> models the main program with \<^verbatim>\<open>se/files.py\<close>: which source it opens, with the calls on
      the listening sockets, and whether it reads, sends commands or starts the threads.
    \<^item> \<open>LogUtils\<close> and \<open>Logging\<close> model the log: the level and the handler chosen in \<open>getArgs\<close>, and the
      dumps of \<^verbatim>\<open>se/logutils.py\<close>, of messages and of the bytes that the parsers reject.  \<open>Debug2hex\<close> models
      \<^verbatim>\<open>debug2hex.py\<close> with the failures of its output: where it works it recovers what a whole log dumps.
    \<^item> \<open>Unwrap\<close> models \<open>unwrap_metricsDict\<close> of \<^verbatim>\<open>conversion/common.py\<close> (a generator is the list it yields
      with the exception that ends it): it lists the devices under the names of their paths.  \<open>Csv\<close>
      models \<^verbatim>\<open>se2csv.py\<close>: when it gets through, no item of the input is missing from the tables.  \<open>Collected\<close> composes
      \<open>wrap_in_ids\<close>, \<open>merge_update\<close> and \<open>unwrap_metricsDict\<close>: what becomes of a device of the monitor.
    \<^item> \<open>StateFile\<close>, \<open>StateProps\<close> and \<open>StateSafe\<close> model \<^verbatim>\<open>se2state.py\<close>: the statistics are the sums and
      averages over the devices, the day's energy is a running maximum and never falls, well-formed input never ends the script.
    \<^item> \<open>Graphite\<close> models \<^verbatim>\<open>se2graphite.py\<close> and \<^verbatim>\<open>pickle2graphite.py\<close>, which send the same metrics, \<open>Mqtt\<close>
      \<^verbatim>\<open>se2MQTT.py\<close>, which publishes the latest values whatever messages the broker has lost; all three
      are Python 2 programs.  \<open>Report\<close> models \<^verbatim>\<open>seprint.py\<close>.
    \<^item> \<open>Influx\<close> and \<open>InfluxThreads\<close> model \<^verbatim>\<open>se2influx.py\<close>: the points of a line (the time zone library is
      an argument), and the reader, the writer, the logger and the main thread with their queues as a
      step relation, in which the time-out of a \<open>get\<close> and the test of the shutdown are two steps: order,
      bounds, the orderly end and when it can be reached, the line that comes too late and is left in a
      queue, and the hang when the writer has died.
    \<^item> \<open>NetIO\<close>, \<open>Dhcp\<close>, \<open>DhcpProps\<close> and \<open>Dns\<close> model \<^verbatim>\<open>se/network.py\<close>, which nothing imports any more:
      both message classes with their logs, the handling of a datagram and the server threads, as code
      whose visible effects are the records of its log and the datagrams it sends.  It is Python 2
      code; the version is a parameter.  Under Python 2, with a log above the lowest level, every well-formed
      DNS query is answered unless its first name is NONE, but logging a DHCP reply raises before it is
      sent; under Python 3 nothing is answered.
    \<^item> \<open>SplitFile\<close> models \<^verbatim>\<open>se2file.py\<close> as a \<open>while_option\<close> loop with the clock and the version of Python as
      arguments: under Python 3 the first line with text ends it, under Python 2 every line is filed.

  \<^bold>\<open>Bounds.\<close>  Only the JSON decoder has fuel, the length of its text, which is shown to suffice
  (\<open>json_loads_not_tired\<close>).  Every other loop of the model ends by a measure (bytes left, connections
  left, keys left), is a \<open>while_option\<close> whose result is proved, or is a step relation.  Python integers are \<open>int\<close>; the width of a field is
  checked where \<^verbatim>\<open>struct\<close> checks it.  The checksum is a 16-bit word.

  \<^bold>\<open>Not modelled.\<close>  The log of \<^verbatim>\<open>dumpState\<close> and the logging calls of the parsers, which only show what
  is modelled; the single library calls that open serial devices and files; the messages of
  \<^verbatim>\<open>argparse\<close>; the report \<open>itemDefs\<close>; characters outside ASCII in
  numerals; arrays in JSON, which nothing writes; \<^verbatim>\<open>pickle.dumps\<close>, the MQTT and database clients and
  the local time zone, arguments of the scripts (as is the decoder, which \<open>Feed\<close> supplies); the quoting of the \<^verbatim>\<open>csv\<close> module.  Of \<^verbatim>\<open>se/network.py\<close>
  \<^verbatim>\<open>inet_aton\<close> and the creation of the sockets.  The two syslog helpers only configure the logging module.
\<close>

end
